(* ===== verification/Go_Float.thy ===== *)
theory Go_Float
  imports Complex_Main "HOL-Library.Log_Nat"
begin

text \<open>
  Go's \<open>float64\<close>, as far as the program uses it: the finite values are rational numbers and each
  arithmetic operation is the exact operation followed by \<open>fl\<close>, IEEE 754's rounding to the
  nearest 53-bit significand with ties to even. The exponent range is not bounded: NaN, the
  infinities, the sign of zero and subnormals are outside the model (amounts of money are read from
  JSON numbers and database columns, which carry none of the first two).

  The lemmas give the facts the components use: \<open>fl\<close> is monotone and odd, keeps signs, keeps
  every value that has 53 bits (in particular every integer up to \<open>2 ^ 53\<close>), is idempotent, and
  is within half a unit in the last place of the exact result.
\<close>

type_synonym f64 = rat

section \<open>Rounding to an integer, ties to even\<close>

definition round_even :: "rat \<Rightarrow> int" where
  "round_even x =
     (let f = \<lfloor>x\<rfloor>; d = x - of_int f
      in if d < 1 / 2 then f else if d > 1 / 2 then f + 1 else if even f then f else f + 1)"

lemma round_even_of_int [simp]: "round_even (of_int n) = n"
  by (simp add: round_even_def)

lemma round_even_error: "\<bar>of_int (round_even x) - x\<bar> \<le> 1 / 2"
proof -
  have "of_int \<lfloor>x\<rfloor> \<le> x" "x < of_int \<lfloor>x\<rfloor> + 1" by linarith+
  moreover have "\<bar>a\<bar> \<le> b" if "a \<le> b" "- a \<le> b" for a b :: rat using that by linarith
  ultimately show ?thesis by (auto simp: round_even_def Let_def)
qed

lemma round_even_cases: "round_even x = \<lfloor>x\<rfloor> \<or> round_even x = \<lfloor>x\<rfloor> + 1"
  by (simp add: round_even_def Let_def)

lemma round_even_mono:
  assumes "x \<le> y"
  shows "round_even x \<le> round_even y"
proof (cases "\<lfloor>x\<rfloor> = \<lfloor>y\<rfloor>")
  case True
  with assms show ?thesis
    by (auto simp: round_even_def Let_def)
next
  case False
  moreover have "\<lfloor>x\<rfloor> \<le> \<lfloor>y\<rfloor>" using assms by (rule floor_mono)
  ultimately have "\<lfloor>x\<rfloor> + 1 \<le> \<lfloor>y\<rfloor>" by simp
  with round_even_cases [of x] round_even_cases [of y] show ?thesis by auto
qed

lemma round_even_minus: "round_even (- x) = - round_even x"
proof (cases "x = of_int \<lfloor>x\<rfloor>")
  case True
  then show ?thesis by (metis of_int_minus round_even_of_int)
next
  case False
  then have "of_int \<lfloor>x\<rfloor> < x" "x < of_int \<lfloor>x\<rfloor> + 1" by linarith+
  then have "\<lfloor>- x\<rfloor> = - \<lfloor>x\<rfloor> - 1"
    by (intro floor_unique) auto
  then show ?thesis by (auto simp: round_even_def Let_def)
qed

section \<open>The binary exponent\<close>

text \<open>
  \<open>bin_exp x\<close> is the \<open>k\<close> with \<open>2 ^ k \<le> \<bar>x\<bar> < 2 ^ (k + 1)\<close>. The bit lengths of numerator and
  denominator give it up to one.
\<close>

definition bin_exp :: "rat \<Rightarrow> int" where
  "bin_exp x =
     (let (n, d) = quotient_of x; e = bitlen \<bar>n\<bar> - bitlen d
      in if \<bar>x\<bar> < 2 powi e then e - 1 else e)"

lemma two_powi_less_iff: "(2 :: rat) powi m < 2 powi n \<longleftrightarrow> m < n"
  by (metis less_imp_not_less not_less_iff_gr_or_eq one_less_numeral_iff power_int_strict_increasing
      semiring_norm(76))

lemma two_powi_le_iff: "(2 :: rat) powi m \<le> 2 powi n \<longleftrightarrow> m \<le> n"
  by (meson not_le two_powi_less_iff)

lemma bitlen_powi:
  assumes "0 < n"
  shows "2 powi (bitlen n - 1) \<le> (of_int n :: rat)" "(of_int n :: rat) < 2 powi (bitlen n)"
proof -
  have pos: "1 \<le> bitlen n" using assms by (simp add: bitlen_alt_def floorlog_def)
  have b: "2 ^ nat (bitlen n - 1) \<le> n" "n < 2 ^ nat (bitlen n)"
    using bitlen_bounds [OF assms] by auto
  have "(2 powi (bitlen n - 1) :: rat) = of_int (2 ^ nat (bitlen n - 1))"
    using pos by (simp add: power_int_def)
  then show "2 powi (bitlen n - 1) \<le> (of_int n :: rat)" using b(1) by (simp only: of_int_le_iff)
  have "(2 powi (bitlen n) :: rat) = of_int (2 ^ nat (bitlen n))"
    using pos by (simp add: power_int_def)
  then show "(of_int n :: rat) < 2 powi (bitlen n)" using b(2) by (simp only: of_int_less_iff)
qed

lemma bin_exp_bounds:
  assumes "x \<noteq> 0"
  shows "2 powi bin_exp x \<le> \<bar>x\<bar>" "\<bar>x\<bar> < 2 powi (bin_exp x + 1)"
proof -
  obtain n d where q: "quotient_of x = (n, d)" by (cases "quotient_of x") auto
  have d: "0 < d" using q by (rule quotient_of_denom_pos)
  have x: "x = of_int n / of_int d" using q by (rule quotient_of_div)
  have n: "0 < \<bar>n\<bar>" using assms x by auto
  have ax: "\<bar>x\<bar> = of_int \<bar>n\<bar> / of_int d" using x d by simp
  let ?e = "bitlen \<bar>n\<bar> - bitlen d"
  note bn = bitlen_powi [OF n] and bd = bitlen_powi [OF d]
  have "of_int \<bar>n\<bar> < (2 powi bitlen \<bar>n\<bar> :: rat)" by (rule bn)
  also have "\<dots> = 2 powi (?e + 1) * 2 powi (bitlen d - 1)"
    by (simp flip: power_int_add)
  also have "\<dots> \<le> 2 powi (?e + 1) * of_int d"
    using bd(1) by (intro mult_left_mono) auto
  finally have hi: "\<bar>x\<bar> < 2 powi (?e + 1)" using d by (simp add: ax field_simps)
  have "2 powi (?e - 1) * of_int d \<le> 2 powi (?e - 1) * (2 powi bitlen d :: rat)"
    using bd(2) by (intro mult_left_mono) auto
  also have "\<dots> = 2 powi (bitlen \<bar>n\<bar> - 1)"
    by (simp flip: power_int_add)
  also have "\<dots> \<le> of_int \<bar>n\<bar>" by (rule bn)
  finally have lo: "2 powi (?e - 1) \<le> \<bar>x\<bar>" using d by (simp add: ax field_simps)
  have be: "bin_exp x = (if \<bar>x\<bar> < 2 powi ?e then ?e - 1 else ?e)"
    by (simp add: bin_exp_def q)
  show "2 powi bin_exp x \<le> \<bar>x\<bar>" "\<bar>x\<bar> < 2 powi (bin_exp x + 1)"
    using lo hi be by (auto split: if_splits)
qed

lemma bin_exp_mono:
  assumes "x \<noteq> 0" "\<bar>x\<bar> \<le> \<bar>y\<bar>"
  shows "bin_exp x \<le> bin_exp y"
proof (rule ccontr)
  assume "\<not> bin_exp x \<le> bin_exp y"
  then have le: "bin_exp y + 1 \<le> bin_exp x" by simp
  have "y \<noteq> 0" using assms by auto
  then have "\<bar>y\<bar> < 2 powi (bin_exp y + 1)" by (rule bin_exp_bounds)
  also have "\<dots> \<le> (2 :: rat) powi bin_exp x" using le by (intro power_int_increasing) auto
  also have "\<dots> \<le> \<bar>x\<bar>" using assms(1) by (rule bin_exp_bounds)
  finally show False using assms(2) by simp
qed

lemma bin_exp_minus [simp]: "bin_exp (- x) = bin_exp x"
proof (cases "x = 0")
  case False
  show ?thesis
    using bin_exp_mono [of x "- x"] bin_exp_mono [of "- x" x] False by force
qed simp

section \<open>Rounding to 53 bits\<close>

definition ulp :: "rat \<Rightarrow> rat" where
  "ulp x = 2 powi (bin_exp x - 52)"

definition fl :: "rat \<Rightarrow> f64" where
  "fl x = (if x = 0 then 0 else of_int (round_even (x / ulp x)) * ulp x)"

definition is_f64 :: "rat \<Rightarrow> bool" where
  "is_f64 x \<longleftrightarrow> fl x = x"

lemma ulp_pos [simp]: "0 < ulp x"
  by (simp add: ulp_def)

lemma ulp_nonzero [simp]: "ulp x \<noteq> 0"
  using ulp_pos [of x] by linarith

lemma fl_zero [simp]: "fl 0 = 0"
  by (simp add: fl_def)

lemma fl_minus: "fl (- x) = - fl x"
  by (simp add: fl_def ulp_def round_even_minus)

lemma fl_half_ulp:
  assumes "x \<noteq> 0"
  shows "\<bar>fl x - x\<bar> \<le> ulp x / 2"
proof -
  have "\<bar>fl x - x\<bar> = \<bar>of_int (round_even (x / ulp x)) - x / ulp x\<bar> * ulp x"
  proof -
    have "fl x - x = (of_int (round_even (x / ulp x)) - x / ulp x) * ulp x"
      using assms by (simp add: fl_def left_diff_distrib)
    then show ?thesis using ulp_pos [of x] by (simp add: abs_mult del: ulp_pos)
  qed
  also have "\<dots> \<le> 1 / 2 * ulp x"
    by (intro mult_right_mono round_even_error) (simp add: less_imp_le)
  finally show ?thesis by simp
qed

lemma ulp_rel:
  assumes "x \<noteq> 0"
  shows "ulp x \<le> \<bar>x\<bar> / 2 ^ 52"
proof -
  have "ulp x = 2 powi bin_exp x / 2 ^ 52"
    by (simp add: ulp_def power_int_diff)
  then show ?thesis
    using bin_exp_bounds(1) [OF assms] by (simp add: divide_right_mono)
qed

lemma fl_error: "\<bar>fl x - x\<bar> \<le> \<bar>x\<bar> / 2 ^ 53"
proof (cases "x = 0")
  case False
  then show ?thesis using fl_half_ulp [OF False] ulp_rel [OF False] by simp
qed simp

text \<open>Significands: between \<open>2 ^ 52\<close> and \<open>2 ^ 53\<close>.\<close>

lemma significand_bounds:
  assumes "0 < x"
  shows "2 ^ 52 \<le> x / ulp x" "x / ulp x < 2 ^ 53"
proof -
  have "2 powi bin_exp x = 2 ^ 52 * ulp x" "2 powi (bin_exp x + 1) = 2 ^ 53 * ulp x"
    by (simp_all add: ulp_def power_int_diff power_int_add)
  with bin_exp_bounds [of x] assms show "2 ^ 52 \<le> x / ulp x" "x / ulp x < 2 ^ 53"
    by (simp_all add: pos_le_divide_eq pos_divide_less_eq)
qed

lemma fl_pos_bounds:
  assumes "0 < x"
  shows "2 powi bin_exp x \<le> fl x" "fl x \<le> 2 powi (bin_exp x + 1)"
proof -
  have p: "2 powi bin_exp x = 2 ^ 52 * ulp x" "2 powi (bin_exp x + 1) = 2 ^ 53 * ulp x"
    by (simp_all add: ulp_def power_int_diff power_int_add)
  have "round_even (of_int (2 ^ 52)) \<le> round_even (x / ulp x)"
    using significand_bounds(1) [OF assms] by (intro round_even_mono) simp
  then have lo: "(2 ^ 52 :: int) \<le> round_even (x / ulp x)"
    by (simp only: round_even_of_int)
  have "round_even (x / ulp x) \<le> round_even (of_int (2 ^ 53))"
    using significand_bounds(2) [OF assms] by (intro round_even_mono) simp
  then have hi: "round_even (x / ulp x) \<le> (2 ^ 53 :: int)"
    by (simp only: round_even_of_int)
  have f: "fl x = of_int (round_even (x / ulp x)) * ulp x" using assms by (simp add: fl_def)
  have "of_int (2 ^ 52) * ulp x \<le> fl x"
    unfolding f using lo by (intro mult_right_mono) (simp_all only: of_int_le_iff ulp_pos less_imp_le)
  moreover have "fl x \<le> of_int (2 ^ 53) * ulp x"
    unfolding f using hi by (intro mult_right_mono) (simp_all only: of_int_le_iff ulp_pos less_imp_le)
  ultimately show "2 powi bin_exp x \<le> fl x" "fl x \<le> 2 powi (bin_exp x + 1)"
    by (simp_all add: p)
qed

lemma fl_pos [simp]: "0 < x \<Longrightarrow> 0 < fl x"
  using fl_pos_bounds(1) [of x] by (meson less_le_trans zero_less_numeral zero_less_power_int)

lemma fl_neg [simp]: "x < 0 \<Longrightarrow> fl x < 0"
  using fl_pos [of "- x"] by (simp add: fl_minus)

lemma fl_nonneg [simp]: "0 \<le> x \<Longrightarrow> 0 \<le> fl x"
  by (cases "x = 0") (auto simp: less_imp_le)

lemma fl_nonneg_iff: "0 \<le> fl x \<longleftrightarrow> 0 \<le> x"
  by (metis fl_neg fl_nonneg not_le)

lemma fl_pos_iff: "0 < fl x \<longleftrightarrow> 0 < x"
  by (metis fl_pos fl_neg fl_zero less_irrefl less_trans not_less_iff_gr_or_eq)

lemma fl_eq_0_iff: "fl x = 0 \<longleftrightarrow> x = 0"
  by (metis fl_pos fl_neg fl_zero less_irrefl not_less_iff_gr_or_eq)

lemma fl_mono_pos:
  assumes "0 < x" "x \<le> y"
  shows "fl x \<le> fl y"
proof (cases "bin_exp x = bin_exp y")
  case True
  then have u: "ulp x = ulp y" by (simp add: ulp_def)
  have "x / ulp y \<le> y / ulp y" using assms by (intro divide_right_mono) (auto simp: less_imp_le)
  then have "round_even (x / ulp y) \<le> round_even (y / ulp y)" by (rule round_even_mono)
  then have "of_int (round_even (x / ulp y)) * ulp y \<le> of_int (round_even (y / ulp y)) * ulp y"
    by (intro mult_right_mono) (simp_all only: of_int_le_iff ulp_pos less_imp_le)
  then show ?thesis using assms u by (simp add: fl_def)
next
  case False
  then have "bin_exp x + 1 \<le> bin_exp y" using bin_exp_mono [of x y] assms by simp
  then have "(2 :: rat) powi (bin_exp x + 1) \<le> 2 powi bin_exp y"
    by (intro power_int_increasing) auto
  moreover have "fl x \<le> 2 powi (bin_exp x + 1)" "2 powi bin_exp y \<le> fl y"
    using fl_pos_bounds assms by auto
  ultimately show ?thesis by simp
qed

lemma fl_mono:
  assumes "x \<le> y"
  shows "fl x \<le> fl y"
proof (cases "0 < x")
  case True
  then show ?thesis using assms by (rule fl_mono_pos)
next
  case x: False
  show ?thesis
  proof (cases "0 \<le> y")
    case True
    then have "fl x \<le> 0" using x fl_nonneg [of "- x"] by (simp add: fl_minus)
    with fl_nonneg [OF True] show ?thesis by simp
  next
    case False
    then have "fl (- y) \<le> fl (- x)" using assms by (intro fl_mono_pos) auto
    then show ?thesis by (simp add: fl_minus)
  qed
qed

text \<open>Values that have 53 bits are kept.\<close>

lemma fl_exact:
  assumes "\<bar>m\<bar> \<le> 2 ^ 53" "x = of_int m * 2 powi k"
  shows "fl x = x"
proof (cases "x = 0")
  case False
  then have m: "m \<noteq> 0" using assms(2) by auto
  show ?thesis
  proof (cases "\<bar>m\<bar> = 2 ^ 53")
    case True
    have ax: "\<bar>x\<bar> = 2 powi (k + 53)"
      using True assms(2)
      by (simp add: abs_mult power_int_add flip: of_int_abs)
    have "bin_exp x = k + 53"
    proof -
      have "(2 :: rat) powi bin_exp x \<le> 2 powi (k + 53)" "(2 :: rat) powi (k + 53) < 2 powi (bin_exp x + 1)"
        using bin_exp_bounds [OF False] ax by auto
      then have "bin_exp x \<le> k + 53" "k + 53 < bin_exp x + 1"
        by (simp_all only: two_powi_le_iff two_powi_less_iff)
      then show ?thesis by simp
    qed
    then have u: "ulp x = 2 powi (k + 1)" by (simp add: ulp_def add.commute)
    have "x / ulp x = of_int (m div 2)"
    proof -
      have ev: "even m" using True by (metis even_abs_add_iff even_numeral even_power abs_abs dvd_abs_iff zero_less_numeral)
      then have "m = 2 * (m div 2)" by simp
      then have "(of_int m :: rat) = 2 * of_int (m div 2)" by (metis of_int_mult of_int_numeral)
      then show ?thesis using assms(2) u by (simp add: power_int_add)
    qed
    then show ?thesis using False by (simp add: fl_def) (metis nonzero_mult_div_cancel_right times_divide_eq_left ulp_nonzero nonzero_divide_eq_eq)
  next
    case lt: False
    then have mlt: "\<bar>m\<bar> < 2 ^ 53" using assms(1) by simp
    have "\<bar>x\<bar> = of_int \<bar>m\<bar> * 2 powi k" using assms(2) by (simp add: abs_mult)
    also have "\<dots> < of_int (2 ^ 53) * 2 powi k"
      using mlt by (intro mult_strict_right_mono) (simp_all only: of_int_less_iff, simp)
    also have "\<dots> = 2 powi (k + 53)" by (simp add: power_int_add)
    finally have "2 powi bin_exp x < (2 :: rat) powi (k + 53)"
      using bin_exp_bounds(1) [OF False] by simp
    then have be: "bin_exp x - 52 \<le> k" by (simp add: two_powi_less_iff)
    have "x / ulp x = of_int m * 2 powi (k - (bin_exp x - 52))"
      using assms(2) by (simp add: ulp_def power_int_diff)
    also have "\<dots> = of_int (m * 2 ^ nat (k - (bin_exp x - 52)))"
      using be by (simp add: power_int_def)
    finally have "round_even (x / ulp x) = m * 2 ^ nat (k - (bin_exp x - 52))"
      by (simp only: round_even_of_int)
    moreover have "x = of_int (m * 2 ^ nat (k - (bin_exp x - 52))) * ulp x"
      using \<open>x / ulp x = of_int m * 2 powi (k - (bin_exp x - 52))\<close>
        \<open>of_int m * 2 powi (k - (bin_exp x - 52)) = of_int (m * 2 ^ nat (k - (bin_exp x - 52)))\<close>
      by (metis nonzero_divide_eq_eq ulp_nonzero)
    ultimately show ?thesis using False by (simp add: fl_def)
  qed
qed simp

lemma fl_of_int: "\<bar>n\<bar> \<le> 2 ^ 53 \<Longrightarrow> fl (of_int n) = of_int n"
  by (rule fl_exact [of n _ 0]) auto

text \<open>Evaluation takes whole amounts as they are.\<close>

lemma fl_code [code]:
  "fl x = (let (n, d) = quotient_of x
     in if d = 1 \<and> \<bar>n\<bar> \<le> 2 ^ 53 then x else if x = 0 then 0 else of_int (round_even (x / ulp x)) * ulp x)"
proof -
  obtain n d where q: "quotient_of x = (n, d)" by fastforce
  have "fl x = x" if "d = 1" "\<bar>n\<bar> \<le> 2 ^ 53"
    using quotient_of_div [OF q] fl_of_int [OF that(2)] that(1) by simp
  then show ?thesis by (simp add: q fl_def)
qed

lemma fl_numeral [simp]: "(numeral n :: int) \<le> 2 ^ 53 \<Longrightarrow> fl (numeral n) = numeral n"
  using fl_of_int [of "numeral n"] by simp

lemma fl_one [simp]: "fl 1 = 1"
  using fl_of_int [of 1] by simp

lemma fl_fl [simp]: "fl (fl x) = fl x"
proof (cases "x = 0")
  case False
  have "\<bar>round_even (x / ulp x)\<bar> \<le> 2 ^ 53"
  proof (cases "0 < x")
    case True
    have "fl x \<le> 2 ^ 53 * ulp x"
      using fl_pos_bounds(2) [OF True] by (simp add: ulp_def power_int_diff power_int_add)
    then have "of_int (round_even (x / ulp x)) \<le> (of_int (2 ^ 53) :: rat)"
      using True by (simp add: fl_def)
    then have "round_even (x / ulp x) \<le> 2 ^ 53" by (simp only: of_int_le_iff)
    moreover have "0 \<le> round_even (x / ulp x)"
      using fl_pos [OF True] True ulp_pos [of x] by (auto simp: fl_def zero_less_mult_iff)
    ultimately show ?thesis by simp
  next
    case neg: False
    let ?y = "- x"
    have y: "0 < ?y" using neg False by simp
    have u: "ulp ?y = ulp x" by (simp add: ulp_def)
    have "fl ?y \<le> 2 ^ 53 * ulp ?y"
      using fl_pos_bounds(2) [OF y] by (simp add: ulp_def power_int_diff power_int_add)
    then have "of_int (round_even (?y / ulp ?y)) \<le> (of_int (2 ^ 53) :: rat)"
      using y by (simp add: fl_def)
    then have "round_even (?y / ulp ?y) \<le> 2 ^ 53" by (simp only: of_int_le_iff)
    moreover have "0 \<le> round_even (?y / ulp ?y)"
      using fl_pos [OF y] y ulp_pos [of "- x"] by (auto simp: fl_def zero_less_mult_iff)
    ultimately show ?thesis by (simp add: u round_even_minus)
  qed
  then show ?thesis
    by (rule fl_exact [of _ _ "bin_exp x - 52"]) (use False in \<open>simp add: fl_def ulp_def\<close>)
qed simp

lemma is_f64_fl [simp]: "is_f64 (fl x)"
  by (simp add: is_f64_def)

lemma is_f64_0 [simp]: "is_f64 0"
  by (simp add: is_f64_def)

lemma is_f64_of_int: "\<bar>n\<bar> \<le> 2 ^ 53 \<Longrightarrow> is_f64 (of_int n)"
  by (simp add: is_f64_def fl_of_int)

lemma fl_le_f64: "x \<le> y \<Longrightarrow> is_f64 y \<Longrightarrow> fl x \<le> y"
  using fl_mono [of x y] by (simp add: is_f64_def)

lemma f64_le_fl: "x \<le> y \<Longrightarrow> is_f64 x \<Longrightarrow> x \<le> fl y"
  using fl_mono [of x y] by (simp add: is_f64_def)

end
