(* ===== verification/Go_Prelude.thy ===== *)
theory Go_Prelude
  imports Go_Float "HOL-Library.AList" "HOL-Library.Sublist" "HOL-Library.Multiset"
begin

text \<open>
  What the components share: names for the model's types, the part of Go's \<open>strings\<close>, \<open>strconv\<close>
  and \<open>fmt\<close> packages they use (on ASCII text, as lists of characters), JSON values for the
  \<open>map[string]any\<close> metadata columns, and the library lemmas and collections their proofs use.
  A UUID is a natural number and \<open>uuid.Nil\<close> is 0.
\<close>

type_synonym uuid = nat
type_synonym time = int  \<comment> \<open>a \<open>time.Time\<close> as nanoseconds since the epoch\<close>

abbreviation uuid_nil :: uuid where
  "uuid_nil \<equiv> 0"

named_theorems str_simps \<open>evaluation of the string operations\<close>
named_theorems meta_simps \<open>reading and writing metadata maps\<close>

section \<open>Strings\<close>

definition to_lower_char :: "char \<Rightarrow> char" where
  "to_lower_char c = (let n = (of_char c :: nat) in if 65 \<le> n \<and> n \<le> 90 then char_of (n + 32) else c)"

definition to_upper_char :: "char \<Rightarrow> char" where
  "to_upper_char c = (let n = (of_char c :: nat) in if 97 \<le> n \<and> n \<le> 122 then char_of (n - 32) else c)"

definition is_space :: "char \<Rightarrow> bool" where
  "is_space c \<longleftrightarrow> (let n = (of_char c :: nat) in n = 32 \<or> 9 \<le> n \<and> n \<le> 13)"

definition to_lower :: "string \<Rightarrow> string" where
  "to_lower s = map to_lower_char s"

definition to_upper :: "string \<Rightarrow> string" where
  "to_upper s = map to_upper_char s"

definition trim_space :: "string \<Rightarrow> string" where
  "trim_space s = rev (dropWhile is_space (rev (dropWhile is_space s)))"

definition equal_fold :: "string \<Rightarrow> string \<Rightarrow> bool" where
  "equal_fold s t \<longleftrightarrow> to_lower s = to_lower t"

fun contains_str :: "string \<Rightarrow> string \<Rightarrow> bool" where
  "contains_str [] sub = (sub = [])"
| "contains_str (c # s) sub = (prefix sub (c # s) \<or> contains_str s sub)"

fun join :: "string \<Rightarrow> string list \<Rightarrow> string" where
  "join sep [] = []"
| "join sep [x] = x"
| "join sep (x # y # xs) = x @ sep @ join sep (y # xs)"

lemmas string_defs [str_simps] =
  to_lower_def to_upper_def trim_space_def equal_fold_def
  to_lower_char_def to_upper_char_def is_space_def Let_def

lemma contains_str_sublist: "contains_str s sub \<longleftrightarrow> sublist sub s"
  by (induction s) (auto simp: sublist_Cons_right)

text \<open>Evaluation by the bits of a character.\<close>

lemma is_space_code [code]:
  "is_space (Char b0 b1 b2 b3 b4 b5 b6 b7) \<longleftrightarrow> \<not> b7 \<and> \<not> b6 \<and> \<not> b4 \<and>
     (if b5 then \<not> (b0 \<or> b1 \<or> b2 \<or> b3) else b3 \<and> (if b2 then \<not> b1 else b0 \<or> b1))"
  by (cases b0; cases b1; cases b2; cases b3; cases b4; cases b5; cases b6; cases b7)
    (simp_all add: is_space_def of_char_Char)

lemma to_lower_char_code [code]:
  "to_lower_char (Char b0 b1 b2 b3 b4 b5 b6 b7) =
     (if \<not> b7 \<and> b6 \<and> \<not> b5 \<and> (b0 \<or> b1 \<or> b2 \<or> b3 \<or> b4) \<and> (b4 \<and> b3 \<longrightarrow> \<not> b2 \<and> \<not> (b1 \<and> b0))
      then Char b0 b1 b2 b3 b4 True b6 b7 else Char b0 b1 b2 b3 b4 b5 b6 b7)"
  by (cases b0; cases b1; cases b2; cases b3; cases b4; cases b5; cases b6; cases b7)
    (simp_all add: to_lower_char_def of_char_Char char_of_def bit_0)

lemma to_lower_char_idem [simp]: "to_lower_char (to_lower_char c) = to_lower_char c"
  by (simp add: to_lower_char_def Let_def)

lemma to_lower_idem [simp]: "to_lower (to_lower s) = to_lower s"
  by (simp add: to_lower_def)

lemma is_space_lower [simp]: "is_space (to_lower_char c) = is_space c"
  by (simp add: is_space_def to_lower_char_def Let_def)

lemma dropWhile_space_lower: "dropWhile is_space (map to_lower_char s) = map to_lower_char (dropWhile is_space s)"
  by (simp add: dropWhile_map o_def)

lemma to_lower_trim: "to_lower (trim_space s) = trim_space (to_lower s)"
  by (simp add: to_lower_def trim_space_def dropWhile_space_lower rev_map)

lemma dropWhile_dropWhile [simp]: "dropWhile P (dropWhile P xs) = dropWhile P xs"
  by (induction xs) auto

lemma dropWhile_rev_dropWhile:
  "dropWhile P (rev (dropWhile P (rev (dropWhile P xs)))) = rev (dropWhile P (rev (dropWhile P xs)))"
proof (cases "rev (dropWhile P (rev (dropWhile P xs)))")
  case (Cons y ys)
  have "\<exists>zs. dropWhile P xs = (y # ys) @ zs"
    by (metis Cons rev_append rev_rev_ident takeWhile_dropWhile_id)
  then have "hd (dropWhile P xs) = y" "dropWhile P xs \<noteq> []" by (auto simp del: dropWhile_eq_Nil_conv)
  then have "\<not> P y" by (metis hd_dropWhile)
  then show ?thesis by (simp add: Cons)
next
  case Nil
  then show ?thesis by (simp only: dropWhile.simps)
qed

lemma trim_space_idem [simp]: "trim_space (trim_space s) = trim_space s"
  by (simp add: trim_space_def dropWhile_rev_dropWhile)

lemma equal_fold_refl [simp]: "equal_fold s s"
  by (simp add: equal_fold_def)

section \<open>Integers as decimal strings\<close>

fun show_nat :: "nat \<Rightarrow> string" where
  "show_nat n = (if n < 10 then [char_of (48 + n)] else show_nat (n div 10) @ [char_of (48 + n mod 10)])"

declare show_nat.simps [simp del]

definition show_int :: "int \<Rightarrow> string" where
  "show_int i = (if i < 0 then CHR ''-'' # show_nat (nat (- i)) else show_nat (nat i))"

text \<open>
  \<open>fmt.Sprintf("%0*d", width, val)\<close>: zeros after the sign up to the width; a negative width pads
  with spaces on the right, as \<open>fmt\<close> documents for \<open>*\<close>.
\<close>

definition pad_int :: "int \<Rightarrow> int \<Rightarrow> string" where
  "pad_int width val =
     (let s = show_int val; fill = nat \<bar>width\<bar> - length s
      in if width < 0 then s @ replicate fill CHR '' ''
         else if val < 0 then CHR ''-'' # replicate fill CHR ''0'' @ tl s
         else replicate fill CHR ''0'' @ s)"

definition is_digit :: "char \<Rightarrow> bool" where
  "is_digit c \<longleftrightarrow> (let n = (of_char c :: nat) in 48 \<le> n \<and> n \<le> 57)"

fun read_nat :: "nat \<Rightarrow> string \<Rightarrow> nat" where
  "read_nat acc [] = acc"
| "read_nat acc (c # cs) = read_nat (10 * acc + (of_char c - 48)) cs"

lemma read_nat_append: "read_nat acc (xs @ ys) = read_nat (read_nat acc xs) ys"
  by (induction xs arbitrary: acc) auto

lemma of_char_digit [simp]: "d < 10 \<Longrightarrow> (of_char (char_of (48 + d :: nat)) :: nat) = 48 + d"
  by simp

lemma read_show_nat: "read_nat 0 (show_nat n) = n"
proof (induction n rule: show_nat.induct)
  case (1 n)
  then show ?case
    by (subst show_nat.simps) (auto simp: read_nat_append)
qed

lemma show_nat_digits: "\<forall>c \<in> set (show_nat n). is_digit c"
proof (induction n rule: show_nat.induct)
  case (1 n)
  then show ?case by (subst show_nat.simps) (auto simp: is_digit_def Let_def)
qed

lemma show_nat_nonempty [simp]: "show_nat n \<noteq> []"
  by (subst show_nat.simps) simp

lemma show_nat_inj: "show_nat m = show_nat n \<Longrightarrow> m = n"
  by (metis read_show_nat)

lemma read_zeros: "read_nat 0 (replicate k CHR ''0'' @ s) = read_nat 0 s"
  by (induction k) (auto simp: read_nat_append)

lemma pad_int_read:
  assumes "0 \<le> w" "0 \<le> v"
  shows "read_nat 0 (pad_int w v) = nat v"
  using assms by (simp add: pad_int_def show_int_def Let_def read_zeros read_show_nat)

lemma pad_int_inj:
  assumes "0 \<le> w" "0 \<le> u" "0 \<le> v" "pad_int w u = pad_int w v"
  shows "u = v"
  using pad_int_read [OF assms(1,2)] pad_int_read [OF assms(1,3)] assms(4)
  by (metis assms(2,3) int_nat_eq)

lemma pad_int_length:
  assumes "0 \<le> w" "0 \<le> v"
  shows "length (pad_int w v) = max (nat w) (length (show_nat (nat v)))"
  using assms by (simp add: pad_int_def show_int_def Let_def)

lemma pad_int_digits:
  assumes "0 \<le> w" "0 \<le> v" "c \<in> set (pad_int w v)"
  shows "is_digit c"
proof -
  have "is_digit CHR ''0''" by (simp add: is_digit_def)
  then show ?thesis
    using assms show_nat_digits [of "nat v"]
    by (auto simp: pad_int_def show_int_def Let_def)
qed

section \<open>JSON metadata\<close>

datatype json =
    JNull
  | JBool bool
  | JNum f64
  | JStr string
  | JArr "json list"
  | JObj "(string \<times> json) list"

type_synonym meta = "(string \<times> json) list"

abbreviation meta_get :: "meta \<Rightarrow> string \<Rightarrow> json option" where
  "meta_get \<equiv> map_of"

abbreviation meta_set :: "string \<Rightarrow> json \<Rightarrow> meta \<Rightarrow> meta" where
  "meta_set \<equiv> AList.update"

abbreviation meta_del :: "string \<Rightarrow> meta \<Rightarrow> meta" where
  "meta_del \<equiv> AList.delete"

text \<open>Go's comma-ok type assertions; the zero value of the type when the assertion fails.\<close>

definition as_str :: "json option \<Rightarrow> string" where
  "as_str v = (case v of Some (JStr s) \<Rightarrow> s | _ \<Rightarrow> [])"

definition as_bool :: "json option \<Rightarrow> bool" where
  "as_bool v = (case v of Some (JBool b) \<Rightarrow> b | _ \<Rightarrow> False)"

lemma as_str_simps [simp]:
  "as_str None = []" "as_str (Some (JStr s)) = s" "as_str (Some (JBool b)) = []"
  by (simp_all add: as_str_def)

lemma as_bool_simps [simp]:
  "as_bool None = False" "as_bool (Some (JBool b)) = b" "as_bool (Some (JStr s)) = False"
  by (simp_all add: as_bool_def)

lemma meta_get_set [simp, meta_simps]: "meta_get (meta_set k v m) j = (if j = k then Some v else meta_get m j)"
  by (simp add: update_conv)

lemma meta_get_del [simp, meta_simps]: "meta_get (meta_del k m) j = (if j = k then None else meta_get m j)"
  by (simp add: delete_conv)

section \<open>Lists\<close>

fun sum_fl :: "f64 \<Rightarrow> f64 list \<Rightarrow> f64" where
  "sum_fl acc [] = acc"
| "sum_fl acc (x # xs) = sum_fl (fl (acc + x)) xs"

lemma sum_fl_append: "sum_fl acc (xs @ ys) = sum_fl (sum_fl acc xs) ys"
  by (induction xs arbitrary: acc) auto

lemma sum_fl_nonneg: "0 \<le> acc \<Longrightarrow> \<forall>x \<in> set xs. 0 \<le> x \<Longrightarrow> 0 \<le> sum_fl acc xs"
  by (induction xs arbitrary: acc) auto

lemma sum_fl_mono_acc: "a \<le> b \<Longrightarrow> sum_fl a xs \<le> sum_fl b xs"
  by (induction xs arbitrary: a b) (simp_all add: fl_mono)

lemma sum_fl_is_f64: "is_f64 acc \<Longrightarrow> is_f64 (sum_fl acc xs)"
  by (induction xs arbitrary: acc) auto

lemma sum_fl_ge_acc:
  assumes "is_f64 acc" "\<forall>x \<in> set xs. 0 \<le> x"
  shows "acc \<le> sum_fl acc xs"
  using assms
proof (induction xs arbitrary: acc)
  case (Cons x xs)
  have "acc \<le> fl (acc + x)" using Cons.prems by (intro f64_le_fl) auto
  also have "\<dots> \<le> sum_fl (fl (acc + x)) xs" using Cons by simp
  finally show ?case by simp
qed simp

text \<open>Sums of whole amounts that stay within 53 bits are exact.\<close>

lemma sum_fl_int:
  assumes "\<forall>x \<in> set xs. 0 \<le> x" "0 \<le> a" "a + sum_list xs \<le> 2 ^ 53"
  shows "sum_fl (of_int a) (map of_int xs) = of_int (a + sum_list xs)"
  using assms
proof (induction xs arbitrary: a)
  case (Cons x xs)
  have "0 \<le> sum_list xs" using Cons.prems by (intro sum_list_nonneg) auto
  then have "fl (of_int a + of_int x) = of_int (a + x)"
    using fl_of_int [of "a + x"] Cons.prems by simp
  then show ?case using Cons by (simp add: add.assoc flip: of_int_add)
qed simp

end
