(* ===== verification/Outlet_Policy.thy ===== *)
theory Outlet_Policy
  imports Go_Prelude
begin

text \<open>
  Package \<open>internal/modules/outletpolicy\<close>, files \<open>policy.go\<close> and \<open>order_workflow.go\<close>: the
  canonical use case of an outlet, the per-use-case defaults with the outlet's overrides, and the
  workflow an order gets the moment it is placed. Use cases and subtypes stay strings, as in the
  code. The lemmas show the classification total and stable, and the workflow record consistent
  (an order that is not opened at once goes to no board and no queue).
\<close>

section \<open>Use cases\<close>

definition uc_hospitality :: string where "uc_hospitality = ''hospitality''"
definition uc_quick_service :: string where "uc_quick_service = ''quick_service''"
definition uc_services :: string where "uc_services = ''services''"
definition uc_retail :: string where "uc_retail = ''retail''"

lemmas uc_defs = uc_hospitality_def uc_quick_service_def uc_services_def uc_retail_def

definition hospitality_aliases :: "string list" where
  "hospitality_aliases = [''hospitality'', ''hotel'', ''bar'', ''cafe'', ''restaurant'']"

definition quick_aliases :: "string list" where
  "quick_aliases = [''quick_service'', ''quick service'']"

definition normalize_use_case :: "string \<Rightarrow> string" where
  "normalize_use_case use_case =
     (let uc = to_lower (trim_space use_case)
      in if uc = [] then uc_retail
         else if list_ex (contains_str uc) hospitality_aliases then uc_hospitality
         else if list_ex (contains_str uc) quick_aliases then uc_quick_service
         else if contains_str uc ''service'' \<or> contains_str uc ''salon''
               \<or> contains_str uc ''clinic'' \<or> contains_str uc ''spa'' then uc_services
         else uc_retail)"

lemma normalize_use_case_range:
  "normalize_use_case u \<in> {uc_hospitality, uc_quick_service, uc_services, uc_retail}"
  by (simp add: normalize_use_case_def Let_def)

lemma normalize_canonical [simp]:
  "normalize_use_case uc_hospitality = uc_hospitality"
  "normalize_use_case uc_quick_service = uc_quick_service"
  "normalize_use_case uc_services = uc_services"
  "normalize_use_case uc_retail = uc_retail"
  by code_simp+

lemma normalize_idem [simp]: "normalize_use_case (normalize_use_case u) = normalize_use_case u"
  using normalize_use_case_range [of u] by auto

lemma normalize_case_space:
  "normalize_use_case (to_lower u) = normalize_use_case u"
  "normalize_use_case (trim_space u) = normalize_use_case u"
  by (simp_all add: normalize_use_case_def flip: to_lower_trim)

section \<open>Cashier and terminal policies\<close>

definition default_cashier_sales_visibility :: "string \<Rightarrow> string" where
  "default_cashier_sales_visibility u =
     (if normalize_use_case u = uc_hospitality then ''own'' else ''outlet'')"

definition default_auto_logout_after_sale :: "string \<Rightarrow> bool" where
  "default_auto_logout_after_sale u = (normalize_use_case u \<in> {uc_hospitality, uc_quick_service})"

definition default_cashier_terminal_surface :: "string \<Rightarrow> string" where
  "default_cashier_terminal_surface u = ''full_till''"

definition valid_cashier_sales_visibility :: "string \<Rightarrow> bool" where
  "valid_cashier_sales_visibility v \<longleftrightarrow> v = ''own'' \<or> v = ''outlet''"

definition valid_cashier_terminal_surface :: "string \<Rightarrow> bool" where
  "valid_cashier_terminal_surface v \<longleftrightarrow> v = ''full_till'' \<or> v = ''bills_only''"

definition resolve_cashier_sales_visibility :: "string \<Rightarrow> string option \<Rightarrow> string" where
  "resolve_cashier_sales_visibility u override =
     (case override of
        Some ov \<Rightarrow> (let v = to_lower (trim_space ov)
                   in if v = ''own'' \<or> v = ''outlet'' then v else default_cashier_sales_visibility u)
      | None \<Rightarrow> default_cashier_sales_visibility u)"

definition resolve_auto_logout_after_sale :: "string \<Rightarrow> bool option \<Rightarrow> bool" where
  "resolve_auto_logout_after_sale u override =
     (case override of Some b \<Rightarrow> b | None \<Rightarrow> default_auto_logout_after_sale u)"

definition resolve_cashier_terminal_surface :: "string \<Rightarrow> string option \<Rightarrow> string" where
  "resolve_cashier_terminal_surface u override =
     (case override of
        Some ov \<Rightarrow> (let v = to_lower (trim_space ov)
                   in if v = ''full_till'' \<or> v = ''bills_only'' then v
                      else default_cashier_terminal_surface u)
      | None \<Rightarrow> default_cashier_terminal_surface u)"

text \<open>
  The contract of a policy knob: a default that is a valid value, and a resolver that always
  returns a valid value, follows a valid override and otherwise gives the default. Both string
  knobs meet it, so what a client may rely on is proved once.
\<close>

locale policy_knob =
  fixes valid :: "string \<Rightarrow> bool"
    and dflt :: "string \<Rightarrow> string"
    and resolve :: "string \<Rightarrow> string option \<Rightarrow> string"
  assumes dflt_valid: "valid (dflt u)"
    and valid_normal: "valid v \<Longrightarrow> to_lower (trim_space v) = v"
    and resolve_none: "resolve u None = dflt u"
    and resolve_some: "resolve u (Some ov) =
      (if valid (to_lower (trim_space ov)) then to_lower (trim_space ov) else dflt u)"
begin

lemma resolve_valid: "valid (resolve u ov)"
  by (cases ov) (simp_all add: resolve_none resolve_some dflt_valid)

lemma resolve_override: "valid v \<Longrightarrow> resolve u (Some v) = v"
  by (simp add: resolve_some valid_normal)

lemma resolve_stored: "resolve u (Some (resolve u ov)) = resolve u ov"
  by (rule resolve_override) (rule resolve_valid)

end

interpretation vis: policy_knob valid_cashier_sales_visibility default_cashier_sales_visibility
  resolve_cashier_sales_visibility
proof unfold_locales
  fix v
  assume "valid_cashier_sales_visibility v"
  then show "to_lower (trim_space v) = v"
    by (auto simp: valid_cashier_sales_visibility_def str_simps)
qed (auto simp: valid_cashier_sales_visibility_def default_cashier_sales_visibility_def
       resolve_cashier_sales_visibility_def Let_def)

interpretation surf: policy_knob valid_cashier_terminal_surface default_cashier_terminal_surface
  resolve_cashier_terminal_surface
proof unfold_locales
  fix v
  assume "valid_cashier_terminal_surface v"
  then show "to_lower (trim_space v) = v"
    by (auto simp: valid_cashier_terminal_surface_def str_simps)
qed (auto simp: valid_cashier_terminal_surface_def default_cashier_terminal_surface_def
       resolve_cashier_terminal_surface_def Let_def)

section \<open>The workflow of a new order\<close>

record order_workflow =
  open_on_create :: bool
  wf_kitchen :: bool
  wf_production :: bool
  wf_queue :: string

definition no_workflow :: order_workflow where
  "no_workflow = \<lparr>open_on_create = False, wf_kitchen = False, wf_production = False, wf_queue = []\<rparr>"

definition kitchen_use_case :: "string \<Rightarrow> bool" where
  "kitchen_use_case u = (normalize_use_case u \<in> {uc_hospitality, uc_quick_service})"

definition default_order_subtype :: "string \<Rightarrow> string" where
  "default_order_subtype u = (if kitchen_use_case u then ''dine_in'' else ''retail'')"

definition workflow_for :: "string \<Rightarrow> string \<Rightarrow> order_workflow" where
  "workflow_for u subtype =
     (let queue = (if subtype = ''takeaway'' then ''pickup''
                   else if subtype = ''delivery'' then ''delivery'' else [])
      in if subtype = ''service_job''
         then no_workflow\<lparr>open_on_create := True, wf_production := True\<rparr>
         else if kitchen_use_case u then
           (if subtype \<in> {''dine_in'', ''takeaway'', ''delivery'', ''room_service'', ''bar_tab''}
            then no_workflow\<lparr>open_on_create := True, wf_kitchen := True, wf_queue := queue\<rparr>
            else no_workflow)
         else if queue \<noteq> []
         then no_workflow\<lparr>open_on_create := True, wf_queue := queue\<rparr>
         else no_workflow)"

lemma workflow_not_opened: "\<not> open_on_create (workflow_for u s) \<Longrightarrow> workflow_for u s = no_workflow"
  by (auto simp: workflow_for_def no_workflow_def Let_def split: if_splits)

lemma workflow_production: "wf_production (workflow_for u s) \<longleftrightarrow> s = ''service_job''"
  by (auto simp: workflow_for_def no_workflow_def Let_def)

lemma workflow_kitchen:
  "wf_kitchen (workflow_for u s) \<longleftrightarrow>
     kitchen_use_case u \<and> s \<in> {''dine_in'', ''takeaway'', ''delivery'', ''room_service'', ''bar_tab''}"
  by (auto simp: workflow_for_def no_workflow_def Let_def)

lemma workflow_queue:
  "wf_queue (workflow_for u s) =
     (if s = ''takeaway'' then ''pickup'' else if s = ''delivery'' then ''delivery'' else [])"
  by (auto simp: workflow_for_def no_workflow_def Let_def)

text \<open>
  The board and queue of a new order follow its subtype and the outlet's use case alone, and the
  record is consistent: an order that is not opened at once goes nowhere; the kitchen and the
  production board are never both used; and the queue is decided by the subtype at every outlet.
\<close>

theorem workflow_consistent:
  "(open_on_create (workflow_for u s) \<or> workflow_for u s = no_workflow)
   \<and> \<not> (wf_kitchen (workflow_for u s) \<and> wf_production (workflow_for u s))
   \<and> (wf_kitchen (workflow_for u s) \<longleftrightarrow>
        kitchen_use_case u \<and> s \<in> {''dine_in'', ''takeaway'', ''delivery'', ''room_service'', ''bar_tab''})
   \<and> (wf_production (workflow_for u s) \<longleftrightarrow> s = ''service_job'')
   \<and> wf_queue (workflow_for u s) =
       (if s = ''takeaway'' then ''pickup'' else if s = ''delivery'' then ''delivery'' else [])
   \<and> workflow_for (normalize_use_case u) s = workflow_for u s"
proof -
  have "workflow_for (normalize_use_case u) s = workflow_for u s"
    by (simp add: workflow_for_def kitchen_use_case_def)
  then show ?thesis
    using workflow_not_opened workflow_production workflow_kitchen workflow_queue by auto
qed

end
