(* ===== verification/Doc_Sequence.thy ===== *)
theory Doc_Sequence
  imports Go_Prelude
begin

text \<open>
  Package \<open>internal/modules/documents\<close> (\<open>sequence.go\<close>): per-tenant document numbers. A row of the
  table \<open>document_sequences\<close> is a \<open>seq_row\<close>; the table is a list with at most one row per (tenant,
  document type), the unique index of the schema. \<open>generate_number\<close> is the compare-and-set loop
  of \<open>GenerateNumber\<close>: what the database answers and what other sessions commit between its read
  and its write is a list of \<open>attempt\<close>s, one per turn of the loop. The step relation at the end has
  any number of sessions run the same read and compare-and-set interleaved, with configuration
  updates and failures in between; the reachability lemmas show that no counter value is handed out
  twice. The counter is an \<open>int64\<close> in Go and an unbounded \<open>int\<close> here: the two differ only once a row
  has issued \<open>2 ^ 63 - 1\<close>, where Go wraps, and the lemmas are about rows that stay below.
\<close>

section \<open>Rows, formats, defaults\<close>

record seq_row =
  sr_id :: uuid
  sr_tenant :: uuid
  sr_doc_type :: string
  sr_prefix :: string
  sr_separator :: string
  sr_date_format :: string
  sr_padding :: int
  sr_reset_freq :: string
  sr_current_val :: int

type_synonym seq_table = "seq_row list"

text \<open>The calendar date of a \<open>time.Time\<close> in its location, what \<open>Format\<close> prints from.\<close>

record civil_date =
  cd_year :: nat
  cd_month :: nat
  cd_day :: nat

definition format_date :: "string \<Rightarrow> civil_date \<Rightarrow> string" where
  "format_date fmt now =
     (let f = to_upper fmt;
          yyyy = pad_int 4 (int (cd_year now));
          yy = pad_int 2 (int (cd_year now mod 100));
          mm = pad_int 2 (int (cd_month now));
          dd = pad_int 2 (int (cd_day now))
      in if f = ''YYYYMMDD'' then yyyy @ mm @ dd
         else if f = ''YYMMDD'' then yy @ mm @ dd
         else if f = ''MMYY'' then mm @ yy
         else if f = ''YYYY'' then yyyy
         else [])"

definition format_number :: "seq_row \<Rightarrow> int \<Rightarrow> civil_date \<Rightarrow> string" where
  "format_number row val now =
     (let prefix_part = (if sr_prefix row \<noteq> [] then [sr_prefix row] else []);
          d = format_date (sr_date_format row) now;
          date_part = (if d \<noteq> [] then [d] else []);
          sep = (if sr_separator row = [] then ''-'' else sr_separator row)
      in join sep (prefix_part @ date_part @ [pad_int (sr_padding row) val]))"

record seq_config =
  sc_prefix :: string
  sc_separator :: string
  sc_date_format :: string
  sc_padding :: int
  sc_reset_freq :: string

definition numeric_config :: seq_config where
  "numeric_config = \<lparr>sc_prefix = [], sc_separator = ''-'', sc_date_format = [], sc_padding = 6,
     sc_reset_freq = ''never''\<rparr>"

definition seq_defaults :: "string \<Rightarrow> seq_config option" where
  "seq_defaults doc_type =
     (if doc_type \<in> {''order'', ''pos_return'', ''pos_reversal'', ''repair_job'', ''prescription'',
                     ''patient'', ''visit''}
      then Some numeric_config else None)"

section \<open>The table\<close>

definition seq_find :: "seq_table \<Rightarrow> uuid \<Rightarrow> string \<Rightarrow> seq_row option" where
  "seq_find t tenant doc_type = find (\<lambda>r. sr_tenant r = tenant \<and> sr_doc_type r = doc_type) t"

definition seq_table_ok :: "seq_table \<Rightarrow> bool" where
  "seq_table_ok t \<longleftrightarrow> distinct (map sr_id t) \<and> distinct (map (\<lambda>r. (sr_tenant r, sr_doc_type r)) t)"

definition new_row :: "uuid \<Rightarrow> uuid \<Rightarrow> string \<Rightarrow> seq_row" where
  "new_row fresh tenant doc_type =
     (let cfg = (case seq_defaults doc_type of
                   Some c \<Rightarrow> c
                 | None \<Rightarrow> \<lparr>sc_prefix = to_upper doc_type, sc_separator = ''-'',
                            sc_date_format = ''YYMMDD'', sc_padding = 6, sc_reset_freq = ''never''\<rparr>)
      in \<lparr>sr_id = fresh, sr_tenant = tenant, sr_doc_type = doc_type, sr_prefix = sc_prefix cfg,
          sr_separator = sc_separator cfg, sr_date_format = sc_date_format cfg,
          sr_padding = sc_padding cfg, sr_reset_freq = sc_reset_freq cfg, sr_current_val = 0\<rparr>)"

text \<open>
  \<open>getOrCreate\<close>. The database may fail the first query (\<open>Gq_Fail\<close>), the insert (\<open>Gq_NoInsert\<close>:
  some other error), or the insert may lose against a concurrent one (\<open>Gq_Lost r\<close>: the row the
  other session inserted, found by the second query).
\<close>

datatype get_fault = Gq_Ok | Gq_Fail | Gq_NoInsert | Gq_Lost seq_row

definition get_or_create ::
  "get_fault \<Rightarrow> uuid \<Rightarrow> uuid \<Rightarrow> string \<Rightarrow> seq_table \<Rightarrow> seq_table \<times> seq_row option" where
  "get_or_create fault fresh tenant doc_type t =
     (if fault = Gq_Fail then (t, None)
      else case seq_find t tenant doc_type of
        Some row \<Rightarrow> (t, Some row)
      | None \<Rightarrow>
          (case fault of
             Gq_Lost r \<Rightarrow> (let t' = t @ [r] in (t', seq_find t' tenant doc_type))
           | Gq_NoInsert \<Rightarrow> (t, seq_find t tenant doc_type)
           | _ \<Rightarrow> (let row = new_row fresh tenant doc_type in (t @ [row], Some row))))"

text \<open>
  The conditional update \<open>WHERE id = row.ID AND current_val = old SET current_val = old + 1\<close>:
  the table after it and the number of rows it touched.
\<close>

definition cas_matches :: "seq_row \<Rightarrow> seq_row \<Rightarrow> bool" where
  "cas_matches row r \<longleftrightarrow> sr_id r = sr_id row \<and> sr_current_val r = sr_current_val row"

definition seq_cas :: "seq_row \<Rightarrow> seq_table \<Rightarrow> seq_table \<times> nat" where
  "seq_cas row t =
     (map (\<lambda>r. if cas_matches row r then r\<lparr>sr_current_val := sr_current_val row + 1\<rparr> else r) t,
      length (filter (cas_matches row) t))"

section \<open>GenerateNumber\<close>

text \<open>
  One turn of the retry loop: the faults of its read and of its update, the id a new row would get,
  what the other sessions commit in between, and the date at which the number is formatted.
\<close>

record attempt =
  at_read :: get_fault
  at_fresh :: uuid
  at_others :: "seq_table \<Rightarrow> seq_table"
  at_write :: bool
  at_now :: civil_date

datatype seq_error = Seq_NoAttempt | Seq_Read | Seq_Write | Seq_Contention

fun generate_loop ::
  "uuid \<Rightarrow> string \<Rightarrow> nat \<Rightarrow> seq_error \<Rightarrow> attempt list \<Rightarrow> seq_table \<Rightarrow> seq_table \<times> (seq_error + string)" where
  "generate_loop tenant doc_type 0 last_err ats t = (t, Inl last_err)"
| "generate_loop tenant doc_type (Suc n) last_err [] t = (t, Inl last_err)"
| "generate_loop tenant doc_type (Suc n) last_err (a # ats) t =
     (case get_or_create (at_read a) (at_fresh a) tenant doc_type t of
        (t1, None) \<Rightarrow> generate_loop tenant doc_type n Seq_Read ats t1
      | (t1, Some row) \<Rightarrow>
          (let t2 = at_others a t1 in
           if \<not> at_write a then generate_loop tenant doc_type n Seq_Write ats t2
           else case seq_cas row t2 of (t3, affected) \<Rightarrow>
             if affected = 0 then generate_loop tenant doc_type n Seq_Contention ats t3
             else (t3, Inr (format_number row (sr_current_val row + 1) (at_now a)))))"

definition generate_number ::
  "uuid \<Rightarrow> string \<Rightarrow> attempt list \<Rightarrow> seq_table \<Rightarrow> seq_table \<times> (seq_error + string)" where
  "generate_number tenant doc_type ats t = generate_loop tenant doc_type 5 Seq_NoAttempt ats t"

section \<open>Configuration\<close>

record seq_dto =
  dto_row :: seq_row
  dto_next :: string

definition to_seq_dto :: "civil_date \<Rightarrow> seq_row \<Rightarrow> seq_dto" where
  "to_seq_dto now row = \<lparr>dto_row = row, dto_next = format_number row (sr_current_val row + 1) now\<rparr>"

definition preview_next ::
  "get_fault \<Rightarrow> uuid \<Rightarrow> civil_date \<Rightarrow> uuid \<Rightarrow> string \<Rightarrow> seq_table \<Rightarrow> seq_table \<times> (seq_error + string)" where
  "preview_next fault fresh now tenant doc_type t =
     (case get_or_create fault fresh tenant doc_type t of
        (t1, None) \<Rightarrow> (t1, Inl Seq_Read)
      | (t1, Some row) \<Rightarrow> (t1, Inr (format_number row (sr_current_val row + 1) now)))"

definition configured_doc_types :: "string list" where
  "configured_doc_types = [''order'', ''pos_return'', ''pos_reversal'', ''repair_job'',
     ''prescription'', ''patient'', ''visit'']"

fun list_configs ::
  "(get_fault \<times> uuid) list \<Rightarrow> civil_date \<Rightarrow> uuid \<Rightarrow> string list \<Rightarrow> seq_table \<Rightarrow>
     seq_table \<times> (seq_error + seq_dto list)" where
  "list_configs envs now tenant [] t = (t, Inr [])"
| "list_configs [] now tenant (dt # dts) t = (t, Inl Seq_Read)"
| "list_configs ((fault, fresh) # envs) now tenant (dt # dts) t =
     (case get_or_create fault fresh tenant dt t of
        (t1, None) \<Rightarrow> (t1, Inl Seq_Read)
      | (t1, Some row) \<Rightarrow>
          (case list_configs envs now tenant dts t1 of
             (t2, Inl e) \<Rightarrow> (t2, Inl e)
           | (t2, Inr rest) \<Rightarrow> (t2, Inr (to_seq_dto now row # rest))))"

definition apply_config :: "seq_config \<Rightarrow> int \<Rightarrow> seq_row \<Rightarrow> seq_row" where
  "apply_config cfg old_padding r =
     r\<lparr>sr_prefix := trim_space (sc_prefix cfg),
       sr_separator := (if sc_separator cfg = [] then ''-'' else sc_separator cfg),
       sr_date_format := to_upper (trim_space (sc_date_format cfg)),
       sr_padding := (if sc_padding cfg \<le> 0 \<or> sc_padding cfg > 12 then old_padding else sc_padding cfg),
       sr_reset_freq := sc_reset_freq cfg\<rparr>"

definition update_config ::
  "get_fault \<Rightarrow> uuid \<Rightarrow> bool \<Rightarrow> civil_date \<Rightarrow> uuid \<Rightarrow> string \<Rightarrow> seq_config \<Rightarrow> seq_table \<Rightarrow>
     seq_table \<times> (seq_error + seq_dto)" where
  "update_config fault fresh write_ok now tenant doc_type cfg t =
     (case get_or_create fault fresh tenant doc_type t of
        (t1, None) \<Rightarrow> (t1, Inl Seq_Read)
      | (t1, Some row) \<Rightarrow>
          (if \<not> write_ok then (t1, Inl Seq_Write)
           else (map (\<lambda>r. if sr_id r = sr_id row then apply_config cfg (sr_padding row) r else r) t1,
                 Inr (to_seq_dto now (apply_config cfg (sr_padding row) row)))))"


section \<open>Facts about one operation\<close>

lemma seq_find_Some:
  "seq_find t tenant dt = Some r \<Longrightarrow> r \<in> set t \<and> sr_tenant r = tenant \<and> sr_doc_type r = dt"
  by (auto simp: seq_find_def find_Some_iff)

lemma seq_find_None:
  "seq_find t tenant dt = None \<Longrightarrow> (tenant, dt) \<notin> (\<lambda>r. (sr_tenant r, sr_doc_type r)) ` set t"
  by (auto simp: seq_find_def find_None_iff)

lemma new_row_simps [simp]:
  "sr_id (new_row f tenant dt) = f" "sr_tenant (new_row f tenant dt) = tenant"
  "sr_doc_type (new_row f tenant dt) = dt" "sr_current_val (new_row f tenant dt) = 0"
  by (simp_all add: new_row_def Let_def)

lemma get_or_create_ok:
  assumes "seq_table_ok t" "f \<notin> sr_id ` set t" "get_or_create Gq_Ok f tenant dt t = (t', Some row)"
  shows "seq_table_ok t'" "row \<in> set t'"
    "t' = t \<or> t' = t @ [row] \<and> sr_id row = f \<and> sr_current_val row = 0"
proof -
  have "seq_table_ok t' \<and> row \<in> set t' \<and> (t' = t \<or> t' = t @ [row] \<and> sr_id row = f \<and> sr_current_val row = 0)"
  proof (cases "seq_find t tenant dt")
    case None
    then show ?thesis
      using assms seq_find_None [OF None]
      by (auto simp: get_or_create_def seq_table_ok_def Let_def)
  next
    case (Some r)
    then show ?thesis
      using assms seq_find_Some [OF Some] by (simp add: get_or_create_def)
  qed
  then show "seq_table_ok t'" "row \<in> set t'"
    "t' = t \<or> t' = t @ [row] \<and> sr_id row = f \<and> sr_current_val row = 0" by auto
qed

lemma seq_cas_ids: "map sr_id (fst (seq_cas row t)) = map sr_id t"
  by (auto simp: seq_cas_def)

lemma seq_cas_keys:
  "map (\<lambda>r. (sr_tenant r, sr_doc_type r)) (fst (seq_cas row t)) = map (\<lambda>r. (sr_tenant r, sr_doc_type r)) t"
  by (auto simp: seq_cas_def)

lemma seq_cas_ok: "seq_table_ok t \<Longrightarrow> seq_table_ok (fst (seq_cas row t))"
  by (simp add: seq_table_ok_def seq_cas_ids seq_cas_keys)

text \<open>Two numbers printed with one format on one date are equal only for equal counter values.\<close>

lemma join_last_inj: "join sep (ps @ [a]) = join sep (ps @ [b]) \<Longrightarrow> a = b"
  by (induction sep ps rule: join.induct) auto

definition same_format :: "seq_row \<Rightarrow> seq_row \<Rightarrow> bool" where
  "same_format r r' \<longleftrightarrow> sr_prefix r = sr_prefix r' \<and> sr_separator r = sr_separator r'
     \<and> sr_date_format r = sr_date_format r' \<and> sr_padding r = sr_padding r'"

lemma format_number_inj:
  assumes "same_format r r'" "0 \<le> sr_padding r" "0 \<le> u" "0 \<le> v"
    and "format_number r u now = format_number r' v now"
  shows "u = v"
proof -
  have "pad_int (sr_padding r) u = pad_int (sr_padding r) v"
  proof (rule join_last_inj)
    let ?d = "format_date (sr_date_format r) now"
    show "join (if sr_separator r = [] then ''-'' else sr_separator r)
        (((if sr_prefix r \<noteq> [] then [sr_prefix r] else []) @ (if ?d \<noteq> [] then [?d] else []))
          @ [pad_int (sr_padding r) u])
      = join (if sr_separator r = [] then ''-'' else sr_separator r)
        (((if sr_prefix r \<noteq> [] then [sr_prefix r] else []) @ (if ?d \<noteq> [] then [?d] else []))
          @ [pad_int (sr_padding r) v])"
      using assms(1,5) by (simp only: format_number_def same_format_def Let_def append_assoc)
  qed
  then show ?thesis using pad_int_inj assms(2-4) by blast
qed

section \<open>Concurrent sessions\<close>

datatype gen_pc =
    G_Idle
  | G_Start uuid string nat
  | G_Holding uuid string nat seq_row
  | G_Done string
  | G_Failed

record issue =
  is_row :: seq_row
  is_val :: int
  is_date :: civil_date
  is_number :: string

record gen_sys =
  gs_table :: seq_table
  gs_pc :: "nat \<Rightarrow> gen_pc"
  gs_issued :: "issue list"

text \<open>
  A session's read finds or inserts the row in one step (the unique index makes a lost insert the
  same as a later read), its conditional update is one step, and any turn may fail and be retried.
  \<open>gs_issued\<close> records what was handed out, in order.
\<close>

inductive gen_step :: "gen_sys \<Rightarrow> gen_sys \<Rightarrow> bool" where
  request: "gs_pc s i = G_Idle \<Longrightarrow> gen_step s (s\<lparr>gs_pc := (gs_pc s)(i := G_Start tenant dt 5)\<rparr>)"
| read: "gs_pc s i = G_Start tenant dt (Suc n) \<Longrightarrow> f \<notin> sr_id ` set (gs_table s) \<Longrightarrow>
    get_or_create Gq_Ok f tenant dt (gs_table s) = (t', Some row) \<Longrightarrow>
    gen_step s (s\<lparr>gs_table := t', gs_pc := (gs_pc s)(i := G_Holding tenant dt n row)\<rparr>)"
| read_fail: "gs_pc s i = G_Start tenant dt (Suc n) \<Longrightarrow>
    gen_step s (s\<lparr>gs_pc := (gs_pc s)(i := G_Start tenant dt n)\<rparr>)"
| cas_won: "gs_pc s i = G_Holding tenant dt n row \<Longrightarrow>
    seq_cas row (gs_table s) = (t', k) \<Longrightarrow> k \<noteq> 0 \<Longrightarrow>
    num = format_number row (sr_current_val row + 1) now \<Longrightarrow>
    gen_step s (s\<lparr>gs_table := t', gs_pc := (gs_pc s)(i := G_Done num),
      gs_issued := gs_issued s @ [\<lparr>is_row = row, is_val = sr_current_val row + 1, is_date = now,
                                   is_number = num\<rparr>]\<rparr>)"
| cas_lost: "gs_pc s i = G_Holding tenant dt n row \<Longrightarrow>
    seq_cas row (gs_table s) = (t', 0) \<Longrightarrow>
    gen_step s (s\<lparr>gs_table := t', gs_pc := (gs_pc s)(i := G_Start tenant dt n)\<rparr>)"
| write_fail: "gs_pc s i = G_Holding tenant dt n row \<Longrightarrow>
    gen_step s (s\<lparr>gs_pc := (gs_pc s)(i := G_Start tenant dt n)\<rparr>)"
| exhausted: "gs_pc s i = G_Start tenant dt 0 \<Longrightarrow>
    gen_step s (s\<lparr>gs_pc := (gs_pc s)(i := G_Failed)\<rparr>)"
| configure: "f \<notin> sr_id ` set (gs_table s) \<Longrightarrow>
    update_config Gq_Ok f True now tenant dt cfg (gs_table s) = (t', Inr dto) \<Longrightarrow>
    gen_step s (s\<lparr>gs_table := t'\<rparr>)"

inductive gen_reach :: "seq_table \<Rightarrow> gen_sys \<Rightarrow> bool" for t0 where
  gen_init: "gen_reach t0 \<lparr>gs_table = t0, gs_pc = (\<lambda>_. G_Idle), gs_issued = []\<rparr>"
| gen_next: "gen_reach t0 s \<Longrightarrow> gen_step s s' \<Longrightarrow> gen_reach t0 s'"

definition start_val :: "seq_table \<Rightarrow> uuid \<Rightarrow> int" where
  "start_val t0 i = (case find (\<lambda>r. sr_id r = i) t0 of Some r \<Rightarrow> sr_current_val r | None \<Rightarrow> 0)"

definition issued_vals :: "issue list \<Rightarrow> uuid \<Rightarrow> int list" where
  "issued_vals xs i = map is_val (filter (\<lambda>x. sr_id (is_row x) = i) xs)"

definition gen_inv :: "seq_table \<Rightarrow> gen_sys \<Rightarrow> bool" where
  "gen_inv t0 s \<longleftrightarrow>
     seq_table_ok (gs_table s)
     \<and> sr_id ` set t0 \<subseteq> sr_id ` set (gs_table s)
     \<and> (\<forall>r \<in> set (gs_table s).
          start_val t0 (sr_id r) \<le> sr_current_val r
          \<and> issued_vals (gs_issued s) (sr_id r) = [start_val t0 (sr_id r) + 1 .. sr_current_val r])
     \<and> (\<forall>x \<in> set (gs_issued s). sr_id (is_row x) \<in> sr_id ` set (gs_table s)
          \<and> is_val x = sr_current_val (is_row x) + 1
          \<and> is_number x = format_number (is_row x) (is_val x) (is_date x))"

lemma issued_vals_append [simp]:
  "issued_vals (xs @ [x]) i = issued_vals xs i @ (if sr_id (is_row x) = i then [is_val x] else [])"
  by (simp add: issued_vals_def)

lemma issued_vals_none: "(\<forall>x \<in> set xs. sr_id (is_row x) \<noteq> i) \<Longrightarrow> issued_vals xs i = []"
  by (auto simp: issued_vals_def filter_empty_conv)

lemma start_val_fresh: "i \<notin> sr_id ` set t0 \<Longrightarrow> start_val t0 i = 0"
proof -
  assume "i \<notin> sr_id ` set t0"
  then have "find (\<lambda>r. sr_id r = i) t0 = None" by (auto simp: find_None_iff)
  then show ?thesis by (simp add: start_val_def)
qed

lemma gen_inv_get_or_create:
  assumes inv: "gen_inv t0 s" and fresh: "f \<notin> sr_id ` set (gs_table s)"
    and g: "get_or_create Gq_Ok f tenant dt (gs_table s) = (t', Some row)"
  shows "gen_inv t0 (s\<lparr>gs_table := t'\<rparr>)"
proof -
  have ok: "seq_table_ok (gs_table s)" using inv by (simp add: gen_inv_def)
  note gc = get_or_create_ok [OF ok fresh g]
  from gc(3) show ?thesis
  proof
    assume "t' = gs_table s"
    then show ?thesis using inv by simp
  next
    assume new: "t' = gs_table s @ [row] \<and> sr_id row = f \<and> sr_current_val row = 0"
    have "issued_vals (gs_issued s) f = []"
      using inv fresh by (intro issued_vals_none) (auto simp: gen_inv_def)
    moreover have "start_val t0 f = 0"
      using inv fresh by (intro start_val_fresh) (auto simp: gen_inv_def)
    ultimately show ?thesis using inv gc(1) new by (auto simp: gen_inv_def)
  qed
qed

lemma gen_inv_cas:
  assumes inv: "gen_inv t0 s" and c: "seq_cas row (gs_table s) = (t', k)" and k: "k \<noteq> 0"
  shows "gen_inv t0 (s\<lparr>gs_table := t', gs_issued := gs_issued s @ [\<lparr>is_row = row,
      is_val = sr_current_val row + 1, is_date = now,
      is_number = format_number row (sr_current_val row + 1) now\<rparr>]\<rparr>)"
proof -
  have ok: "seq_table_ok (gs_table s)" using inv by (simp add: gen_inv_def)
  have t': "t' = fst (seq_cas row (gs_table s))" using c by simp
  have ids: "sr_id ` set t' = sr_id ` set (gs_table s)"
    unfolding t' by (metis seq_cas_ids list.set_map)
  have "filter (cas_matches row) (gs_table s) \<noteq> []" using c k by (auto simp: seq_cas_def)
  then obtain r0 where r0: "r0 \<in> set (gs_table s)" "cas_matches row r0"
    by (auto simp: filter_empty_conv)
  have inj: "inj_on sr_id (set (gs_table s))"
    using ok by (simp add: seq_table_ok_def distinct_map)
  have same: "r = r0" if "r \<in> set (gs_table s)" "sr_id r = sr_id row" for r
    using that r0 by (intro inj_onD [OF inj]) (simp_all add: cas_matches_def)
  have rows: "\<forall>r \<in> set t'. start_val t0 (sr_id r) \<le> sr_current_val r
      \<and> issued_vals (gs_issued s) (sr_id r) @ (if sr_id row = sr_id r then [sr_current_val row + 1] else [])
        = [start_val t0 (sr_id r) + 1 .. sr_current_val r]"
  proof
    fix r'
    assume "r' \<in> set t'"
    then obtain r where r: "r \<in> set (gs_table s)"
      and r': "r' = (if cas_matches row r then r\<lparr>sr_current_val := sr_current_val row + 1\<rparr> else r)"
      using c by (auto simp: seq_cas_def)
    have old: "start_val t0 (sr_id r) \<le> sr_current_val r"
      "issued_vals (gs_issued s) (sr_id r) = [start_val t0 (sr_id r) + 1 .. sr_current_val r]"
      using inv r by (auto simp: gen_inv_def)
    show "start_val t0 (sr_id r') \<le> sr_current_val r'
      \<and> issued_vals (gs_issued s) (sr_id r') @ (if sr_id row = sr_id r' then [sr_current_val row + 1] else [])
        = [start_val t0 (sr_id r') + 1 .. sr_current_val r']"
    proof (cases "sr_id r = sr_id row")
      case True
      then have "cas_matches row r" using same r r0 by auto
      then show ?thesis
        using old r' by (simp add: cas_matches_def upto_rec2)
    next
      case False
      then have "\<not> cas_matches row r" by (simp add: cas_matches_def)
      then show ?thesis using old r' False by auto
    qed
  qed
  have rid: "sr_id row \<in> sr_id ` set (gs_table s)"
    using r0 by (auto simp: cas_matches_def intro: rev_image_eqI)
  have ok': "seq_table_ok t'" using seq_cas_ok [OF ok, of row] t' by simp
  have sub: "sr_id ` set t0 \<subseteq> sr_id ` set t'" using inv ids by (simp add: gen_inv_def)
  have iss: "\<forall>x \<in> set (gs_issued s). sr_id (is_row x) \<in> sr_id ` set t'
          \<and> is_val x = sr_current_val (is_row x) + 1
          \<and> is_number x = format_number (is_row x) (is_val x) (is_date x)"
    using inv ids by (simp add: gen_inv_def)
  show ?thesis unfolding gen_inv_def using ok' sub rows iss rid ids by (simp split: if_split_asm) blast
qed

lemma gen_inv_cas_lost:
  assumes inv: "gen_inv t0 s" and c: "seq_cas row (gs_table s) = (t', 0)"
  shows "gen_inv t0 (s\<lparr>gs_table := t'\<rparr>)"
proof -
  have "t' = gs_table s"
    using c by (auto simp: seq_cas_def filter_empty_conv map_idI)
  then show ?thesis using inv by simp
qed

lemma gen_inv_pc [simp]: "gen_inv t0 (s\<lparr>gs_pc := p\<rparr>) = gen_inv t0 s"
  by (simp add: gen_inv_def)

lemma apply_config_simps [simp]:
  "sr_id (apply_config cfg p r) = sr_id r" "sr_tenant (apply_config cfg p r) = sr_tenant r"
  "sr_doc_type (apply_config cfg p r) = sr_doc_type r"
  "sr_current_val (apply_config cfg p r) = sr_current_val r"
  by (simp_all add: apply_config_def)

lemma gen_inv_configure:
  assumes inv: "gen_inv t0 s" and fresh: "f \<notin> sr_id ` set (gs_table s)"
    and u: "update_config Gq_Ok f True now tenant dt cfg (gs_table s) = (t', Inr dto)"
  shows "gen_inv t0 (s\<lparr>gs_table := t'\<rparr>)"
proof -
  obtain t1 row where g: "get_or_create Gq_Ok f tenant dt (gs_table s) = (t1, Some row)"
    and t': "t' = map (\<lambda>r. if sr_id r = sr_id row then apply_config cfg (sr_padding row) r else r) t1"
    using u by (auto simp: update_config_def split: prod.splits option.splits)
  let ?g = "\<lambda>r. if sr_id r = sr_id row then apply_config cfg (sr_padding row) r else r"
  have inv1: "gen_inv t0 (s\<lparr>gs_table := t1\<rparr>)" using gen_inv_get_or_create [OF inv fresh g] .
  have ids: "map sr_id t' = map sr_id t1"
    "map (\<lambda>r. (sr_tenant r, sr_doc_type r)) t' = map (\<lambda>r. (sr_tenant r, sr_doc_type r)) t1"
    by (auto simp: t')
  have set_ids: "sr_id ` set t' = sr_id ` set t1" using ids(1) by (metis list.set_map)
  have "\<exists>r1 \<in> set t1. sr_id r = sr_id r1 \<and> sr_current_val r = sr_current_val r1"
    if "r \<in> set t'" for r
  proof -
    have "r \<in> ?g ` set t1" using that by (simp add: t')
    then obtain r1 where "r1 \<in> set t1" "r = ?g r1" by blast
    then show ?thesis by (intro bexI [of _ r1]) simp_all
  qed
  then show ?thesis using inv1 ids set_ids by (fastforce simp: gen_inv_def seq_table_ok_def)
qed

lemma gen_step_inv: "gen_step s s' \<Longrightarrow> gen_inv t0 s \<Longrightarrow> gen_inv t0 s'"
proof (induction rule: gen_step.induct)
  case (read s i tenant dt n f t' row)
  then have "gen_inv t0 (s\<lparr>gs_table := t'\<rparr>)" using gen_inv_get_or_create by blast
  then show ?case by (simp add: gen_inv_def)
next
  case (cas_won s i tenant dt n row t' k num now)
  then show ?case using gen_inv_cas [of t0 s row t' k now] by (simp add: gen_inv_def)
next
  case (cas_lost s i tenant dt n row t')
  then have "gen_inv t0 (s\<lparr>gs_table := t'\<rparr>)" using gen_inv_cas_lost by blast
  then show ?case by (simp add: gen_inv_def)
qed (auto intro: gen_inv_configure)

lemma gen_reach_inv:
  assumes "gen_reach t0 s" "seq_table_ok t0"
  shows "gen_inv t0 s"
  using assms(1)
proof induction
  case gen_init
  have "start_val t0 (sr_id r) = sr_current_val r" if "r \<in> set t0" for r
  proof -
    have "find (\<lambda>r'. sr_id r' = sr_id r) t0 = Some r"
      using assms(2) that unfolding seq_table_ok_def
      by (induction t0) auto
    then show ?thesis by (simp add: start_val_def)
  qed
  then show ?case using assms(2) by (auto simp: gen_inv_def issued_vals_def)
next
  case (gen_next s s')
  then show ?case by (blast intro: gen_step_inv)
qed


lemma gen_rows:
  assumes "gen_reach t0 s" "seq_table_ok t0" "r \<in> set (gs_table s)"
  shows "issued_vals (gs_issued s) (sr_id r) = [start_val t0 (sr_id r) + 1 .. sr_current_val r]"
  using gen_reach_inv [OF assms(1,2)] assms(3) by (simp add: gen_inv_def)

lemma issued_vals_distinct:
  assumes "gen_reach t0 s" "seq_table_ok t0"
  shows "distinct (issued_vals (gs_issued s) i)"
proof (cases "i \<in> sr_id ` set (gs_table s)")
  case True
  then show ?thesis using gen_rows [OF assms] by auto
next
  case False
  then have "issued_vals (gs_issued s) i = []"
    using gen_reach_inv [OF assms] by (intro issued_vals_none) (auto simp: gen_inv_def)
  then show ?thesis by simp
qed

lemma distinct_issues:
  assumes "\<And>i. distinct (issued_vals xs i)" "j < k" "k < length xs"
    and "sr_id (is_row (xs ! j)) = sr_id (is_row (xs ! k))"
  shows "is_val (xs ! j) \<noteq> is_val (xs ! k)"
proof
  assume eq: "is_val (xs ! j) = is_val (xs ! k)"
  let ?i = "sr_id (is_row (xs ! k))"
  obtain us vs where xs: "xs = us @ xs ! k # vs" and us: "us = take k xs"
    using id_take_nth_drop [OF assms(3)] by blast
  have "distinct (issued_vals (us @ xs ! k # vs) ?i)" using assms(1) [of ?i] xs by simp
  then have "is_val (xs ! k) \<notin> set (issued_vals us ?i)" by (auto simp: issued_vals_def)
  moreover have "xs ! j = us ! j" "j < length us" using assms(2,3) by (simp_all add: us)
  then have "xs ! j \<in> set us" by simp
  then have "is_val (xs ! j) \<in> set (issued_vals us ?i)"
    using assms(4) by (simp add: issued_vals_def)
  ultimately show False using eq by simp
qed

lemma seq_cas_current:
  assumes "seq_table_ok t" "r \<in> set t"
  shows "snd (seq_cas r t) = 1"
    "fst (seq_cas r t) = map (\<lambda>q. if sr_id q = sr_id r then q\<lparr>sr_current_val := sr_current_val r + 1\<rparr> else q) t"
proof -
  have inj: "inj_on sr_id (set t)" and d: "distinct t"
    using assms(1) by (auto simp: seq_table_ok_def distinct_map)
  have m: "cas_matches r q \<longleftrightarrow> q = r" if "q \<in> set t" for q
    using that assms(2) inj by (auto simp: cas_matches_def dest: inj_onD)
  have "filter (cas_matches r) t = filter (\<lambda>q. q = r) t" using m by (intro filter_cong) auto
  moreover have "length (filter (\<lambda>q. q = r) t) = 1"
    using d assms(2) by (induction t) (auto simp: filter_empty_conv)
  ultimately show "snd (seq_cas r t) = 1" by (simp add: seq_cas_def)
  show "fst (seq_cas r t) = map (\<lambda>q. if sr_id q = sr_id r then q\<lparr>sr_current_val := sr_current_val r + 1\<rparr> else q) t"
    using inj assms(2) by (auto simp: seq_cas_def cas_matches_def dest: inj_onD)
qed

text \<open>An idle session can always get a number from an existing row.\<close>

lemma gen_can_issue:
  assumes reach: "gen_reach t0 s" and ok: "seq_table_ok t0" and pc: "gs_pc s i = G_Idle"
    and row: "seq_find (gs_table s) tenant dt = Some r"
  shows "gen_reach t0 (s\<lparr>gs_table := map (\<lambda>q. if sr_id q = sr_id r
            then q\<lparr>sr_current_val := sr_current_val r + 1\<rparr> else q) (gs_table s),
          gs_pc := (gs_pc s)(i := G_Done (format_number r (sr_current_val r + 1) now)),
          gs_issued := gs_issued s @ [\<lparr>is_row = r, is_val = sr_current_val r + 1, is_date = now,
            is_number = format_number r (sr_current_val r + 1) now\<rparr>]\<rparr>)"
proof -
  have r: "r \<in> set (gs_table s)" using seq_find_Some [OF row] by simp
  have tok: "seq_table_ok (gs_table s)" using gen_reach_inv [OF reach ok] by (simp add: gen_inv_def)
  obtain f where f: "f \<notin> sr_id ` set (gs_table s)"
    using ex_new_if_finite [of "sr_id ` set (gs_table s)"] by auto
  let ?s1 = "s\<lparr>gs_pc := (gs_pc s)(i := G_Start tenant dt 5)\<rparr>"
  let ?s2 = "?s1\<lparr>gs_table := gs_table s, gs_pc := (gs_pc ?s1)(i := G_Holding tenant dt 4 r)\<rparr>"
  have "gen_reach t0 ?s1" using reach gen_step.request [OF pc] by (rule gen_next)
  moreover have "gen_step ?s1 ?s2"
    using f by (intro gen_step.read [where n = 4]) (auto simp: get_or_create_def row)
  ultimately have "gen_reach t0 ?s2" by (rule gen_next)
  moreover have "gen_step ?s2 (?s2\<lparr>gs_table := map (\<lambda>q. if sr_id q = sr_id r
            then q\<lparr>sr_current_val := sr_current_val r + 1\<rparr> else q) (gs_table s),
          gs_pc := (gs_pc ?s2)(i := G_Done (format_number r (sr_current_val r + 1) now)),
          gs_issued := gs_issued ?s2 @ [\<lparr>is_row = r, is_val = sr_current_val r + 1, is_date = now,
            is_number = format_number r (sr_current_val r + 1) now\<rparr>]\<rparr>)"
    by (rule gen_step.cas_won [of ?s2 i tenant dt 4 r _ 1])
      (simp_all add: prod_eq_iff seq_cas_current [OF tok r])
  ultimately show ?thesis using gen_next by fastforce
qed

lemma gen_can_issue_first:
  fixes r now
  defines "r1 \<equiv> r\<lparr>sr_current_val := sr_current_val r + 1\<rparr>"
  shows "\<exists>s. gen_reach [r] s \<and> gs_table s = [r\<lparr>sr_current_val := sr_current_val r + 2\<rparr>]
    \<and> gs_issued s =
       [\<lparr>is_row = r, is_val = sr_current_val r + 1, is_date = now,
         is_number = format_number r (sr_current_val r + 1) now\<rparr>,
        \<lparr>is_row = r1, is_val = sr_current_val r + 2, is_date = now,
         is_number = format_number r1 (sr_current_val r + 2) now\<rparr>]"
proof -
  have ok: "seq_table_ok [r]" by (simp add: seq_table_ok_def)
  have f: "seq_find [r] (sr_tenant r) (sr_doc_type r) = Some r" by (simp add: seq_find_def)
  have f1: "seq_find [r1] (sr_tenant r) (sr_doc_type r) = Some r1" by (simp add: seq_find_def r1_def)
  note s1 = gen_can_issue [OF gen_init ok, of 0 "sr_tenant r" "sr_doc_type r" r now, simplified, OF f]
  note s2 = gen_can_issue [OF s1 ok, of 1 "sr_tenant r" "sr_doc_type r" r1 now, simplified, folded r1_def, OF f1]
  show ?thesis
    by (rule exI, rule conjI, rule s2) (simp add: r1_def add.commute)
qed

section \<open>Properties\<close>

text \<open>
  C21. Document numbers under concurrency. Whatever the interleaving of sessions, retries, failures
  and configuration changes, the counter values handed out from a row are, in the order of the
  compare-and-set updates, exactly the values after the starting one up to the row's current value:
  no value is issued twice and none is skipped.
\<close>

theorem sequence_gap_free:
  assumes "gen_reach t0 s" "seq_table_ok t0" "r \<in> set (gs_table s)"
  shows "issued_vals (gs_issued s) (sr_id r) = [start_val t0 (sr_id r) + 1 .. sr_current_val r]"
  using assms by (rule gen_rows)

theorem sequence_gap_free_witness:
  "\<exists>s. gen_reach [new_row 7 1 ''order''] s \<and> issued_vals (gs_issued s) 7 = [1 .. 2]
       \<and> [1 .. 2] = [1 :: int, 2]"
proof -
  let ?r = "new_row 7 1 ''order''"
  obtain s where s: "gen_reach [?r] s" "gs_table s = [?r\<lparr>sr_current_val := sr_current_val ?r + 2\<rparr>]"
    using gen_can_issue_first [of ?r "\<lparr>cd_year = 2026, cd_month = 7, cd_day = 7\<rparr>"] by blast
  have "issued_vals (gs_issued s) 7 = [1 .. 2]"
    using sequence_gap_free [OF s(1), of "?r\<lparr>sr_current_val := 2\<rparr>"] s(2)
    by (simp add: seq_table_ok_def start_val_def)
  then show ?thesis using s(1) by (auto simp: upto_rec1)
qed

text \<open>
  C22. Two numbers issued from the same row at different moments, printed with the same format on the
  same date, are different strings.
\<close>

theorem sequence_numbers_distinct:
  assumes "gen_reach t0 s" "seq_table_ok t0" "\<forall>r \<in> set t0. 0 \<le> sr_current_val r"
    and "j < k" "k < length (gs_issued s)"
    and "sr_id (is_row (gs_issued s ! j)) = sr_id (is_row (gs_issued s ! k))"
    and "same_format (is_row (gs_issued s ! j)) (is_row (gs_issued s ! k))"
    and "0 \<le> sr_padding (is_row (gs_issued s ! j))"
    and "is_date (gs_issued s ! j) = is_date (gs_issued s ! k)"
  shows "is_number (gs_issued s ! j) \<noteq> is_number (gs_issued s ! k)"
proof -
  let ?x = "gs_issued s ! j" and ?y = "gs_issued s ! k"
  have inv: "gen_inv t0 s" using assms(1,2) by (rule gen_reach_inv)
  have mem: "?x \<in> set (gs_issued s)" "?y \<in> set (gs_issued s)" using assms(4,5) by auto
  have start: "0 \<le> start_val t0 i" for i
    using assms(3) by (auto simp: start_val_def find_Some_iff split: option.split)
  have pos: "0 \<le> is_val z" if "z \<in> set (gs_issued s)" for z
  proof -
    obtain r where r: "r \<in> set (gs_table s)" "sr_id (is_row z) = sr_id r"
      using inv \<open>z \<in> set (gs_issued s)\<close> by (auto simp: gen_inv_def)
    have "is_val z \<in> set (issued_vals (gs_issued s) (sr_id r))"
      using that r(2) by (auto simp: issued_vals_def)
    then show ?thesis using gen_rows [OF assms(1,2) r(1)] start [of "sr_id r"] by simp
  qed
  have "is_val ?x \<noteq> is_val ?y"
    using distinct_issues [OF issued_vals_distinct [OF assms(1,2)] assms(4,5,6)] .
  then show ?thesis
    using inv mem pos assms(7-9) format_number_inj [of "is_row ?x" "is_row ?y" "is_val ?x" "is_val ?y"]
    by (auto simp: gen_inv_def)
qed

theorem sequence_numbers_distinct_witness:
  "\<exists>s. gen_reach [new_row 7 1 ''order''] s \<and> length (gs_issued s) = 2
       \<and> is_number (gs_issued s ! 0) \<noteq> is_number (gs_issued s ! 1)"
proof -
  let ?r = "new_row 7 1 ''order''"
  obtain s where s: "gen_reach [?r] s" "length (gs_issued s) = 2"
    "is_row (gs_issued s ! 0) = ?r" "is_row (gs_issued s ! 1) = ?r\<lparr>sr_current_val := 1\<rparr>"
    "is_date (gs_issued s ! 0) = is_date (gs_issued s ! 1)"
    using gen_can_issue_first [of ?r "\<lparr>cd_year = 2026, cd_month = 7, cd_day = 7\<rparr>"] by force
  have "0 \<le> sr_padding ?r" by (simp add: new_row_def seq_defaults_def numeric_config_def)
  then have "is_number (gs_issued s ! 0) \<noteq> is_number (gs_issued s ! 1)"
    using sequence_numbers_distinct [OF s(1), of 0 1] s(2-5)
    by (simp add: seq_table_ok_def same_format_def)
  then show ?thesis using s(1,2) by blast
qed

text \<open>
  Preview and issue agree. The number \<open>PreviewNext\<close> shows is the one the next undisturbed
  \<open>GenerateNumber\<close> of that document type hands out on that date; the counter of that row then
  stands one higher and every other row is as it was. The row's reset frequency plays no part.
\<close>

theorem preview_is_next:
  assumes ok: "seq_table_ok t" and row: "seq_find t tenant dt = Some r"
    and a: "at_read a = Gq_Ok" "at_write a" "at_others a t = t"
  shows "snd (preview_next Gq_Ok f (at_now a) tenant dt t)
           = snd (generate_number tenant dt (a # ats) t)
    \<and> snd (generate_number tenant dt (a # ats) t) = Inr (format_number r (sr_current_val r + 1) (at_now a))
    \<and> fst (generate_number tenant dt (a # ats) t)
        = map (\<lambda>q. if sr_id q = sr_id r then q\<lparr>sr_current_val := sr_current_val r + 1\<rparr> else q) t"
proof -
  have r: "r \<in> set t" using seq_find_Some [OF row] by simp
  have c: "seq_cas r t = (map (\<lambda>q. if sr_id q = sr_id r then q\<lparr>sr_current_val := sr_current_val r + 1\<rparr> else q) t, 1)"
    using seq_cas_current [OF ok r] by (metis prod.collapse)
  show ?thesis
    using a by (simp add: preview_next_def generate_number_def get_or_create_def row c
      eval_nat_numeral)
qed

theorem preview_is_next_witness:
  "snd (generate_number 1 ''order''
     [\<lparr>at_read = Gq_Ok, at_fresh = 8, at_others = (\<lambda>t. t), at_write = True,
       at_now = \<lparr>cd_year = 2026, cd_month = 7, cd_day = 7\<rparr>\<rparr>]
     [(new_row 7 1 ''order'')\<lparr>sr_current_val := 41\<rparr>]) = Inr ''000042''"
proof -
  let ?r = "(new_row 7 1 ''order'')\<lparr>sr_current_val := 41\<rparr>"
  let ?now = "\<lparr>cd_year = 2026, cd_month = 7, cd_day = 7\<rparr>"
  let ?a = "\<lparr>at_read = Gq_Ok, at_fresh = 8, at_others = (\<lambda>t. t), at_write = True, at_now = ?now\<rparr>"
  have "seq_table_ok [?r]" "seq_find [?r] 1 ''order'' = Some ?r"
    by (simp_all add: seq_table_ok_def seq_find_def)
  then have "snd (generate_number 1 ''order'' [?a] [?r]) = Inr (format_number ?r 42 ?now)"
    using preview_is_next [of "[?r]" 1 "''order''" ?r ?a 8 "[]"] by simp
  moreover have "format_number ?r 42 ?now = ''000042''" by code_simp
  ultimately show ?thesis by simp
qed

end
