(* ===== verification/Order_Channel.thy ===== *)
theory Order_Channel
  imports Go_Prelude
begin

text \<open>
  Package \<open>internal/modules/orderchannel\<close>: how an order reaches the customer, from its subtype and
  its metadata alone, with the labels the kitchen board shows (\<open>ticketLabel\<close> of
  \<open>internal/http/handlers/kds_online.go\<close>).
\<close>

datatype channel =
    Dine_In | Takeaway | Delivery | Room_Service | Bar_Tab | Retail | Service_Job
  | Online_Pickup | Online_Delivery

definition is_online :: "meta \<Rightarrow> bool" where
  "is_online m \<longleftrightarrow> trim_space (as_str (meta_get m ''online_order_id'')) \<noteq> []"

definition order_source :: "meta \<Rightarrow> string" where
  "order_source m = (if is_online m then ''online'' else ''pos'')"

definition is_delivery :: "string \<Rightarrow> meta \<Rightarrow> bool" where
  "is_delivery subtype m =
     (let ft = as_str (meta_get m ''fulfillment_type'')
      in if ft \<noteq> [] then ft = ''delivery'' else subtype = ''delivery'')"

definition channel_of :: "string \<Rightarrow> meta \<Rightarrow> channel" where
  "channel_of subtype m =
     (if is_online m then (if is_delivery subtype m then Online_Delivery else Online_Pickup)
      else if subtype = ''takeaway'' then Takeaway
      else if subtype = ''delivery'' then Delivery
      else if subtype = ''room_service'' then Room_Service
      else if subtype = ''bar_tab'' then Bar_Tab
      else if subtype = ''retail'' then Retail
      else if subtype = ''service_job'' then Service_Job
      else Dine_In)"

fun channel_name :: "channel \<Rightarrow> string" where
  "channel_name Dine_In = ''dine_in''"
| "channel_name Takeaway = ''takeaway''"
| "channel_name Delivery = ''delivery''"
| "channel_name Room_Service = ''room_service''"
| "channel_name Bar_Tab = ''bar_tab''"
| "channel_name Retail = ''retail''"
| "channel_name Service_Job = ''service_job''"
| "channel_name Online_Pickup = ''online_pickup''"
| "channel_name Online_Delivery = ''online_delivery''"

fun is_counter_handover :: "channel \<Rightarrow> bool" where
  "is_counter_handover Takeaway = True"
| "is_counter_handover Delivery = True"
| "is_counter_handover Online_Pickup = True"
| "is_counter_handover Online_Delivery = True"
| "is_counter_handover _ = False"

fun channel_label :: "channel \<Rightarrow> string" where
  "channel_label Dine_In = ''Dine-in''"
| "channel_label Takeaway = ''Takeaway''"
| "channel_label Delivery = ''Delivery''"
| "channel_label Room_Service = ''Room service''"
| "channel_label Bar_Tab = ''Bar tab''"
| "channel_label Retail = ''Retail''"
| "channel_label Service_Job = ''Job''"
| "channel_label Online_Pickup = ''Online pickup''"
| "channel_label Online_Delivery = ''Online delivery''"

definition online_label :: "string \<Rightarrow> meta \<Rightarrow> string" where
  "online_label subtype m =
     (if \<not> is_online m then []
      else (let label = (if is_delivery subtype m then ''Online delivery'' else ''Online pickup'');
                sched = trim_space (as_str (meta_get m ''scheduled_for_label''))
            in if sched \<noteq> [] then label @ '' for '' @ sched else label))"

definition ticket_label :: "channel \<Rightarrow> string \<Rightarrow> string \<Rightarrow> meta \<Rightarrow> string" where
  "ticket_label ch table_ref subtype m =
     (if online_label subtype m \<noteq> [] then online_label subtype m
      else (let ref = trim_space table_ref
            in if ref = [] then []
               else if ch = Dine_In \<or> ch = Bar_Tab
                 then (if prefix ''table'' (to_lower ref) then ref else ''Table '' @ ref)
               else if ch = Room_Service
                 then (if prefix ''room'' (to_lower ref) then ref else ''Room '' @ ref)
               else ref))"

definition parse_table_ref :: "meta \<Rightarrow> string" where
  "parse_table_ref m =
     (if as_str (meta_get m ''table_number'') \<noteq> [] then as_str (meta_get m ''table_number'')
      else as_str (meta_get m ''table_name''))"

lemma channel_online: "is_online m \<longleftrightarrow> channel_of subtype m \<in> {Online_Pickup, Online_Delivery}"
  by (simp add: channel_of_def)

text \<open>
  Source, channel and label agree on every order: the source is ``online'' exactly when the
  channel is one of the two online channels, exactly when the kitchen gets an online label; and
  such an order always leaves through the counter.
\<close>

theorem channel_consistent:
  "(order_source m = ''online'') = (channel_of subtype m \<in> {Online_Pickup, Online_Delivery}) \<and>
   (order_source m = ''online'') = (online_label subtype m \<noteq> []) \<and>
   (order_source m \<noteq> ''online'' \<or> is_counter_handover (channel_of subtype m)) \<and>
   (is_counter_handover (channel_of subtype m) =
      (order_source m = ''online'' \<or> subtype = ''takeaway'' \<or> subtype = ''delivery''))"
  by (auto simp: order_source_def channel_of_def online_label_def Let_def)

end
