(* ===== verification/Decimal_Api.thy ===== *)
theory Decimal_Api
  imports Go_Prelude
begin

text \<open>
  The interface of \<open>github.com/shopspring/decimal\<close>, which the money code imports. A
  \<open>decimal.Decimal\<close> is the rational number it denotes; \<open>Add\<close>, \<open>Sub\<close>, \<open>Mul\<close>, \<open>Neg\<close> and the
  comparisons are exact there. What the package decides itself (reading a float, the nearest float,
  division, rounding, ceiling) is the record \<open>dec_lib\<close>, an argument of every definition that uses
  it, and the locale \<open>decimal_lib\<close> states what the package documents of it. \<open>shop_decimal\<close> is a
  concrete library that meets the contract.
\<close>

record dec_lib =
  of_float :: "f64 \<Rightarrow> rat"
  to_float :: "rat \<Rightarrow> f64"
  dec_div :: "rat \<Rightarrow> rat \<Rightarrow> rat"
  dec_round :: "nat \<Rightarrow> rat \<Rightarrow> rat"
  dec_ceil :: "rat \<Rightarrow> rat"

locale decimal_lib =
  fixes L :: dec_lib
  assumes of_float_mono: "x \<le> y \<Longrightarrow> of_float L x \<le> of_float L y"
    and of_float_int: "\<bar>n\<bar> \<le> 2 ^ 53 \<Longrightarrow> of_float L (of_int n) = of_int n"
    and of_float_pos: "0 < x \<Longrightarrow> 0 < of_float L x"
    and of_to_float: "is_f64 x \<Longrightarrow> to_float L (of_float L x) = x"
    and to_float_nearest: "to_float L d = fl d"
    and round_grid: "\<exists>n. dec_round L k d = of_int n / 10 ^ k"
    and round_near: "\<bar>dec_round L k d - d\<bar> \<le> 1 / (2 * 10 ^ k)"
    and round_mono: "d \<le> e \<Longrightarrow> dec_round L k d \<le> dec_round L k e"
    and ceil_def: "dec_ceil L d = of_int \<lceil>d\<rceil>"
    and div_round: "e \<noteq> 0 \<Longrightarrow> dec_div L d e = dec_round L 16 (d / e)"
begin

lemma of_float_0 [simp]: "of_float L 0 = 0"
  using of_float_int [of 0] by simp

lemma of_float_nonneg [simp]: "0 \<le> x \<Longrightarrow> 0 \<le> of_float L x"
  using of_float_mono [of 0 x] by simp

lemma round_fix: "dec_round L k (of_int n / 10 ^ k) = of_int n / 10 ^ k"
proof -
  obtain m where m: "dec_round L k (of_int n / 10 ^ k) = of_int m / 10 ^ k" using round_grid by blast
  have "\<bar>of_int m / 10 ^ k - of_int n / 10 ^ k\<bar> \<le> 1 / (2 * 10 ^ k :: rat)"
    using round_near [of k "of_int n / 10 ^ k"] m by simp
  then have "\<bar>of_int m - of_int n\<bar> / 10 ^ k \<le> (1 / 2) / (10 ^ k :: rat)"
    by (simp add: diff_divide_distrib [symmetric])
  then have "\<bar>of_int m - of_int n\<bar> \<le> (1 / 2 :: rat)"
    by (simp only: divide_le_cancel zero_less_power zero_less_numeral)
  then have "of_int \<bar>m - n\<bar> < (1 :: rat)" by simp
  then have "\<bar>m - n\<bar> < 1" by (simp only: of_int_less_1_iff)
  then show ?thesis using m by simp
qed

lemma round_idem [simp]: "dec_round L k (dec_round L k d) = dec_round L k d"
  using round_grid [of k d] round_fix by metis

lemma round_0 [simp]: "dec_round L k 0 = 0"
  using round_fix [of k 0] by simp

lemma round_int [simp]: "dec_round L k (of_int n) = of_int n"
  using round_fix [of k "n * 10 ^ k"] by simp

lemma round_nonneg [simp]: "0 \<le> d \<Longrightarrow> 0 \<le> dec_round L k d"
  using round_mono [of 0 d k] by simp

text \<open>Values on the grid of hundredths: closed under the exact operations, fixed by rounding.\<close>

definition cents :: "rat \<Rightarrow> bool" where
  "cents d \<longleftrightarrow> dec_round L 2 d = d"

lemma cents_iff: "cents d \<longleftrightarrow> (\<exists>n. d = of_int n / 100)"
  using round_fix [of 2] round_grid [of 2 d] by (fastforce simp: cents_def)

lemma cents_round [simp]: "cents (dec_round L 2 d)"
  by (simp add: cents_def)

lemma cents_int [simp]: "cents (of_int n)"
  by (simp add: cents_def)

lemma cents_0 [simp]: "cents 0"
  by (simp add: cents_def)

lemma cents_add: "cents a \<Longrightarrow> cents b \<Longrightarrow> cents (a + b)"
  by (metis cents_iff add_divide_distrib of_int_add)

lemma cents_diff: "cents a \<Longrightarrow> cents b \<Longrightarrow> cents (a - b)"
  by (metis cents_iff diff_divide_distrib of_int_diff)

end

section \<open>A library that meets the contract\<close>

definition round_away :: "rat \<Rightarrow> int" where
  "round_away x = (if x < 0 then - \<lfloor>- x + 1 / 2\<rfloor> else \<lfloor>x + 1 / 2\<rfloor>)"

definition shop_decimal :: dec_lib where
  "shop_decimal = \<lparr>of_float = (\<lambda>x. x), to_float = fl,
     dec_div = (\<lambda>d e. of_int (round_away (d / e * 10 ^ 16)) / 10 ^ 16),
     dec_round = (\<lambda>k d. of_int (round_away (d * 10 ^ k)) / 10 ^ k),
     dec_ceil = (\<lambda>d. of_int \<lceil>d\<rceil>)\<rparr>"

lemma round_away_near: "\<bar>of_int (round_away x) - x\<bar> \<le> 1 / 2"
proof -
  have near: "\<bar>of_int \<lfloor>y + 1 / 2\<rfloor> - y\<bar> \<le> 1 / 2" for y :: rat
  proof -
    have "of_int \<lfloor>y + 1 / 2\<rfloor> \<le> y + 1 / 2" "y + 1 / 2 < of_int \<lfloor>y + 1 / 2\<rfloor> + 1" by linarith+
    then show ?thesis by (intro abs_leI) linarith+
  qed
  show ?thesis
  proof (cases "x < 0")
    case True
    have "\<bar>of_int (round_away x) - x\<bar> = \<bar>of_int \<lfloor>- x + 1 / 2\<rfloor> - (- x)\<bar>"
      using True by (simp add: round_away_def abs_minus_commute)
    then show ?thesis using near [of "- x"] by simp
  qed (use near [of x] in \<open>simp add: round_away_def\<close>)
qed

lemma round_away_mono:
  assumes "x \<le> y"
  shows "round_away x \<le> round_away y"
proof -
  have "0 \<le> \<lfloor>z + 1 / 2\<rfloor>" if "0 \<le> z" for z :: rat using that by simp
  moreover have "\<lfloor>x + 1 / 2\<rfloor> \<le> \<lfloor>y + 1 / 2\<rfloor>" "\<lfloor>- y + 1 / 2\<rfloor> \<le> \<lfloor>- x + 1 / 2\<rfloor>"
    using assms by (auto intro: floor_mono)
  moreover have "0 \<le> \<lfloor>- x + 1 / 2\<rfloor>" if "x < 0" using that by simp
  ultimately show ?thesis using assms by (auto simp: round_away_def intro: order_trans [of _ 0])
qed

interpretation shop: decimal_lib shop_decimal
proof
  fix k d e
  show "\<exists>n. dec_round shop_decimal k d = of_int n / 10 ^ k" by (auto simp: shop_decimal_def)
  have "of_int (round_away (d * 10 ^ k)) / 10 ^ k - d = (of_int (round_away (d * 10 ^ k)) - d * 10 ^ k) / 10 ^ k"
    by (simp add: diff_divide_distrib)
  then have "\<bar>of_int (round_away (d * 10 ^ k)) / 10 ^ k - d\<bar> = \<bar>of_int (round_away (d * 10 ^ k)) - d * 10 ^ k\<bar> / 10 ^ k"
    by simp
  also have "\<dots> \<le> (1 / 2) / 10 ^ k" by (intro divide_right_mono round_away_near) simp
  finally show "\<bar>dec_round shop_decimal k d - d\<bar> \<le> 1 / (2 * 10 ^ k)" by (simp add: shop_decimal_def)
  show "dec_round shop_decimal k d \<le> dec_round shop_decimal k e" if "d \<le> e"
    using that by (simp add: shop_decimal_def divide_right_mono round_away_mono)
qed (simp_all add: shop_decimal_def is_f64_def)

end
