(* ===== verification/Order_Model.thy ===== *)
theory Order_Model
  imports Decimal_Api
begin

text \<open>
  The rows the order and payment code works on: \<open>pos_orders\<close> with its \<open>pos_order_lines\<close>
  (\<open>internal/ent/schema/posorder.go\<close>, \<open>posorderline.go\<close>), the order statuses, and the readers of
  the order's metadata that several components share. A nillable column is an option; an optional
  string column that was never set is the empty string, as Ent returns it.
\<close>

section \<open>Statuses\<close>

definition st_draft :: string where "st_draft = ''draft''"
definition st_open :: string where "st_open = ''open''"
definition st_pending_payment :: string where "st_pending_payment = ''pending_payment''"
definition st_completed :: string where "st_completed = ''completed''"
definition st_cancelled :: string where "st_cancelled = ''cancelled''"
definition st_refunded :: string where "st_refunded = ''refunded''"
definition st_voided :: string where "st_voided = ''voided''"
definition st_awaiting_acceptance :: string where "st_awaiting_acceptance = ''awaiting_acceptance''"

lemmas st_defs = st_draft_def st_open_def st_pending_payment_def st_completed_def st_cancelled_def
  st_refunded_def st_voided_def st_awaiting_acceptance_def

lemma st_neq [simp]:
  "st_draft \<noteq> st_open" "st_draft \<noteq> st_pending_payment" "st_draft \<noteq> st_completed"
  "st_draft \<noteq> st_cancelled" "st_draft \<noteq> st_refunded" "st_draft \<noteq> st_voided"
  "st_draft \<noteq> st_awaiting_acceptance" "st_open \<noteq> st_draft" "st_open \<noteq> st_pending_payment"
  "st_open \<noteq> st_completed" "st_open \<noteq> st_cancelled" "st_open \<noteq> st_refunded"
  "st_open \<noteq> st_voided" "st_open \<noteq> st_awaiting_acceptance" "st_pending_payment \<noteq> st_draft"
  "st_pending_payment \<noteq> st_open" "st_pending_payment \<noteq> st_completed" "st_pending_payment \<noteq> st_cancelled"
  "st_pending_payment \<noteq> st_refunded" "st_pending_payment \<noteq> st_voided" "st_pending_payment \<noteq> st_awaiting_acceptance"
  "st_completed \<noteq> st_draft" "st_completed \<noteq> st_open" "st_completed \<noteq> st_pending_payment"
  "st_completed \<noteq> st_cancelled" "st_completed \<noteq> st_refunded" "st_completed \<noteq> st_voided"
  "st_completed \<noteq> st_awaiting_acceptance" "st_cancelled \<noteq> st_draft" "st_cancelled \<noteq> st_open"
  "st_cancelled \<noteq> st_pending_payment" "st_cancelled \<noteq> st_completed" "st_cancelled \<noteq> st_refunded"
  "st_cancelled \<noteq> st_voided" "st_cancelled \<noteq> st_awaiting_acceptance" "st_refunded \<noteq> st_draft"
  "st_refunded \<noteq> st_open" "st_refunded \<noteq> st_pending_payment" "st_refunded \<noteq> st_completed"
  "st_refunded \<noteq> st_cancelled" "st_refunded \<noteq> st_voided" "st_refunded \<noteq> st_awaiting_acceptance"
  "st_voided \<noteq> st_draft" "st_voided \<noteq> st_open" "st_voided \<noteq> st_pending_payment"
  "st_voided \<noteq> st_completed" "st_voided \<noteq> st_cancelled" "st_voided \<noteq> st_refunded"
  "st_voided \<noteq> st_awaiting_acceptance" "st_awaiting_acceptance \<noteq> st_draft" "st_awaiting_acceptance \<noteq> st_open"
  "st_awaiting_acceptance \<noteq> st_pending_payment" "st_awaiting_acceptance \<noteq> st_completed" "st_awaiting_acceptance \<noteq> st_cancelled"
  "st_awaiting_acceptance \<noteq> st_refunded" "st_awaiting_acceptance \<noteq> st_voided"
  by (simp_all add: st_defs)

section \<open>Rows\<close>

record order_line =
  ol_id :: uuid
  ol_created_at :: "time option"
  ol_catalog_item :: uuid
  ol_sku :: string
  ol_name :: string
  ol_category :: string
  ol_quantity :: f64
  ol_unit_price :: f64
  ol_total_price :: f64
  ol_tax_code :: string
  ol_kra_code :: string
  ol_tax_rate :: "f64 option"
  ol_tax_amount :: "f64 option"
  ol_inclusive :: bool
  ol_course :: int
  ol_station :: "uuid option"
  ol_metadata :: meta
  ol_voided_qty :: "f64 option"

record pos_order =
  po_id :: uuid
  po_tenant :: uuid
  po_outlet :: uuid
  po_device :: uuid
  po_user :: uuid
  po_served_by :: "uuid option"
  po_number :: string
  po_client_ref :: "string option"
  po_offline_created_at :: "time option"
  po_status :: string
  po_source :: string
  po_subtotal :: f64
  po_tax_total :: f64
  po_discount_total :: f64
  po_total_amount :: f64
  po_charges_total :: f64
  po_round_off :: f64
  po_paid_total :: f64
  po_currency :: string
  po_subtype :: string
  po_metadata :: meta
  po_customer_phone :: "string option"
  po_customer_name :: "string option"
  po_business_date :: "time option"
  po_created_at :: time
  po_lines :: "order_line list"

section \<open>Readers of the metadata\<close>

text \<open>\<open>metadata["order_tax"]["amount"]\<close>, when it is a positive number.\<close>

definition order_tax_of_meta :: "dec_lib \<Rightarrow> meta \<Rightarrow> rat" where
  "order_tax_of_meta L m =
     (case meta_get m ''order_tax'' of
        Some (JObj ot) \<Rightarrow>
          (case meta_get ot ''amount'' of
             Some (JNum amt) \<Rightarrow> if amt > 0 then of_float L amt else 0
           | _ \<Rightarrow> 0)
      | _ \<Rightarrow> 0)"

definition hh_amount_from_meta :: "dec_lib \<Rightarrow> meta \<Rightarrow> rat" where
  "hh_amount_from_meta L m =
     (case meta_get m ''happy_hour_discount'' of
        Some (JNum v) \<Rightarrow> if v > 0 then of_float L v else 0
      | _ \<Rightarrow> 0)"

definition meta_flag :: "meta \<Rightarrow> string \<Rightarrow> bool" where
  "meta_flag m key =
     (case meta_get m key of
        Some (JBool v) \<Rightarrow> v
      | Some (JStr s) \<Rightarrow> equal_fold s ''true''
      | _ \<Rightarrow> False)"

definition line_is_non_billable :: "meta \<Rightarrow> bool" where
  "line_is_non_billable m \<longleftrightarrow> list_ex (meta_flag m) [''non_billable'', ''complimentary'', ''is_complimentary'']"

context decimal_lib begin

lemma order_tax_nonneg [simp]: "0 \<le> order_tax_of_meta L m"
  by (auto simp: order_tax_of_meta_def split: option.split json.split)

lemma hh_amount_nonneg [simp]: "0 \<le> hh_amount_from_meta L m"
  by (auto simp: hh_amount_from_meta_def split: option.split json.split)

end

end
