(* ===== verification/Order_Totals.thy ===== *)
theory Order_Totals
  imports Order_Model
begin

text \<open>
  The order arithmetic of \<open>internal/modules/orders/service.go\<close>: \<open>finalizeTotals\<close>, the charges and
  line sums that feed it, and the operations that rebuild an order's headline totals from its lines
  (\<open>RecomputeTotals\<close>, \<open>EditOrderLine\<close>, \<open>SetOrderDiscount\<close>), with the line void of
  \<open>internal/http/handlers/orders_line_void.go\<close>. Decimals are rationals over a library \<open>L\<close>
  (\<open>Decimal_Api\<close>), float64 products go through \<open>fl\<close>. The lemmas show the totals identity and its
  bounds, that recomputation is stable, and what each operation keeps.
\<close>

section \<open>finalizeTotals\<close>

record order_totals =
  ot_subtotal :: rat
  ot_tax_total :: rat
  ot_discount_total :: rat
  ot_charges_total :: rat
  ot_round_off :: rat
  ot_total_amount :: rat

definition raw_total :: "rat \<Rightarrow> rat \<Rightarrow> rat \<Rightarrow> rat \<Rightarrow> rat" where
  "raw_total subtotal tax_total discount charges = subtotal + tax_total - discount + charges"

definition finalize_totals :: "dec_lib \<Rightarrow> rat \<Rightarrow> rat \<Rightarrow> rat \<Rightarrow> rat \<Rightarrow> rat \<Rightarrow> order_totals" where
  "finalize_totals L subtotal tax_total discount charges_total order_tax =
     (let discount = (if discount < 0 then 0 else discount);
          charges_total = (if charges_total < 0 then 0 else charges_total);
          tax_total = (if order_tax > 0 then tax_total + order_tax else tax_total);
          subtotal = dec_round L 2 subtotal;
          tax_total = dec_round L 2 tax_total;
          discount = dec_round L 2 discount;
          charges_total = dec_round L 2 charges_total;
          raw = raw_total subtotal tax_total discount charges_total;
          raw = (if raw < 0 then 0 else raw);
          total = dec_ceil L raw
      in \<lparr>ot_subtotal = subtotal, ot_tax_total = tax_total, ot_discount_total = discount,
          ot_charges_total = charges_total, ot_round_off = dec_round L 2 (total - raw),
          ot_total_amount = total\<rparr>)"

definition raw_of :: "order_totals \<Rightarrow> rat" where
  "raw_of t = raw_total (ot_subtotal t) (ot_tax_total t) (ot_discount_total t) (ot_charges_total t)"

section \<open>Line sums\<close>

text \<open>A Go map is an association list with distinct keys; its iteration order is not fixed.\<close>

definition sum_charges :: "dec_lib \<Rightarrow> (string \<times> f64) list \<Rightarrow> rat" where
  "sum_charges L charges = fold (\<lambda>(k, v) sum. if v > 0 then sum + of_float L v else sum) charges 0"

definition line_total :: "dec_lib \<Rightarrow> f64 \<Rightarrow> f64 \<Rightarrow> f64 \<Rightarrow> rat" where
  "line_total L total_price unit_price quantity =
     (let t = of_float L total_price
      in if t = 0 then of_float L unit_price * of_float L quantity else t)"

definition active_fraction :: "order_line \<Rightarrow> f64" where
  "active_fraction ol =
     (case ol_voided_qty ol of
        Some v \<Rightarrow>
          if ol_quantity ol > 0
          then (let f = fl (fl (ol_quantity ol - v) / ol_quantity ol) in if f < 0 then 0 else f)
          else 1
      | None \<Rightarrow> 1)"

definition active_sums :: "dec_lib \<Rightarrow> order_line list \<Rightarrow> rat \<times> rat" where
  "active_sums L lines =
     fold (\<lambda>ol (subtotal, tax_total).
        (subtotal + of_float L (fl (ol_total_price ol * active_fraction ol)),
         (case ol_tax_amount ol of
            Some ta \<Rightarrow> if \<not> ol_inclusive ol then tax_total + of_float L (fl (ta * active_fraction ol))
                      else tax_total
          | None \<Rightarrow> tax_total))) lines (0, 0)"

text \<open>The sums of \<open>EditOrderLine\<close> and \<open>SetOrderDiscount\<close>: a line with a voided quantity is skipped.\<close>

definition unvoided_sums :: "dec_lib \<Rightarrow> order_line list \<Rightarrow> rat \<times> rat" where
  "unvoided_sums L lines =
     fold (\<lambda>ol (subtotal, tax_total).
        if ol_voided_qty ol \<noteq> None then (subtotal, tax_total)
        else (subtotal + of_float L (ol_total_price ol),
              (case ol_tax_amount ol of
                 Some ta \<Rightarrow> if \<not> ol_inclusive ol then tax_total + of_float L ta else tax_total
               | None \<Rightarrow> tax_total))) lines (0, 0)"

section \<open>Operations\<close>

datatype order_error =
    Order_Not_Found
  | Order_Status string
  | Line_Not_Found
  | Line_Voided
  | Negative_Price
  | Bad_Quantity
  | Negative_Discount
  | Discount_Exceeds
  | Db_Error

definition store_totals :: "dec_lib \<Rightarrow> order_totals \<Rightarrow> pos_order \<Rightarrow> pos_order" where
  "store_totals L t po =
     po\<lparr>po_subtotal := to_float L (ot_subtotal t), po_tax_total := to_float L (ot_tax_total t),
       po_round_off := to_float L (ot_round_off t), po_total_amount := to_float L (ot_total_amount t)\<rparr>"

definition recompute_totals :: "dec_lib \<Rightarrow> pos_order \<Rightarrow> pos_order" where
  "recompute_totals L po =
     (let agg = active_sums L (po_lines po);
          totals = finalize_totals L (fst agg) (snd agg) (of_float L (po_discount_total po))
            (of_float L (po_charges_total po)) (order_tax_of_meta L (po_metadata po))
      in store_totals L totals po)"

definition closed_statuses :: "string list" where
  "closed_statuses = [st_completed, st_cancelled, st_voided, st_refunded]"

record edit_input =
  ei_unit_price :: "f64 option"
  ei_quantity :: "f64 option"

definition edited_line :: "dec_lib \<Rightarrow> order_line \<Rightarrow> f64 \<Rightarrow> f64 \<Rightarrow> order_line" where
  "edited_line L target new_price new_qty =
     (let new_total = of_float L new_price * of_float L new_qty;
          new_tax = (case ol_tax_rate target of
              Some r \<Rightarrow>
                if r > 0 then
                  (let rate = dec_div L (of_float L r) 100;
                       amt = (if ol_inclusive target then new_total - dec_div L new_total (1 + rate)
                              else new_total * rate)
                   in Some (to_float L amt))
                else ol_tax_amount target
            | None \<Rightarrow> ol_tax_amount target)
      in target\<lparr>ol_unit_price := new_price, ol_quantity := new_qty,
                ol_total_price := to_float L new_total, ol_tax_amount := new_tax\<rparr>)"

text \<open>
  \<open>EditOrderLine\<close> runs in one transaction: a failed statement rolls it back, so an error leaves the
  order as it was. \<open>ok\<close> says whether every statement of the transaction succeeds.
\<close>

definition edit_order_line ::
  "dec_lib \<Rightarrow> bool \<Rightarrow> uuid \<Rightarrow> edit_input \<Rightarrow> pos_order \<Rightarrow> order_error + pos_order" where
  "edit_order_line L ok line_id inp po =
     (if po_status po \<in> set closed_statuses then Inl (Order_Status (po_status po))
      else case find (\<lambda>l. ol_id l = line_id) (po_lines po) of
        None \<Rightarrow> Inl Line_Not_Found
      | Some target \<Rightarrow>
          if ol_voided_qty target \<noteq> None then Inl Line_Voided
          else if (case ei_unit_price inp of Some p \<Rightarrow> p < 0 | None \<Rightarrow> False) then Inl Negative_Price
          else if (case ei_quantity inp of Some q \<Rightarrow> q \<le> 0 | None \<Rightarrow> False) then Inl Bad_Quantity
          else if \<not> ok then Inl Db_Error
          else
            (let new_price = (case ei_unit_price inp of Some p \<Rightarrow> p | None \<Rightarrow> ol_unit_price target);
                 new_qty = (case ei_quantity inp of Some q \<Rightarrow> q | None \<Rightarrow> ol_quantity target);
                 lines = map (\<lambda>l. if ol_id l = line_id then edited_line L target new_price new_qty else l)
                           (po_lines po);
                 agg = unvoided_sums L lines;
                 totals = finalize_totals L (fst agg) (snd agg) (of_float L (po_discount_total po))
                   (of_float L (po_charges_total po)) (order_tax_of_meta L (po_metadata po))
             in Inr (store_totals L totals (po\<lparr>po_lines := lines\<rparr>))))"

definition set_order_discount ::
  "dec_lib \<Rightarrow> bool \<Rightarrow> f64 \<Rightarrow> pos_order \<Rightarrow> order_error + pos_order" where
  "set_order_discount L ok discount po =
     (if po_status po \<in> set closed_statuses then Inl (Order_Status (po_status po))
      else if discount < 0 then Inl Negative_Discount
      else
        (let agg = unvoided_sums L (po_lines po);
             order_tax = order_tax_of_meta L (po_metadata po)
         in if of_float L discount > fst agg + snd agg + order_tax + of_float L (po_charges_total po)
            then Inl Discount_Exceeds
            else if \<not> ok then Inl Db_Error
            else (let totals = finalize_totals L (fst agg) (snd agg) (of_float L discount)
                        (of_float L (po_charges_total po)) order_tax
                  in Inr (store_totals L totals (po\<lparr>po_discount_total := discount\<rparr>)))))"

text \<open>
  \<open>VoidOrderLine\<close>: the approval chain (an approval token, else a void code, else an approval
  code; the verifiers are arguments), the status gates, the requested quantity (a whole line by
  default), the mark on the line and then, in a statement of its own, the recomputation. The two
  writes are not one transaction: when the second fails the line stays marked. This is the handler on
  the order's row; the lookup of the order before it and the recheck of the completion after it need
  the payments and are \<open>void_line_request\<close> in \<open>Line_Changes\<close>.
\<close>

datatype void_error =
    Reason_Required
  | Invalid_Approval
  | Approval_Required
  | Order_Already string
  | Order_Finalized
  | Void_Line_Not_Found
  | Already_Voided
  | Internal_Error

datatype void_fault = No_Fault | Line_Write_Fails | Recompute_Fails

record void_request =
  vr_reason :: string
  vr_qty :: f64
  vr_token :: string
  vr_void_code :: string
  vr_approval_code :: string

record approvers =
  ap_secret_set :: bool
  ap_token :: "string \<Rightarrow> uuid option"
  ap_void_code :: "string \<Rightarrow> uuid option"
  ap_action_code :: "string \<Rightarrow> uuid option"

definition void_needs_approval :: "bool \<Rightarrow> uuid option \<Rightarrow> bool" where
  "void_needs_approval caller_is_manager approver \<longleftrightarrow> \<not> caller_is_manager \<and> approver = None"

definition void_approver :: "approvers \<Rightarrow> void_request \<Rightarrow> void_error + uuid option" where
  "void_approver A r =
     (let tried = (\<lambda>v. case v of Some a \<Rightarrow> Inr (Some a) | None \<Rightarrow> Inl Invalid_Approval)
      in if vr_token r \<noteq> [] \<and> ap_secret_set A then tried (ap_token A (vr_token r))
         else if vr_void_code r \<noteq> [] then tried (ap_void_code A (vr_void_code r))
         else if vr_approval_code r \<noteq> [] then tried (ap_action_code A (vr_approval_code r))
         else Inr None)"

definition void_quantity :: "f64 \<Rightarrow> order_line \<Rightarrow> f64" where
  "void_quantity qty l = (if qty \<le> 0 \<or> qty > ol_quantity l then ol_quantity l else qty)"

definition voided_value :: "f64 \<Rightarrow> order_line \<Rightarrow> f64" where
  "voided_value void_qty l =
     fl ((if ol_quantity l > 0 then fl (ol_total_price l / ol_quantity l) else 0) * void_qty)"

definition mark_voided :: "uuid \<Rightarrow> f64 \<Rightarrow> order_line list \<Rightarrow> order_line list" where
  "mark_voided line_id q = map (\<lambda>l. if ol_id l = line_id then l\<lparr>ol_voided_qty := Some q\<rparr> else l)"

definition void_order_line ::
  "dec_lib \<Rightarrow> approvers \<Rightarrow> bool \<Rightarrow> void_fault \<Rightarrow> uuid \<Rightarrow> void_request \<Rightarrow> pos_order
     \<Rightarrow> (void_error + f64) \<times> pos_order" where
  "void_order_line L A caller_is_manager fault line_id r po =
     (if vr_reason r = [] then (Inl Reason_Required, po)
      else case void_approver A r of
        Inl e \<Rightarrow> (Inl e, po)
      | Inr approver \<Rightarrow>
          if void_needs_approval caller_is_manager approver then (Inl Approval_Required, po)
          else if po_status po \<in> {''voided'', ''cancelled'', ''refunded''}
            then (Inl (Order_Already (po_status po)), po)
          else if po_status po \<in> {''completed'', ''paid'', ''closed''} then (Inl Order_Finalized, po)
          else case find (\<lambda>l. ol_id l = line_id) (po_lines po) of
            None \<Rightarrow> (Inl Void_Line_Not_Found, po)
          | Some line \<Rightarrow>
              if ol_voided_qty line \<noteq> None then (Inl Already_Voided, po)
              else if fault = Line_Write_Fails then (Inl Internal_Error, po)
              else (let q = void_quantity (vr_qty r) line;
                        po = po\<lparr>po_lines := mark_voided line_id q (po_lines po)\<rparr>
                    in if fault = Recompute_Fails then (Inl Internal_Error, po)
                       else (Inr (voided_value q line), recompute_totals L po)))"

section \<open>finalizeTotals keeps the totals identity\<close>

context decimal_lib begin

lemma cents_finalize:
  "cents (ot_subtotal (finalize_totals L s x d c ot))" "cents (ot_tax_total (finalize_totals L s x d c ot))"
  "cents (ot_discount_total (finalize_totals L s x d c ot))" "cents (ot_charges_total (finalize_totals L s x d c ot))"
  by (simp_all add: finalize_totals_def Let_def)

lemma cents_raw: "cents (raw_of (finalize_totals L s x d c ot))"
  unfolding raw_of_def raw_total_def
  by (intro cents_add cents_diff cents_finalize)

lemma finalize_total:
  "ot_total_amount (finalize_totals L s x d c ot) =
     of_int \<lceil>max 0 (raw_of (finalize_totals L s x d c ot))\<rceil>"
  by (simp add: finalize_totals_def Let_def raw_of_def ceil_def)

lemma finalize_round_off:
  "ot_round_off (finalize_totals L s x d c ot) =
     ot_total_amount (finalize_totals L s x d c ot) - max 0 (raw_of (finalize_totals L s x d c ot))"
proof -
  let ?t = "finalize_totals L s x d c ot"
  have "cents (max 0 (raw_of ?t))" using cents_raw [of s x d c ot] by (simp add: max_def)
  then have "cents (ot_total_amount ?t - max 0 (raw_of ?t))"
    unfolding finalize_total by (intro cents_diff) auto
  moreover have "ot_round_off ?t = dec_round L 2 (ot_total_amount ?t - max 0 (raw_of ?t))"
    by (simp add: finalize_totals_def Let_def raw_of_def)
  ultimately show ?thesis by (simp add: cents_def)
qed

lemma finalize_identity:
  assumes "t = finalize_totals L s x d c ot"
  shows "ot_total_amount t = max 0 (raw_of t) + ot_round_off t"
    and "0 \<le> ot_round_off t" and "ot_round_off t < 1"
    and "0 \<le> ot_total_amount t"
  unfolding assms finalize_round_off finalize_total by (auto simp: ceiling_correct) linarith+

lemma raw_of_finalize:
  "raw_of (finalize_totals L s x d c ot) =
     dec_round L 2 s + dec_round L 2 (x + max 0 ot) - dec_round L 2 (max 0 d) + dec_round L 2 (max 0 c)"
  by (simp add: finalize_totals_def Let_def raw_of_def raw_total_def max_def)

lemma finalize_mono:
  assumes "s \<le> s'" "x \<le> x'" "d' \<le> d" "c \<le> c'" "ot \<le> ot'"
  shows "ot_total_amount (finalize_totals L s x d c ot) \<le> ot_total_amount (finalize_totals L s' x' d' c' ot')"
proof -
  have "dec_round L 2 s \<le> dec_round L 2 s'" "dec_round L 2 (max 0 d') \<le> dec_round L 2 (max 0 d)"
    "dec_round L 2 (x + max 0 ot) \<le> dec_round L 2 (x' + max 0 ot')"
    "dec_round L 2 (max 0 c) \<le> dec_round L 2 (max 0 c')"
    using assms by (auto intro!: round_mono add_mono max.mono)
  then have "raw_of (finalize_totals L s x d c ot) \<le> raw_of (finalize_totals L s' x' d' c' ot')"
    unfolding raw_of_finalize by linarith
  then show ?thesis unfolding finalize_total
    by (intro of_int_le_iff [THEN iffD2] ceiling_mono max.mono) auto
qed

end



text \<open>
  More of anything that is charged, or less discount, never lowers the payable.
\<close>

theorem finalize_totals_monotone:
  assumes "decimal_lib L" "s \<le> s'" "x \<le> x'" "d' \<le> d" "c \<le> c'" "ot \<le> ot'"
  shows "ot_total_amount (finalize_totals L s x d c ot) \<le> ot_total_amount (finalize_totals L s' x' d' c' ot')"
  using decimal_lib.finalize_mono [OF assms] .

theorem finalize_totals_monotone_witness:
  "ot_total_amount (finalize_totals shop_decimal 10 1 3 0 0) \<le> ot_total_amount (finalize_totals shop_decimal 11 1 2 0 0)"
  by (rule finalize_totals_monotone [OF shop.decimal_lib_axioms]) simp_all

section \<open>Charges\<close>

lemma sum_charges_eq:
  "sum_charges L charges = sum_list (map (\<lambda>(k, v). if v > 0 then of_float L v else 0) charges)"
proof -
  have "fold (\<lambda>(k, v) sum. if v > 0 then sum + of_float L v else sum) charges a =
      a + sum_list (map (\<lambda>(k, v). if v > 0 then of_float L v else 0) charges)" for a
    by (induction charges arbitrary: a) auto
  then show ?thesis by (simp add: sum_charges_def)
qed

text \<open>
  \<open>sumCharges\<close> ranges over a Go map, whose order is not fixed: every order of the entries gives
  the same sum, and leaving out the entries that are not positive does not change it.
\<close>

theorem sum_charges_order:
  assumes "mset charges = mset charges'"
  shows "sum_charges L charges = sum_charges L (List.filter (\<lambda>(k, v). v > 0) charges')"
proof -
  have "sum_charges L charges = sum_charges L charges'"
    unfolding sum_charges_eq by (simp add: assms flip: sum_mset_sum_list)
  also have "\<dots> = sum_charges L (List.filter (\<lambda>(k, v). v > 0) charges')"
    unfolding sum_charges_eq by (induction charges') auto
  finally show ?thesis .
qed

theorem sum_charges_order_witness:
  "sum_charges shop_decimal [(''packaging'', 50), (''promo'', - 5), (''shipping'', 200)] =
     sum_charges shop_decimal [(''shipping'', 200), (''packaging'', 50)]"
  using sum_charges_order [of "[(''packaging'', 50), (''promo'', - 5), (''shipping'', 200)]"
    "[(''shipping'', 200), (''packaging'', 50), (''promo'', - 5)]" shop_decimal] by simp

lemma sum_charges_nonneg: "decimal_lib L \<Longrightarrow> 0 \<le> sum_charges L charges"
  unfolding sum_charges_eq
  by (intro sum_list_nonneg) (auto simp: decimal_lib.of_float_nonneg)

section \<open>Recomputing, editing and discounting agree\<close>

text \<open>
  \<open>settled_line\<close>: the stored amounts are float64 values, and a void, if there is one, took the whole line.
\<close>

definition settled_line :: "order_line \<Rightarrow> bool" where
  "settled_line l \<longleftrightarrow> is_f64 (ol_total_price l) \<and> (case ol_tax_amount l of Some ta \<Rightarrow> is_f64 ta | None \<Rightarrow> True) \<and>
     (case ol_voided_qty l of Some v \<Rightarrow> 0 < ol_quantity l \<and> ol_quantity l \<le> v | None \<Rightarrow> True)"

lemma active_fraction_None [simp]: "ol_voided_qty l = None \<Longrightarrow> active_fraction l = 1"
  by (simp add: active_fraction_def)

lemma active_fraction_full:
  assumes "ol_voided_qty l = Some v" "0 < ol_quantity l" "ol_quantity l \<le> v"
  shows "active_fraction l = 0"
proof -
  have "fl (ol_quantity l - v) \<le> 0" using assms fl_mono [of "ol_quantity l - v" 0] by simp
  then have "fl (ol_quantity l - v) / ol_quantity l \<le> 0" using assms by (simp add: divide_nonpos_pos)
  then have "fl (fl (ol_quantity l - v) / ol_quantity l) \<le> 0"
    using fl_mono [of "fl (ol_quantity l - v) / ol_quantity l" 0] by simp
  then show ?thesis using assms by (auto simp: active_fraction_def Let_def)
qed

lemma active_fraction_range: "0 \<le> active_fraction l"
  by (simp add: active_fraction_def Let_def split: option.split)

lemma active_fraction_le_1:
  assumes "case ol_voided_qty l of Some v \<Rightarrow> 0 \<le> v | None \<Rightarrow> True" "is_f64 (ol_quantity l)"
  shows "active_fraction l \<le> 1"
proof (cases "ol_voided_qty l")
  case (Some v)
  then have "0 \<le> v" using assms by simp
  then have "fl (ol_quantity l - v) \<le> ol_quantity l" using assms by (intro fl_le_f64) auto
  then have "fl (fl (ol_quantity l - v) / ol_quantity l) \<le> 1" if "0 < ol_quantity l"
    using fl_mono [of "fl (ol_quantity l - v) / ol_quantity l" 1] that by simp
  then show ?thesis using Some by (simp add: active_fraction_def Let_def)
qed simp

context decimal_lib begin

lemma active_eq_unvoided:
  assumes "\<forall>l \<in> set lines. settled_line l"
  shows "active_sums L lines = unvoided_sums L lines"
  unfolding active_sums_def unvoided_sums_def
proof (intro fold_cong refl ext, clarify)
  fix l a b assume "l \<in> set lines"
  then have l: "settled_line l" using assms by blast
  show "(a + of_float L (fl (ol_total_price l * active_fraction l)),
        case ol_tax_amount l of None \<Rightarrow> b
        | Some ta \<Rightarrow> if \<not> ol_inclusive l then b + of_float L (fl (ta * active_fraction l)) else b) =
      (if ol_voided_qty l \<noteq> None then (a, b)
       else (a + of_float L (ol_total_price l),
             case ol_tax_amount l of None \<Rightarrow> b
             | Some ta \<Rightarrow> if \<not> ol_inclusive l then b + of_float L ta else b))"
  proof (cases "ol_voided_qty l")
    case None
    then show ?thesis using l by (auto simp: settled_line_def is_f64_def split: option.split)
  next
    case (Some v)
    then have "active_fraction l = 0" using l by (intro active_fraction_full) (auto simp: settled_line_def)
    then show ?thesis using Some by (auto split: option.split)
  qed
qed

lemma edited_line_settled:
  assumes "settled_line l" "ol_voided_qty l = None"
  shows "settled_line (edited_line L l p q)"
  using assms
  by (auto simp: settled_line_def edited_line_def Let_def to_float_nearest split: option.splits)

lemma store_store: "store_totals L t (store_totals L t' po) = store_totals L t po"
  by (simp add: store_totals_def)

lemma store_keeps [simp]:
  "po_lines (store_totals L t po) = po_lines po" "po_discount_total (store_totals L t po) = po_discount_total po"
  "po_charges_total (store_totals L t po) = po_charges_total po" "po_metadata (store_totals L t po) = po_metadata po"
  "po_status (store_totals L t po) = po_status po" "po_paid_total (store_totals L t po) = po_paid_total po"
  "po_number (store_totals L t po) = po_number po" "po_id (store_totals L t po) = po_id po"
  by (simp_all add: store_totals_def)

lemma recompute_of_store: "recompute_totals L (store_totals L t po) = recompute_totals L po"
  by (simp add: recompute_totals_def store_store Let_def)

lemma recompute_idem: "recompute_totals L (recompute_totals L po) = recompute_totals L po"
proof -
  have "\<exists>t. recompute_totals L po = store_totals L t po"
    by (auto simp: recompute_totals_def Let_def)
  then show ?thesis by (metis recompute_of_store)
qed

lemma edit_result:
  assumes "edit_order_line L ok line_id inp po = Inr po'"
  obtains target p q lines where
    "find (\<lambda>l. ol_id l = line_id) (po_lines po) = Some target" "ol_voided_qty target = None"
    "lines = map (\<lambda>l. if ol_id l = line_id then edited_line L target p q else l) (po_lines po)"
    "p = (case ei_unit_price inp of Some p \<Rightarrow> p | None \<Rightarrow> ol_unit_price target)"
    "q = (case ei_quantity inp of Some q \<Rightarrow> q | None \<Rightarrow> ol_quantity target)"
    "po' = store_totals L (finalize_totals L (fst (unvoided_sums L lines)) (snd (unvoided_sums L lines))
       (of_float L (po_discount_total po)) (of_float L (po_charges_total po))
       (order_tax_of_meta L (po_metadata po))) (po\<lparr>po_lines := lines\<rparr>)"
proof -
  have "po_status po \<notin> set closed_statuses" using assms by (auto simp: edit_order_line_def)
  then obtain target where t: "find (\<lambda>l. ol_id l = line_id) (po_lines po) = Some target"
    "ol_voided_qty target = None"
    using assms by (auto simp: edit_order_line_def split: option.splits if_splits)
  show thesis
  proof (rule that [OF t refl refl refl])
  qed (use assms t in \<open>simp add: edit_order_line_def Let_def split: if_splits prod.splits\<close>)
qed

lemma edit_recompute:
  assumes "\<forall>l \<in> set (po_lines po). settled_line l" "edit_order_line L ok line_id inp po = Inr po'"
  shows "recompute_totals L po' = po'"
proof -
  obtain target p q lines where t: "find (\<lambda>l. ol_id l = line_id) (po_lines po) = Some target"
    "ol_voided_qty target = None"
    "lines = map (\<lambda>l. if ol_id l = line_id then edited_line L target p q else l) (po_lines po)"
    "p = (case ei_unit_price inp of Some p \<Rightarrow> p | None \<Rightarrow> ol_unit_price target)"
    "q = (case ei_quantity inp of Some q \<Rightarrow> q | None \<Rightarrow> ol_quantity target)"
    and po': "po' = store_totals L (finalize_totals L (fst (unvoided_sums L lines)) (snd (unvoided_sums L lines))
       (of_float L (po_discount_total po)) (of_float L (po_charges_total po))
       (order_tax_of_meta L (po_metadata po))) (po\<lparr>po_lines := lines\<rparr>)"
    by (rule edit_result [OF assms(2)])
  have "target \<in> set (po_lines po)" using t(1) by (auto simp: find_Some_iff)
  then have "\<forall>l \<in> set lines. settled_line l"
    using t assms(1) by (auto intro: edited_line_settled)
  from active_eq_unvoided [OF this] show ?thesis
    unfolding po' by (simp add: recompute_of_store recompute_totals_def store_store Let_def)
qed

lemma discount_recompute:
  assumes "\<forall>l \<in> set (po_lines po). settled_line l" "set_order_discount L ok d po = Inr po'"
  shows "recompute_totals L po' = po'"
  using assms active_eq_unvoided [OF assms(1)]
  by (auto simp: set_order_discount_def Let_def recompute_totals_def store_store
    split: if_splits prod.splits)

end

section \<open>Examples and agreement theorems\<close>

definition sample_line :: order_line where
  "sample_line = \<lparr>ol_id = 7, ol_created_at = None, ol_catalog_item = 3, ol_sku = ''SKU'', ol_name = ''Soda'',
     ol_category = [], ol_quantity = 2, ol_unit_price = 100, ol_total_price = 200, ol_tax_code = [],
     ol_kra_code = [], ol_tax_rate = Some 16, ol_tax_amount = Some 32, ol_inclusive = False, ol_course = 1,
     ol_station = None, ol_metadata = [], ol_voided_qty = None\<rparr>"

definition sample_order :: pos_order where
  "sample_order = \<lparr>po_id = 1, po_tenant = 2, po_outlet = 3, po_device = 4, po_user = 5, po_served_by = None,
     po_number = ''ORD-000001'', po_client_ref = None, po_offline_created_at = None, po_status = ''open'',
     po_source = [], po_subtotal = 200, po_tax_total = 32, po_discount_total = 0, po_total_amount = 232,
     po_charges_total = 0, po_round_off = 0, po_paid_total = 0, po_currency = ''KES'', po_subtype = [],
     po_metadata = [], po_customer_phone = None, po_customer_name = None, po_business_date = None,
     po_created_at = 0, po_lines = [sample_line]\<rparr>"

lemma sample_line_settled: "settled_line sample_line"
  using is_f64_of_int [of 200] is_f64_of_int [of 32] by (simp add: sample_line_def settled_line_def)

text \<open>
  C24. \<open>EditOrderLine\<close> and \<open>RecomputeTotals\<close> aggregate the lines by two different loops. As long as
  no line is partially voided they agree: after a successful edit the stored totals are exactly what
  a recomputation from the stored lines gives, so a later recomputation changes nothing. (On an order
  with a partially voided line they do not: \<open>partial_void_then_discount_drops_active_goods\<close>.)
\<close>

theorem edit_agrees_with_recompute:
  assumes "decimal_lib L" "\<forall>l \<in> set (po_lines po). settled_line l"
    "edit_order_line L ok line_id inp po = Inr po'"
  shows "recompute_totals L po' = po'"
  using decimal_lib.edit_recompute [OF assms] .

theorem edit_agrees_with_recompute_witness:
  "case edit_order_line shop_decimal True 7 \<lparr>ei_unit_price = Some 80, ei_quantity = Some 3\<rparr> sample_order of
     Inr po' \<Rightarrow> recompute_totals shop_decimal po' = po' \<and> po_total_amount po' = 279
   | Inl e \<Rightarrow> False"
proof -
  let ?r = "edit_order_line shop_decimal True 7 \<lparr>ei_unit_price = Some 80, ei_quantity = Some 3\<rparr> sample_order"
  have "case ?r of Inr po' \<Rightarrow> po_total_amount po' = 279 | Inl e \<Rightarrow> False" by code_simp
  moreover have "recompute_totals shop_decimal po' = po'" if "?r = Inr po'" for po'
    by (rule edit_agrees_with_recompute [OF shop.decimal_lib_axioms _ that])
      (simp add: sample_order_def sample_line_settled)
  ultimately show ?thesis by (auto split: sum.splits)
qed

text \<open>
  The same agreement for \<open>SetOrderDiscount\<close>; the discount it stores is never negative.
\<close>

theorem discount_agrees_with_recompute:
  assumes "decimal_lib L" "\<forall>l \<in> set (po_lines po). settled_line l"
    "set_order_discount L ok d po = Inr po'"
  shows "recompute_totals L po' = po' \<and> po_discount_total po' = d \<and> 0 \<le> d"
proof -
  have "po_discount_total po' = d" "0 \<le> d"
    using assms(3) by (auto simp: set_order_discount_def store_totals_def Let_def split: if_splits prod.splits)
  then show ?thesis using decimal_lib.discount_recompute [OF assms] by blast
qed

theorem discount_agrees_with_recompute_witness:
  "case set_order_discount shop_decimal True 30 sample_order of
     Inr po' \<Rightarrow> recompute_totals shop_decimal po' = po' \<and> po_total_amount po' = 202
   | Inl e \<Rightarrow> False"
proof -
  have "case set_order_discount shop_decimal True 30 sample_order of
      Inr po' \<Rightarrow> po_total_amount po' = 202 | Inl e \<Rightarrow> False" by code_simp
  moreover have "recompute_totals shop_decimal po' = po'"
    if "set_order_discount shop_decimal True 30 sample_order = Inr po'" for po'
    using discount_agrees_with_recompute [OF shop.decimal_lib_axioms _ that]
    by (simp add: sample_order_def sample_line_settled)
  ultimately show ?thesis by (auto split: sum.splits)
qed

section \<open>Voiding a line\<close>

definition sample_void :: "f64 \<Rightarrow> void_request" where
  "sample_void q = \<lparr>vr_reason = ''spilled'', vr_qty = q, vr_token = [], vr_void_code = ''4711'', vr_approval_code = []\<rparr>"

definition sample_approvers :: approvers where
  "sample_approvers = \<lparr>ap_secret_set = True, ap_token = (\<lambda>_. None),
     ap_void_code = (\<lambda>c. if c = ''4711'' then Some 9 else None), ap_action_code = (\<lambda>_. None)\<rparr>"

text \<open>
  \<open>RecomputeTotals\<close> and \<open>SetOrderDiscount\<close> disagree once a line is partially voided: the latter
  skips the whole line, its active part included. From an order of two units at 100, one of them
  voided (payable 116 after the void), storing a discount of zero leaves a payable of zero.
\<close>

theorem partial_void_then_discount_drops_active_goods:
  "\<exists>po1 po2. void_order_line shop_decimal sample_approvers False No_Fault 7 (sample_void 1) sample_order = (Inr 100, po1) \<and>
     po_total_amount po1 = 116 \<and> set_order_discount shop_decimal True 0 po1 = Inr po2 \<and>
     po_total_amount po2 = 0 \<and> po_total_amount (recompute_totals shop_decimal po2) = 116"
proof -
  define po1 where "po1 = snd (void_order_line shop_decimal sample_approvers False No_Fault 7 (sample_void 1) sample_order)"
  have "fst (void_order_line shop_decimal sample_approvers False No_Fault 7 (sample_void 1) sample_order) = Inr 100"
    by code_simp
  then have v: "void_order_line shop_decimal sample_approvers False No_Fault 7 (sample_void 1) sample_order = (Inr 100, po1)"
    by (simp add: po1_def prod_eq_iff)
  have "case set_order_discount shop_decimal True 0 po1 of
      Inr po2 \<Rightarrow> po_total_amount po2 = 0 \<and> po_total_amount (recompute_totals shop_decimal po2) = 116
    | Inl e \<Rightarrow> False" unfolding po1_def by code_simp
  then obtain po2 where "set_order_discount shop_decimal True 0 po1 = Inr po2" "po_total_amount po2 = 0"
    "po_total_amount (recompute_totals shop_decimal po2) = 116"
    by (auto split: sum.splits)
  moreover have "po_total_amount po1 = 116" unfolding po1_def by code_simp
  ultimately show ?thesis using v by blast
qed

text \<open>
  C34. A line leaves the bill only with authority: when a void succeeds, the caller is a manager or
  one of the three verifiers accepted the code it was given, the order was neither terminal nor
  finalized, the line was not voided before, and the voided quantity is at most the line's.
\<close>

theorem void_needs_authority:
  assumes "void_order_line L A caller_is_manager fault line_id r po = (Inr v, po')"
  shows "(caller_is_manager \<or> (\<exists>a. Some a \<in> {ap_token A (vr_token r), ap_void_code A (vr_void_code r),
             ap_action_code A (vr_approval_code r)})) \<and>
     po_status po \<notin> {st_voided, st_cancelled, st_refunded, st_completed} \<and>
     (\<exists>l q. l \<in> set (po_lines po) \<and> ol_id l = line_id \<and> ol_voided_qty l = None \<and> q \<le> ol_quantity l \<and>
        po_lines po' = mark_voided line_id q (po_lines po))"
proof -
  obtain approver where ap: "void_approver A r = Inr approver" "\<not> void_needs_approval caller_is_manager approver"
    using assms by (auto simp: void_order_line_def split: if_splits sum.splits)
  then have who: "caller_is_manager \<or> (\<exists>a. Some a \<in> {ap_token A (vr_token r), ap_void_code A (vr_void_code r),
             ap_action_code A (vr_approval_code r)})"
    by (cases approver) (auto simp: void_approver_def void_needs_approval_def Let_def
      split: if_splits option.splits)
  obtain l where l: "find (\<lambda>l. ol_id l = line_id) (po_lines po) = Some l" "ol_voided_qty l = None"
    "po' = recompute_totals L (po\<lparr>po_lines := mark_voided line_id (void_quantity (vr_qty r) l) (po_lines po)\<rparr>)"
    and st: "po_status po \<notin> {st_voided, st_cancelled, st_refunded, st_completed}"
    using assms by (auto simp: void_order_line_def Let_def st_defs split: if_splits sum.splits option.splits)
  have "l \<in> set (po_lines po)" "ol_id l = line_id" using l(1) by (auto simp: find_Some_iff)
  moreover have "void_quantity (vr_qty r) l \<le> ol_quantity l" by (simp add: void_quantity_def)
  moreover have "po_lines po' = mark_voided line_id (void_quantity (vr_qty r) l) (po_lines po)"
    using l(3) by (simp add: recompute_totals_def store_totals_def Let_def)
  ultimately show ?thesis using who st l(2) by blast
qed

theorem void_needs_authority_witness:
  "case void_order_line shop_decimal sample_approvers False No_Fault 7 (sample_void 0) sample_order of
     (Inr v, po') \<Rightarrow> v = 200 \<and> po_total_amount po' = 0 \<and>
        (\<exists>l q. l \<in> set (po_lines sample_order) \<and> q \<le> ol_quantity l \<and>
           po_lines po' = mark_voided 7 q (po_lines sample_order))
   | (Inl e, po') \<Rightarrow> False"
proof -
  have "case void_order_line shop_decimal sample_approvers False No_Fault 7 (sample_void 0) sample_order of
      (Inr v, po') \<Rightarrow> v = 200 \<and> po_total_amount po' = 0 | (Inl e, po') \<Rightarrow> False" by code_simp
  moreover have "\<exists>l q. l \<in> set (po_lines sample_order) \<and> q \<le> ol_quantity l \<and>
           po_lines po' = mark_voided 7 q (po_lines sample_order)"
    if "void_order_line shop_decimal sample_approvers False No_Fault 7 (sample_void 0) sample_order = (Inr v, po')" for v po'
    using void_needs_authority [OF that] by blast
  ultimately show ?thesis by (auto split: prod.splits sum.splits)
qed

text \<open>
  The two writes of a void are not atomic, and a failed one shows nothing but the mark: an
  error leaves the order as it was, unless the recomputation failed after the line was marked.
\<close>

theorem void_error_leaves_order:
  assumes "void_order_line L A caller_is_manager fault line_id r po = (Inl e, po')"
  shows "po' = po \<or> (fault = Recompute_Fails \<and> e = Internal_Error \<and>
     po' = po\<lparr>po_lines := po_lines po'\<rparr> \<and> (\<exists>q. po_lines po' = mark_voided line_id q (po_lines po)))"
  using assms
  by (auto simp: void_order_line_def Let_def split: if_splits sum.splits option.splits)

theorem void_error_leaves_order_witness:
  "case void_order_line shop_decimal sample_approvers False Recompute_Fails 7 (sample_void 0) sample_order of
     (Inl e, po') \<Rightarrow> e = Internal_Error \<and> po_total_amount po' = 232 \<and> po' = sample_order\<lparr>po_lines := po_lines po'\<rparr>
   | (Inr v, po') \<Rightarrow> False"
proof -
  have "case void_order_line shop_decimal sample_approvers False Recompute_Fails 7 (sample_void 0) sample_order of
     (Inl e, po') \<Rightarrow> e = Internal_Error \<and> po_total_amount po' = 232 | (Inr v, po') \<Rightarrow> False" by code_simp
  moreover have "po' = sample_order\<lparr>po_lines := po_lines po'\<rparr>"
    if "void_order_line shop_decimal sample_approvers False Recompute_Fails 7 (sample_void 0) sample_order = (Inl e, po')" for e po'
    using void_error_leaves_order [OF that] by auto
  ultimately show ?thesis by (auto split: prod.splits sum.splits)
qed

end
