(* ===== verification/Kds_Route.thy ===== *)
theory Kds_Route
  imports Go_Prelude "HOL-Library.Product_Lexorder" "HOL-Library.List_Lexorder" "HOL-Library.Char_ord"
begin

text \<open>
  Package \<open>internal/modules/kdsroute\<close> (\<open>router.go\<close>): which kitchen station owns an order line. Names
  are compared by \<open>key\<close>, the category hierarchy is a \<open>tree\<close> built from the inventory's categories,
  and a \<open>router\<close> holds an outlet's active stations with the category each of them claims. The
  lemmas show that normalising twice changes nothing, that the owner is always an active station and
  follows the closest claim, that coverage reports what routing does, and that the filter checks
  keep claims apart.
\<close>

section \<open>Normalised names\<close>

definition is_alnum :: "char \<Rightarrow> bool" where
  "is_alnum c \<longleftrightarrow> (let n = (of_char c :: nat)
     in 48 \<le> n \<and> n \<le> 57 \<or> 65 \<le> n \<and> n \<le> 90 \<or> 97 \<le> n \<and> n \<le> 122)"

definition replace_amp :: "string \<Rightarrow> string" where
  "replace_amp s = concat (map (\<lambda>c. if c = CHR ''&'' then '' and '' else [c]) s)"

definition fold_plural :: "string \<Rightarrow> string" where
  "fold_plural k =
     (if length k > 4 \<and> list_ex (\<lambda>e. suffix e k) [''ches'', ''shes'', ''sses'', ''xes'', ''zes'']
      then take (length k - 2) k
      else if length k > 3 \<and> suffix ''s'' k \<and> \<not> suffix ''ss'' k then take (length k - 1) k
      else k)"

definition key :: "string \<Rightarrow> string" where
  "key s =
     (let s = to_lower (trim_space s)
      in if s = [] then [] else fold_plural (filter is_alnum (replace_amp s)))"

section \<open>The category tree\<close>

record category =
  ca_id :: string
  ca_name :: string
  ca_parent_id :: string

record tree =
  tr_parent :: "string \<rightharpoonup> string"
  tr_names :: "string \<rightharpoonup> string"
  tr_order :: "string list"
  tr_kids :: "string \<Rightarrow> string list"

definition key_by_id :: "category list \<Rightarrow> string \<Rightarrow> string" where
  "key_by_id cats =
     fold (\<lambda>c m. let k = key (ca_name c) in if k = [] then m else m(ca_id c := k)) cats (\<lambda>_. [])"

definition add_name :: "category \<Rightarrow> tree \<Rightarrow> tree" where
  "add_name c t =
     (let k = key (ca_name c)
      in if k = [] \<or> tr_names t k \<noteq> None then t
         else t\<lparr>tr_names := (tr_names t)(k \<mapsto> trim_space (ca_name c)), tr_order := tr_order t @ [k]\<rparr>)"

definition add_parent :: "(string \<Rightarrow> string) \<Rightarrow> category \<Rightarrow> tree \<Rightarrow> tree" where
  "add_parent ids c t =
     (let k = ids (ca_id c); pk = ids (ca_parent_id c)
      in if k = [] \<or> pk = [] \<or> pk = k \<or> tr_parent t k \<noteq> None then t
         else t\<lparr>tr_parent := (tr_parent t)(k \<mapsto> pk), tr_kids := (tr_kids t)(pk := tr_kids t pk @ [k])\<rparr>)"

definition new_tree :: "category list \<Rightarrow> tree" where
  "new_tree cats =
     fold (add_parent (key_by_id cats)) cats
       (fold add_name cats \<lparr>tr_parent = Map.empty, tr_names = Map.empty, tr_order = [], tr_kids = (\<lambda>_. [])\<rparr>)"

definition tree_has :: "tree option \<Rightarrow> string \<Rightarrow> bool" where
  "tree_has t name = (case t of None \<Rightarrow> False | Some t \<Rightarrow> tr_names t (key name) \<noteq> None)"

definition tree_size :: "tree option \<Rightarrow> nat" where
  "tree_size t = (case t of None \<Rightarrow> 0 | Some t \<Rightarrow> length (tr_order t))"

definition max_tree_depth :: nat where
  "max_tree_depth = 32"

fun ancestors :: "nat \<Rightarrow> (string \<rightharpoonup> string) \<Rightarrow> string \<Rightarrow> string list" where
  "ancestors 0 parent k = []"
| "ancestors (Suc n) parent k =
     (case parent k of None \<Rightarrow> [] | Some p \<Rightarrow> if p = [] then [] else p # ancestors n parent p)"

definition lineage :: "tree option \<Rightarrow> string \<Rightarrow> string list" where
  "lineage t k = k # (case t of None \<Rightarrow> [] | Some t \<Rightarrow> ancestors max_tree_depth (tr_parent t) k)"

section \<open>The router\<close>

record station =
  ks_id :: uuid
  ks_name :: string
  ks_type :: string
  ks_filter :: "string list"
  ks_sort_order :: int
  ks_active :: bool

record router =
  ro_stations :: "station list"
  ro_by_id :: "uuid \<rightharpoonup> station"
  ro_claims :: "string \<rightharpoonup> uuid"
  ro_tree :: "tree option"

definition is_copy_station :: "station \<Rightarrow> bool" where
  "is_copy_station st \<longleftrightarrow> ks_type st = ''expo'' \<or> ks_type st = ''all''"

definition claim :: "uuid \<Rightarrow> string \<Rightarrow> (string \<rightharpoonup> uuid) \<Rightarrow> (string \<rightharpoonup> uuid)" where
  "claim sid c m = (let k = key c in if k = [] \<or> m k \<noteq> None then m else m(k \<mapsto> sid))"

definition station_claims :: "station \<Rightarrow> (string \<rightharpoonup> uuid) \<Rightarrow> (string \<rightharpoonup> uuid)" where
  "station_claims st m = (if is_copy_station st then m else fold (claim (ks_id st)) (ks_filter st) m)"

definition new_router :: "station list \<Rightarrow> tree option \<Rightarrow> router" where
  "new_router stations t =
     (let active = sort_key (\<lambda>st. (ks_sort_order st, ks_name st)) (filter ks_active stations)
      in \<lparr>ro_stations = active,
          ro_by_id = fold (\<lambda>st m. m(ks_id st \<mapsto> st)) active Map.empty,
          ro_claims = fold station_claims active Map.empty,
          ro_tree = t\<rparr>)"

definition copy_stations :: "router \<Rightarrow> uuid list" where
  "copy_stations r = map ks_id (filter is_copy_station (ro_stations r))"

fun first_some :: "('a \<Rightarrow> 'b option) \<Rightarrow> 'a list \<Rightarrow> 'b option" where
  "first_some f [] = None"
| "first_some f (x # xs) = (case f x of Some y \<Rightarrow> Some y | None \<Rightarrow> first_some f xs)"

definition hot_beverage_keywords :: "string list" where
  "hot_beverage_keywords = [''coffee'', ''tea'', ''espresso'', ''cappuccino'', ''latte'', ''americano'',
     ''macchiato'', ''mocha'', ''hot chocolate'', ''chai'', ''flat white'', ''cortado'', ''affogato'',
     ''hot beverage'', ''hot drink'']"

definition is_hot_beverage :: "string \<Rightarrow> string \<Rightarrow> bool" where
  "is_hot_beverage name category =
     (let hay = to_lower (name @ '' '' @ category)
      in list_ex (\<lambda>kw. contains_str hay kw \<and>
           \<not> ((kw = ''coffee'' \<or> kw = ''tea'') \<and>
              (contains_str hay (''iced '' @ kw) \<or> contains_str hay (''ice '' @ kw)))) hot_beverage_keywords)"

definition filter_in_name :: "string \<Rightarrow> station \<Rightarrow> bool" where
  "filter_in_name lname st \<longleftrightarrow> \<not> is_copy_station st \<and>
     list_ex (\<lambda>c. let needle = to_lower (trim_space c) in needle \<noteq> [] \<and> contains_str lname needle) (ks_filter st)"

definition owner :: "router \<Rightarrow> string \<Rightarrow> string \<Rightarrow> uuid option \<Rightarrow> uuid option" where
  "owner r name category pinned =
     (case (case pinned of
              Some p \<Rightarrow> if p \<noteq> uuid_nil \<and> ro_by_id r p \<noteq> None then Some p else None
            | None \<Rightarrow> None) of
        Some sid \<Rightarrow> Some sid
      | None \<Rightarrow>
          (case (let k = key category
                 in if k \<noteq> [] then first_some (ro_claims r) (lineage (ro_tree r) k)
                    else map_option ks_id (find (filter_in_name (to_lower name)) (ro_stations r))) of
             Some sid \<Rightarrow> Some sid
           | None \<Rightarrow>
               if is_hot_beverage name category
               then map_option ks_id (find (\<lambda>st. ks_type st = ''kitchen'') (ro_stations r))
               else None))"

definition owner_or_fallback :: "router \<Rightarrow> string \<Rightarrow> string \<Rightarrow> uuid option \<Rightarrow> uuid option" where
  "owner_or_fallback r name category pinned =
     (case owner r name category pinned of
        Some sid \<Rightarrow> Some sid
      | None \<Rightarrow>
          (case copy_stations r of
             sid # _ \<Rightarrow> Some sid
           | [] \<Rightarrow> (case ro_stations r of st # _ \<Rightarrow> Some (ks_id st) | [] \<Rightarrow> None)))"

definition claim_for :: "router \<Rightarrow> string \<Rightarrow> uuid" where
  "claim_for r k = (case first_some (ro_claims r) (lineage (ro_tree r) k) of Some sid \<Rightarrow> sid | None \<Rightarrow> uuid_nil)"

definition tree_name :: "tree \<Rightarrow> string \<Rightarrow> string" where
  "tree_name t k = (case tr_names t k of Some n \<Rightarrow> n | None \<Rightarrow> [])"

definition coverage :: "router \<Rightarrow> (uuid \<Rightarrow> string list) \<times> string list" where
  "coverage r =
     (case ro_tree r of
        None \<Rightarrow> (\<lambda>_. [], [])
      | Some t \<Rightarrow>
          fold (\<lambda>k (owned, unclaimed).
              let sid = claim_for r k
              in if sid \<noteq> uuid_nil then (owned(sid := owned sid @ [tree_name t k]), unclaimed)
                 else (owned, unclaimed @ [tree_name t k])) (tr_order t) (\<lambda>_. [], []))"

definition stale_filters :: "router \<Rightarrow> station \<Rightarrow> string list" where
  "stale_filters r st =
     (if ro_tree r = None \<or> tree_size (ro_tree r) = 0 then []
      else filter (\<lambda>c. trim_space c \<noteq> [] \<and> \<not> tree_has (ro_tree r) c) (ks_filter st))"

section \<open>Checks on a station's filter\<close>

fun conflicts_loop :: "(string \<Rightarrow> bool) \<Rightarrow> string list \<Rightarrow> string list \<Rightarrow> string list" where
  "conflicts_loop taken seen [] = []"
| "conflicts_loop taken seen (c # cs) =
     (let k = key c
      in if k = [] \<or> k \<in> set seen then conflicts_loop taken seen cs
         else (if taken k then [trim_space c] else []) @ conflicts_loop taken (k # seen) cs)"

definition is_taken :: "station list \<Rightarrow> string \<Rightarrow> bool" where
  "is_taken others k \<longleftrightarrow> k \<noteq> [] \<and> list_ex (\<lambda>st. list_ex (\<lambda>c. key c = k) (ks_filter st)) others"

definition conflicts :: "station list \<Rightarrow> string list \<Rightarrow> string list" where
  "conflicts others wanted = conflicts_loop (is_taken others) [] wanted"

fun clean_loop :: "string list \<Rightarrow> string list \<Rightarrow> string list" where
  "clean_loop seen [] = []"
| "clean_loop seen (c # cs) =
     (let c = trim_space c; k = key c
      in if k = [] \<or> k \<in> set seen then clean_loop seen cs else c # clean_loop (k # seen) cs)"

definition clean_filter :: "string list \<Rightarrow> string list" where
  "clean_filter xs = clean_loop [] xs"

section \<open>Normalising\<close>

lemma of_char_lower_alnum: "is_alnum (to_lower_char c) = is_alnum c"
  by (auto simp: is_alnum_def to_lower_char_def Let_def)

lemma alnum_not_space: "is_alnum c \<Longrightarrow> \<not> is_space c"
  by (auto simp: is_alnum_def is_space_def Let_def)

lemma fold_plural_subset: "set (fold_plural k) \<subseteq> set k"
  by (auto simp: fold_plural_def dest: in_set_takeD)

lemma fold_plural_Nil [simp]: "fold_plural [] = []"
  by (simp add: fold_plural_def)

lemma plural_end_s: "suffix e k \<Longrightarrow> e \<in> {''ches'', ''shes'', ''sses'', ''xes'', ''zes''} \<Longrightarrow> suffix ''es'' k"
  by (auto simp: suffix_def)

lemma fold_plural_idem [simp]: "fold_plural (fold_plural k) = fold_plural k"
proof -
  have stable: "fold_plural k' = k'" if "\<not> suffix ''s'' k' \<or> suffix ''ss'' k'" for k'
  proof -
    have "\<not> suffix ''es'' k'" using that
      by (auto simp: suffix_def)
    then show ?thesis using that plural_end_s [of _ k'] by (auto simp: fold_plural_def)
  qed
  show ?thesis
  proof (cases "length k > 4 \<and> list_ex (\<lambda>e. suffix e k) [''ches'', ''shes'', ''sses'', ''xes'', ''zes'']")
    case True
    then obtain p where "k = p @ ''ches'' \<or> k = p @ ''shes'' \<or> k = p @ ''sses'' \<or> k = p @ ''xes'' \<or> k = p @ ''zes''"
      by (auto simp: suffix_def)
    moreover have "fold_plural k = take (length k - 2) k" using True by (simp add: fold_plural_def)
    ultimately have "fold_plural k \<in> {p @ ''ch'', p @ ''sh'', p @ ''ss'', p @ ''x'', p @ ''z''}" by auto
    then show ?thesis by (intro stable) (auto simp: suffix_def)
  next
    case False
    show ?thesis
    proof (cases "length k > 3 \<and> suffix ''s'' k \<and> \<not> suffix ''ss'' k")
      case True
      then obtain p where p: "k = p @ ''s''" by (auto simp: suffix_def)
      have "\<not> suffix ''s'' p" using True p by (auto simp: suffix_def)
      moreover have "fold_plural k = p" using True False p by (auto simp: fold_plural_def)
      ultimately show ?thesis by (intro stable) simp
    next
      case not_s: False
      have "fold_plural k = k" unfolding fold_plural_def by (simp only: False not_s if_False)
      then show ?thesis by simp
    qed
  qed
qed

lemma key_chars:
  assumes "c \<in> set (key s)"
  shows "is_alnum c" "to_lower_char c = c"
proof -
  define u where "u = to_lower (trim_space s)"
  have "c \<in> set (filter is_alnum (replace_amp u))"
    using assms subsetD [OF fold_plural_subset, of c "filter is_alnum (replace_amp u)"]
    by (cases "u = []") (simp_all add: key_def Let_def flip: u_def)
  then have a: "is_alnum c" and r: "c \<in> set (replace_amp u)" by auto
  have "to_lower_char c = c" if "c \<in> set u" using that by (auto simp: u_def to_lower_def)
  then have "to_lower_char c = c"
    using r by (auto simp: replace_amp_def to_lower_char_def Let_def split: if_splits)
  with a show "is_alnum c" "to_lower_char c = c" .
qed

lemma filter_replace_alnum: "\<forall>c \<in> set k. is_alnum c \<Longrightarrow> filter is_alnum (replace_amp k) = k"
  by (induction k) (auto simp: replace_amp_def is_alnum_def)

lemma trim_no_space: "\<forall>c \<in> set k. \<not> is_space c \<Longrightarrow> trim_space k = k"
proof -
  assume "\<forall>c \<in> set k. \<not> is_space c"
  then have "dropWhile is_space k = k" "dropWhile is_space (rev k) = rev k"
    by (auto simp: dropWhile_eq_self_iff hd_rev)
  then show ?thesis by (simp add: trim_space_def)
qed

lemma key_idem: "key (key s) = key s"
proof (cases "key s = []")
  case False
  have "trim_space (key s) = key s" using key_chars(1) alnum_not_space by (intro trim_no_space) blast
  moreover have "to_lower (key s) = key s"
    using key_chars(2) [of _ s] by (auto simp: to_lower_def intro: map_idI)
  moreover have "filter is_alnum (replace_amp (key s)) = key s"
    using key_chars(1) by (intro filter_replace_alnum) blast
  moreover have "fold_plural (key s) = key s" using False by (simp add: key_def Let_def)
  ultimately show ?thesis using False by (simp add: key_def [of "key s"] Let_def)
next
  case True
  then show ?thesis by (simp add: key_def [of "[]"] to_lower_def trim_space_def Let_def)
qed

lemma key_trim [simp]: "key (trim_space s) = key s"
  by (simp add: key_def)

section \<open>The router's tables\<close>

lemma fold_inv:
  assumes "P a" "\<And>x a. x \<in> set xs \<Longrightarrow> P a \<Longrightarrow> P (f x a)"
  shows "P (fold f xs a)"
  using assms by (induction xs arbitrary: a) auto

lemma first_some_Some: "first_some f xs = Some y \<Longrightarrow> \<exists>x \<in> set xs. f x = Some y"
  by (induction xs) (auto split: option.splits)

lemma first_some_None: "first_some f xs = None \<longleftrightarrow> (\<forall>x \<in> set xs. f x = None)"
  by (induction xs) (auto split: option.splits)

lemma ro_stations_new: "set (ro_stations (new_router sts t)) = {st \<in> set sts. ks_active st}"
  by (auto simp: new_router_def Let_def)

lemma ro_tree_new [simp]: "ro_tree (new_router sts t) = t"
  by (simp add: new_router_def Let_def)

lemma fold_by_id: "fold (\<lambda>st m. m(ks_id st \<mapsto> st)) sts m p \<noteq> None \<longleftrightarrow> p \<in> ks_id ` set sts \<or> m p \<noteq> None"
  by (induction sts arbitrary: m) auto

lemma ro_by_id_new:
  "ro_by_id (new_router sts t) p \<noteq> None \<longleftrightarrow> p \<in> ks_id ` set (ro_stations (new_router sts t))"
  by (simp only: new_router_def Let_def router.simps fold_by_id) simp

text \<open>A claim belongs to an active station that is no copy station and lists the name.\<close>

definition claims_ok :: "station list \<Rightarrow> (string \<rightharpoonup> uuid) \<Rightarrow> bool" where
  "claims_ok sts m \<longleftrightarrow> (\<forall>k sid. m k = Some sid \<longrightarrow>
     (\<exists>st \<in> set sts. ks_id st = sid \<and> \<not> is_copy_station st \<and> k \<in> key ` set (ks_filter st)))"

lemma claims_ok_new: "claims_ok (ro_stations (new_router sts t)) (ro_claims (new_router sts t))"
proof -
  have "claims_ok xs (fold station_claims xs Map.empty)" for xs
  proof (rule fold_inv [where P = "claims_ok xs"])
    fix st m assume st: "st \<in> set xs" and m: "claims_ok xs m"
    show "claims_ok xs (station_claims st m)"
    proof (cases "is_copy_station st")
      case False
      have "claims_ok xs (fold (claim (ks_id st)) (ks_filter st) m)"
        using m by (rule fold_inv [where P = "claims_ok xs"]) (use st False in \<open>auto simp: claims_ok_def claim_def Let_def split: if_splits\<close>)
      then show ?thesis using False by (simp add: station_claims_def)
    qed (use m in \<open>simp add: station_claims_def\<close>)
  qed (simp add: claims_ok_def)
  then show ?thesis by (simp add: new_router_def Let_def)
qed

lemma claimed_station:
  assumes "ro_claims (new_router sts t) k = Some sid"
  shows "sid \<in> ks_id ` set (ro_stations (new_router sts t))"
  using claims_ok_new [of sts t] assms by (fastforce simp: claims_ok_def)

lemma claim_keeps: "m k \<noteq> None \<Longrightarrow> claim sid c m k = m k"
  by (auto simp: claim_def Let_def)

lemma fold_claim_keeps: "m k \<noteq> None \<Longrightarrow> fold (claim sid) cs m k = m k"
  by (induction cs arbitrary: m) (auto simp: claim_keeps)

lemma station_claims_keeps: "m k \<noteq> None \<Longrightarrow> station_claims st m k = m k"
  by (simp add: station_claims_def fold_claim_keeps)

lemma fold_station_claims_keeps: "m k \<noteq> None \<Longrightarrow> fold station_claims sts m k = m k"
  by (induction sts arbitrary: m) (auto simp: station_claims_keeps)

lemma fold_claim_sets:
  "c \<in> set cs \<Longrightarrow> key c \<noteq> [] \<Longrightarrow> fold (claim sid) cs m (key c) \<noteq> None"
proof (induction cs arbitrary: m)
  case (Cons a cs)
  show ?case
  proof (cases "c = a")
    case True
    then have "claim sid a m (key c) \<noteq> None" using Cons.prems by (auto simp: claim_def Let_def)
    then show ?thesis using fold_claim_keeps by simp
  qed (use Cons in auto)
qed simp

lemma ro_claims_total:
  assumes "st \<in> set (ro_stations (new_router sts t))" "\<not> is_copy_station st"
    "c \<in> set (ks_filter st)" "key c \<noteq> []"
  shows "ro_claims (new_router sts t) (key c) \<noteq> None"
proof -
  have "st \<in> set xs \<Longrightarrow> fold station_claims xs m (key c) \<noteq> None" for xs m
  proof (induction xs arbitrary: m)
    case (Cons x xs)
    show ?case
    proof (cases "st = x")
      case True
      then have "station_claims x m (key c) \<noteq> None"
        using assms fold_claim_sets by (simp add: station_claims_def)
      then show ?thesis using fold_station_claims_keeps by simp
    qed (use Cons in auto)
  qed simp
  then show ?thesis using assms(1) by (simp add: new_router_def Let_def)
qed

section \<open>Ownership\<close>

lemma owner_active:
  assumes "owner (new_router sts t) name category pinned = Some sid"
  shows "\<exists>st \<in> set (ro_stations (new_router sts t)). ks_id st = sid"
proof -
  let ?r = "new_router sts t"
  have found: "z \<in> set (ro_stations ?r)" if "find P (ro_stations ?r) = Some z" for P z
    using that by (auto simp: find_Some_iff)
  have "sid \<in> ks_id ` set (ro_stations ?r)"
    using assms unfolding owner_def Let_def
    by (auto dest!: first_some_Some split: option.splits if_splits
      intro: found claimed_station imageI ro_by_id_new [THEN iffD1])
  then show ?thesis by auto
qed

text \<open>
  A line is only ever routed to an active station of the outlet: whatever the pin, the category
  and the name, the owner is the id of one of the active stations the router was built from.
\<close>

theorem owner_is_active:
  assumes "owner (new_router sts t) name category pinned = Some sid"
  shows "\<exists>st \<in> set sts. ks_active st \<and> ks_id st = sid"
  using owner_active [OF assms] by (auto simp: ro_stations_new)

text \<open>
  An outlet with at least one active station has an owner for every line.
\<close>

theorem owner_or_fallback_total:
  assumes "st \<in> set sts" "ks_active st"
  shows "\<exists>st' \<in> set sts. ks_active st' \<and>
    owner_or_fallback (new_router sts t) name category pinned = Some (ks_id st')"
proof -
  let ?r = "new_router sts t"
  have mem: "st' \<in> set sts \<and> ks_active st'" if "st' \<in> set (ro_stations ?r)" for st'
    using that by (auto simp: ro_stations_new)
  obtain st0 rest where r0: "ro_stations ?r = st0 # rest"
    using assms ro_stations_new [of sts t] by (cases "ro_stations ?r") auto
  consider sid where "owner ?r name category pinned = Some sid"
    | "owner ?r name category pinned = None" "copy_stations ?r = []"
    | sid ids where "owner ?r name category pinned = None" "copy_stations ?r = sid # ids"
    by (cases "owner ?r name category pinned"; cases "copy_stations ?r") auto
  then show ?thesis
  proof cases
    case 1
    then show ?thesis using owner_active [of sts t name category pinned] mem
      by (fastforce simp: owner_or_fallback_def)
  next
    case 2
    then show ?thesis using mem [of st0] by (auto simp: owner_or_fallback_def r0)
  next
    case 3
    then have "sid \<in> set (copy_stations ?r)" by simp
    then obtain st' where "st' \<in> set (ro_stations ?r)" "ks_id st' = sid" by (auto simp: copy_stations_def)
    then show ?thesis using 3 mem by (auto simp: owner_or_fallback_def)
  qed
qed

definition sample_stations :: "station list" where
  "sample_stations =
     [\<lparr>ks_id = 1, ks_name = ''Grill'', ks_type = ''kitchen'', ks_filter = [''Mains''], ks_sort_order = 2, ks_active = True\<rparr>,
      \<lparr>ks_id = 2, ks_name = ''Bar'', ks_type = ''bar'', ks_filter = [''Beers & Ciders'', ''Wines''], ks_sort_order = 1, ks_active = True\<rparr>,
      \<lparr>ks_id = 3, ks_name = ''Old bar'', ks_type = ''bar'', ks_filter = [''Juices''], ks_sort_order = 0, ks_active = False\<rparr>]"

definition sample_categories :: "category list" where
  "sample_categories =
     [\<lparr>ca_id = ''a'', ca_name = ''Wine'', ca_parent_id = []\<rparr>, \<lparr>ca_id = ''b'', ca_name = ''Red Wines'', ca_parent_id = ''a''\<rparr>,
      \<lparr>ca_id = ''c'', ca_name = ''Juices'', ca_parent_id = []\<rparr>]"

definition sample_router :: router where
  "sample_router = new_router sample_stations (Some (new_tree sample_categories))"

theorem owner_is_active_witness:
  "owner sample_router ''Merlot'' ''Red Wines'' (Some 3) = Some 2 \<and>
   (\<exists>st \<in> set sample_stations. ks_active st \<and> ks_id st = 2)"
proof -
  have o: "owner sample_router ''Merlot'' ''Red Wines'' (Some 3) = Some 2" by code_simp
  show ?thesis using owner_is_active [OF o [unfolded sample_router_def]] o by blast
qed

theorem owner_or_fallback_total_witness:
  "\<exists>st' \<in> set sample_stations. ks_active st' \<and>
     owner_or_fallback (new_router sample_stations None) ''Towel'' ''Linen'' None = Some (ks_id st')"
  by (rule owner_or_fallback_total [of "sample_stations ! 0"]) (simp_all add: sample_stations_def)

lemma ancestors_extend:
  "length (ancestors (Suc n) parent k) \<le> n \<Longrightarrow> ancestors (Suc n) parent k = ancestors n parent k"
proof (induction n arbitrary: k)
  case (Suc n)
  show ?case
  proof (cases "parent k")
    case (Some p)
    then show ?thesis
    proof (cases "p = []")
      case False
      have "length (ancestors (Suc n) parent p) \<le> n" using Suc.prems Some False by simp
      then show ?thesis using Suc.IH [of p] Some False by simp
    qed (simp add: Some)
  qed simp
qed (auto split: option.splits if_splits)

lemma length_ancestors: "length (ancestors n parent k) \<le> n"
  by (induction n arbitrary: k) (auto split: option.split)

lemma lineage_bound: "length (lineage t k) \<le> 33"
  using length_ancestors by (auto simp: lineage_def max_tree_depth_def split: option.split)

lemma lineage_parent:
  assumes "tr_parent t k = Some p" "p \<noteq> []" "length (lineage (Some t) p) \<le> 32"
  shows "lineage (Some t) k = k # lineage (Some t) p"
proof -
  have "ancestors (Suc 31) (tr_parent t) p = ancestors 31 (tr_parent t) p"
    using assms(3) by (intro ancestors_extend) (simp add: lineage_def max_tree_depth_def del: ancestors.simps)
  moreover have "ancestors (Suc 31) (tr_parent t) k = p # ancestors 31 (tr_parent t) p"
    using assms by (simp only: ancestors.simps option.case if_False)
  moreover have "Suc 31 = 32" by simp
  ultimately show ?thesis
    unfolding lineage_def max_tree_depth_def option.case by (simp only: \<open>Suc 31 = 32\<close>)
qed

lemma claim_for_owner:
  assumes "key category \<noteq> []" "claim_for r (key category) = sid" "sid \<noteq> uuid_nil"
  shows "owner r name category None = Some sid"
  using assms by (auto simp: owner_def claim_for_def split: option.splits)

text \<open>
  A sub-category no station claims inherits its parent's station, at any depth below the bound.
\<close>

theorem subcategory_inherits:
  assumes "tr_parent t (key category) = Some (key parent)" "key category \<noteq> []" "key parent \<noteq> []"
    "ro_tree r = Some t" "ro_claims r (key category) = None"
    "length (lineage (Some t) (key parent)) \<le> 32"
    "claim_for r (key parent) = sid" "sid \<noteq> uuid_nil"
  shows "owner r name category None = Some sid \<and> owner r name parent None = Some sid"
proof -
  have "claim_for r (key category) = claim_for r (key parent)"
    using assms lineage_parent [OF assms(1,3,6)] by (simp add: claim_for_def)
  then show ?thesis using assms by (auto intro: claim_for_owner)
qed

theorem subcategory_inherits_witness:
  "owner sample_router ''Merlot'' ''Red Wines'' None = Some 2 \<and> owner sample_router ''Merlot'' ''Wine'' None = Some 2"
proof (rule subcategory_inherits [where t = "new_tree sample_categories"])
  show "tr_parent (new_tree sample_categories) (key ''Red Wines'') = Some (key ''Wine'')" by code_simp
  show "key ''Red Wines'' \<noteq> []" "key ''Wine'' \<noteq> []" "(2 :: uuid) \<noteq> uuid_nil" by code_simp+
  show "ro_tree sample_router = Some (new_tree sample_categories)" by (simp add: sample_router_def)
  show "ro_claims sample_router (key ''Red Wines'') = None" by code_simp
  show "length (lineage (Some (new_tree sample_categories)) (key ''Wine'')) \<le> 32" by code_simp
  show "claim_for sample_router (key ''Wine'') = 2" by code_simp
qed

section \<open>Coverage\<close>

lemma coverage_fold:
  "fold (\<lambda>k (owned, unclaimed).
      let sid = claim_for r k
      in if sid \<noteq> uuid_nil then (owned(sid := owned sid @ [tree_name t k]), unclaimed)
         else (owned, unclaimed @ [tree_name t k])) ks (f, u) =
   (\<lambda>s. f s @ map (tree_name t) (filter (\<lambda>k. s \<noteq> uuid_nil \<and> claim_for r k = s) ks),
    u @ map (tree_name t) (filter (\<lambda>k. claim_for r k = uuid_nil) ks))"
  by (induction ks arbitrary: f u) (auto simp: Let_def fun_eq_iff)

lemma coverage_eq:
  assumes "ro_tree r = Some t"
  shows "coverage r =
    (\<lambda>s. map (tree_name t) (filter (\<lambda>k. s \<noteq> uuid_nil \<and> claim_for r k = s) (tr_order t)),
     map (tree_name t) (filter (\<lambda>k. claim_for r k = uuid_nil) (tr_order t)))"
  unfolding coverage_def assms option.case coverage_fold by simp

definition tree_ok :: "tree \<Rightarrow> bool" where
  "tree_ok t \<longleftrightarrow> distinct (tr_order t) \<and> dom (tr_names t) = set (tr_order t) \<and>
     (\<forall>k \<in> set (tr_order t). k \<noteq> [] \<and> key (tree_name t k) = k)"

lemma new_tree_ok: "tree_ok (new_tree cats)"
proof -
  have "tree_ok (fold add_name xs \<lparr>tr_parent = Map.empty, tr_names = Map.empty, tr_order = [], tr_kids = (\<lambda>_. [])\<rparr>)" for xs
  proof (rule fold_inv [where P = tree_ok])
    fix c t assume "tree_ok t"
    then show "tree_ok (add_name c t)"
      by (auto simp: tree_ok_def add_name_def tree_name_def Let_def)
  qed (simp add: tree_ok_def)
  moreover have "tree_ok t \<Longrightarrow> tree_ok (add_parent ids c t)" for ids c t
    by (auto simp: tree_ok_def add_parent_def tree_name_def Let_def)
  ultimately show ?thesis unfolding new_tree_def
    by (intro fold_inv [where P = tree_ok and f = "add_parent ids" for ids]) auto
qed

text \<open>
  The settings screen tells the truth: every category listed under a station is routed there for
  a line without a live pin, and a category listed as unclaimed is owned by nobody or, for a hot
  drink, by a kitchen station.
\<close>

theorem coverage_matches_routing:
  assumes "r = new_router sts (Some (new_tree cats))"
  shows "(\<forall>sid. \<forall>c \<in> set (fst (coverage r) sid). owner r name c None = Some sid) \<and>
    (\<forall>c \<in> set (snd (coverage r)). \<forall>sid. owner r name c None = Some sid \<longrightarrow> sid \<noteq> uuid_nil \<longrightarrow>
       is_hot_beverage name c \<and> (\<exists>st \<in> set sts. ks_id st = sid \<and> ks_type st = ''kitchen''))"
proof (intro conjI allI ballI impI)
  let ?t = "new_tree cats"
  have tree: "ro_tree r = Some ?t" by (simp add: assms)
  have names: "key (tree_name ?t k) = k" "k \<noteq> []" if "k \<in> set (tr_order ?t)" for k
    using that new_tree_ok [of cats] by (auto simp: tree_ok_def)
  fix sid c assume "c \<in> set (fst (coverage r) sid)"
  then obtain k where "k \<in> set (tr_order ?t)" "c = tree_name ?t k" "claim_for r k = sid" "sid \<noteq> uuid_nil"
    by (auto simp: coverage_eq [OF tree])
  then show "owner r name c None = Some sid" using names by (intro claim_for_owner) auto
next
  let ?t = "new_tree cats"
  have tree: "ro_tree r = Some ?t" by (simp add: assms)
  have names: "key (tree_name ?t k) = k" "k \<noteq> []" if "k \<in> set (tr_order ?t)" for k
    using that new_tree_ok [of cats] by (auto simp: tree_ok_def)
  fix c sid assume "c \<in> set (snd (coverage r))" and o: "owner r name c None = Some sid" and "sid \<noteq> uuid_nil"
  then obtain k where "k \<in> set (tr_order ?t)" "c = tree_name ?t k" "claim_for r k = uuid_nil"
    by (auto simp: coverage_eq [OF tree])
  then have "key c \<noteq> []" "first_some (ro_claims r) (lineage (ro_tree r) (key c)) \<in> {None, Some uuid_nil}"
    using names by (auto simp: claim_for_def split: option.splits)
  then have "is_hot_beverage name c \<and> map_option ks_id (find (\<lambda>st. ks_type st = ''kitchen'') (ro_stations r)) = Some sid"
    using o \<open>sid \<noteq> uuid_nil\<close> by (auto simp: owner_def split: option.splits if_splits)
  then show "is_hot_beverage name c" "\<exists>st \<in> set sts. ks_id st = sid \<and> ks_type st = ''kitchen''"
    using ro_stations_new [of sts "Some ?t"] nth_mem unfolding assms
    by (fastforce simp: find_Some_iff)+
qed

theorem coverage_matches_routing_witness:
  "fst (coverage sample_router) 2 = [''Wine'', ''Red Wines''] \<and> snd (coverage sample_router) = [''Juices''] \<and>
   owner sample_router ''Merlot'' ''Red Wines'' None = Some 2"
proof -
  have c: "fst (coverage sample_router) 2 = [''Wine'', ''Red Wines'']" "snd (coverage sample_router) = [''Juices'']"
    by code_simp+
  then show ?thesis
    using coverage_matches_routing [OF sample_router_def, of "''Merlot''"] by simp
qed

section \<open>Filters\<close>

lemma conflicts_loop_empty:
  "conflicts_loop taken seen cs = [] \<longleftrightarrow> (\<forall>c \<in> set cs. key c \<noteq> [] \<longrightarrow> key c \<notin> set seen \<longrightarrow> \<not> taken (key c))"
  by (induction cs arbitrary: seen) (auto simp: Let_def)

text \<open>
  \<open>Conflicts\<close> accepts a filter exactly when no name in it has the same key as a name another
  station claims.
\<close>

theorem conflicts_empty_iff:
  "conflicts others wanted = [] \<longleftrightarrow>
     (key ` set wanted - {[]}) \<inter> (\<Union>st \<in> set others. key ` set (ks_filter st)) = {}"
proof -
  have "conflicts others wanted = [] \<longleftrightarrow> (\<forall>c \<in> set wanted. key c \<noteq> [] \<longrightarrow> \<not> is_taken others (key c))"
    by (simp add: conflicts_def conflicts_loop_empty)
  then show ?thesis by (auto simp: is_taken_def list_ex_iff disjoint_iff) (metis imageI)+
qed

lemma clean_loop_keys:
  "set (map key (clean_loop seen cs)) = key ` set cs - insert [] (set seen)"
  "distinct (map key (clean_loop seen cs))"
proof (induction cs arbitrary: seen)
  case (Cons c cs)
  { case 1 show ?case using Cons(1) [of "key c # seen"] Cons(1) [of seen] by (auto simp: Let_def) }
  { case 2 show ?case using Cons(1) [of "key c # seen"] Cons(2) by (auto simp: Let_def) }
qed simp_all

text \<open>
  \<open>CleanFilter\<close> keeps exactly one entry per normalised name, trimmed, and drops the blanks.
\<close>

theorem clean_filter_keys:
  "distinct (map key (clean_filter cs)) \<and> set (map key (clean_filter cs)) = key ` set cs - {[]}"
  using clean_loop_keys [of "[]" cs] by (simp add: clean_filter_def)

text \<open>
  Normalising is idempotent: the stored key of a name is the key of the key.
\<close>

theorem key_idempotent: "key (key s) = key s"
  by (rule key_idem)

end
