(* ===== verification/Kds_Tickets.thy ===== *)
theory Kds_Tickets
  imports Kds_Route Order_Channel Order_Model Outlet_Policy
begin

text \<open>
  Kitchen tickets: the routing and issue of tickets (\<open>routeLinesToStations\<close>, \<open>issueKDSTickets\<close>,
  \<open>closeOrderKDSTickets\<close> of \<open>internal/modules/orders/service.go\<close>) and the board's operations
  (\<open>transitionTicket\<close>, \<open>syncOrderOnAllTicketsServed\<close>, \<open>publishOrderReadyIfAllReady\<close>,
  \<open>ClearTickets\<close> of \<open>internal/http/handlers/kds.go\<close> and \<open>kds_online.go\<close>). The state is the ticket
  table with the orders the tickets belong to; the messages an operation sends are part of its
  result. Whether a statement succeeds is an argument.
\<close>

section \<open>Tickets\<close>

datatype ticket_status = Pending | In_Progress | Ready | Served | Voided

record kds_ticket =
  kt_id :: uuid
  kt_tenant :: uuid
  kt_station :: uuid
  kt_order :: uuid
  kt_number :: string
  kt_status :: ticket_status
  kt_items :: "uuid list"  \<comment> \<open>the ids of the order lines on the ticket\<close>
  kt_table_ref :: string
  kt_subtype :: string
  kt_received_at :: time
  kt_started_at :: "time option"
  kt_completed_at :: "time option"

definition ticket_open :: "kds_ticket \<Rightarrow> bool" where
  "ticket_open t \<longleftrightarrow> kt_status t = Pending \<or> kt_status t = In_Progress \<or> kt_status t = Ready"

datatype kds_event =
    Ticket_Created uuid uuid string string int   \<comment> \<open>ticket, station, source, channel, course\<close>
  | Ticket_Updated uuid ticket_status
  | Online_Preparing uuid string
  | Order_Ready uuid string
  | Ready_For_Payment uuid uuid

section \<open>Routing lines to stations\<close>

definition push_item :: "uuid \<Rightarrow> uuid \<Rightarrow> (uuid \<Rightarrow> uuid list) \<Rightarrow> (uuid \<Rightarrow> uuid list)" where
  "push_item line st m = m(st := m st @ [line])"

definition route_line :: "router \<Rightarrow> order_line \<Rightarrow> (uuid \<Rightarrow> uuid list) \<Rightarrow> (uuid \<Rightarrow> uuid list)" where
  "route_line r l m =
     (case owner r (ol_name l) (ol_category l) (ol_station l) of
        Some target \<Rightarrow> push_item (ol_id l) target m
      | None \<Rightarrow>
          if copy_stations r \<noteq> [] then fold (push_item (ol_id l)) (copy_stations r) m
          else (case ro_stations r of st # _ \<Rightarrow> push_item (ol_id l) (ks_id st) m | [] \<Rightarrow> m))"

definition route_lines_to_stations :: "order_line list \<Rightarrow> router \<Rightarrow> (uuid \<Rightarrow> uuid list)" where
  "route_lines_to_stations lines r = fold (route_line r) lines (\<lambda>_. [])"

section \<open>Issuing tickets\<close>

text \<open>
  \<open>issue_env\<close> is what the database answers: the outlet's kitchen-display setting (no settings row
  is \<open>None\<close>), its use case, its stations and tree, whether the order's lines can be read and the
  lookup of existing tickets succeeds, which stations' inserts fail and the id and time each new ticket gets; \<open>ie_hub\<close> says whether a
  live board is connected.
\<close>

record issue_env =
  ie_enable_kds :: "bool option"
  ie_use_case :: string
  ie_stations :: "station list"
  ie_tree :: "tree option"
  ie_lines_ok :: bool
  ie_lookup_ok :: bool
  ie_insert_ok :: "uuid \<Rightarrow> bool"
  ie_new_id :: "uuid \<Rightarrow> uuid"
  ie_now :: time
  ie_hub :: bool

definition kds_enabled_for_outlet :: "issue_env \<Rightarrow> bool" where
  "kds_enabled_for_outlet env = (case ie_enable_kds env of None \<Rightarrow> True | Some b \<Rightarrow> b)"

definition new_ticket :: "issue_env \<Rightarrow> pos_order \<Rightarrow> uuid \<Rightarrow> uuid list \<Rightarrow> kds_ticket" where
  "new_ticket env po st items =
     \<lparr>kt_id = ie_new_id env st, kt_tenant = po_tenant po, kt_station = st, kt_order = po_id po,
      kt_number = po_number po, kt_status = Pending, kt_items = items,
      kt_table_ref = parse_table_ref (po_metadata po), kt_subtype = po_subtype po,
      kt_received_at = ie_now env, kt_started_at = None, kt_completed_at = None\<rparr>"

definition issue_station ::
  "issue_env \<Rightarrow> pos_order \<Rightarrow> (uuid \<Rightarrow> uuid list) \<Rightarrow> (uuid \<Rightarrow> bool) \<Rightarrow> int \<Rightarrow> station
     \<Rightarrow> kds_ticket list \<times> kds_event list \<Rightarrow> kds_ticket list \<times> kds_event list" where
  "issue_station env po items ticketed course st acc =
     (let sid = ks_id st
      in if items sid = [] \<or> ticketed sid \<or> \<not> ie_insert_ok env sid then acc
         else (fst acc @ [new_ticket env po sid (items sid)],
               if ie_hub env
               then snd acc @ [Ticket_Created (ie_new_id env sid) sid (order_source (po_metadata po))
                      (channel_name (channel_of (po_subtype po) (po_metadata po))) (if course > 0 then course else 0)]
               else snd acc))"

definition issue_kds_tickets ::
  "issue_env \<Rightarrow> pos_order \<Rightarrow> order_line list \<Rightarrow> bool \<Rightarrow> int \<Rightarrow> kds_ticket list
     \<Rightarrow> kds_ticket list \<times> kds_event list" where
  "issue_kds_tickets env po lines first_round course tickets =
     (let wf = workflow_for (ie_use_case env) (po_subtype po);
          r = new_router (ie_stations env) (ie_tree env);
          ticketed = (\<lambda>sid. first_round \<and> ie_lookup_ok env \<and>
                        list_ex (\<lambda>t. kt_order t = po_id po \<and> kt_station t = sid) tickets)
      in if lines = [] \<or> \<not> kds_enabled_for_outlet env then (tickets, [])
         else if \<not> wf_kitchen wf \<and> \<not> wf_production wf then (tickets, [])
         else if ro_stations r = [] then (tickets, [])
         else fold (issue_station env po (route_lines_to_stations lines r) ticketed course)
                (ro_stations r) (tickets, []))"

definition create_kds_tickets_for_order :: "issue_env \<Rightarrow> pos_order \<Rightarrow> kds_ticket list \<Rightarrow> kds_ticket list \<times> kds_event list" where
  "create_kds_tickets_for_order env po tickets =
     (if \<not> ie_lines_ok env then (tickets, []) else issue_kds_tickets env po (po_lines po) True 0 tickets)"

definition create_kds_tickets_for_new_lines ::
  "issue_env \<Rightarrow> pos_order \<Rightarrow> order_line list \<Rightarrow> kds_ticket list \<Rightarrow> kds_ticket list \<times> kds_event list" where
  "create_kds_tickets_for_new_lines env po new_lines tickets = issue_kds_tickets env po new_lines False 0 tickets"

definition fire_course_kds ::
  "issue_env \<Rightarrow> pos_order \<Rightarrow> int \<Rightarrow> kds_ticket list \<Rightarrow> kds_ticket list \<times> kds_event list" where
  "fire_course_kds env po course tickets =
     (let course_lines = filter (\<lambda>l. ol_course l = course) (po_lines po)
      in if course_lines = [] then (tickets, []) else issue_kds_tickets env po course_lines False course tickets)"

section \<open>Closing tickets\<close>

definition close_order_tickets ::
  "bool \<Rightarrow> time \<Rightarrow> uuid \<Rightarrow> uuid \<Rightarrow> ticket_status \<Rightarrow> kds_ticket list \<Rightarrow> kds_ticket list" where
  "close_order_tickets ok now tid order_id to tickets =
     (if \<not> ok then tickets
      else map (\<lambda>t. if kt_tenant t = tid \<and> kt_order t = order_id \<and> ticket_open t
                    then t\<lparr>kt_status := to, kt_completed_at := Some now\<rparr> else t) tickets)"

section \<open>The board\<close>

text \<open>
  \<open>kds_db\<close>: the ticket table, the orders, and the online order each is linked to (the empty string
  without a link). \<open>board_env\<close>: the caller's tenant and outlet, the outlet of every station (\<open>None\<close>
  for a station that is gone), the clock, and which statements succeed.
\<close>

record kds_db =
  kd_tickets :: "kds_ticket list"
  kd_orders :: "uuid \<rightharpoonup> pos_order"
  kd_external :: "uuid \<Rightarrow> string"

record board_env =
  be_tenant :: uuid
  be_outlet :: "uuid option"
  be_station_outlet :: "uuid \<Rightarrow> uuid option"
  be_now :: time
  be_publisher :: bool
  be_notif :: bool
  be_update_ok :: bool
  be_count_ok :: bool
  be_order_ok :: bool

datatype board_error = Ticket_Not_Found | Update_Failed

definition st_ready_for_pickup :: string where
  "st_ready_for_pickup = ''ready_for_pickup''"

text \<open>\<open>UPDATE pos_orders SET status = to WHERE id = .. AND tenant = .. AND status = 'open'\<close>.\<close>

definition move_open_order :: "uuid \<Rightarrow> uuid \<Rightarrow> string \<Rightarrow> kds_db \<Rightarrow> kds_db" where
  "move_open_order tid oid to db =
     (case kd_orders db oid of
        Some po \<Rightarrow> if po_tenant po = tid \<and> po_status po = st_open
                    then db\<lparr>kd_orders := (kd_orders db)(oid \<mapsto> po\<lparr>po_status := to\<rparr>)\<rparr> else db
      | None \<Rightarrow> db)"

definition settle_online_order_served :: "board_env \<Rightarrow> uuid \<Rightarrow> kds_db \<Rightarrow> bool \<times> kds_db \<times> kds_event list" where
  "settle_online_order_served env oid db =
     (if kd_external db oid = [] then (False, db, [])
      else (True,
            if be_order_ok env then move_open_order (be_tenant env) oid st_ready_for_pickup db else db,
            if be_publisher env then [Order_Ready oid (kd_external db oid)] else []))"

definition sync_order_on_all_served :: "board_env \<Rightarrow> uuid \<Rightarrow> kds_db \<Rightarrow> kds_db \<times> kds_event list" where
  "sync_order_on_all_served env oid db =
     (if \<not> be_count_ok env
         \<or> list_ex (\<lambda>t. kt_tenant t = be_tenant env \<and> kt_order t = oid \<and> ticket_open t) (kd_tickets db)
      then (db, [])
      else case settle_online_order_served env oid db of
        (online, db', evs) \<Rightarrow>
          if online then (db', evs)
          else (case kd_orders db oid of
                  Some po \<Rightarrow>
                    if po_tenant po = be_tenant env \<and> po_status po = st_open \<and> be_order_ok env
                    then (move_open_order (be_tenant env) oid st_pending_payment db,
                          if be_notif env then [Ready_For_Payment (po_user po) oid] else [])
                    else (db, [])
                | None \<Rightarrow> (db, [])))"

definition publish_order_ready_if_all_ready :: "board_env \<Rightarrow> uuid \<Rightarrow> kds_db \<Rightarrow> kds_db \<times> kds_event list" where
  "publish_order_ready_if_all_ready env oid db =
     (if \<not> be_count_ok env
         \<or> list_ex (\<lambda>t. kt_tenant t = be_tenant env \<and> kt_order t = oid
                       \<and> (kt_status t = Pending \<or> kt_status t = In_Progress)) (kd_tickets db)
      then (db, [])
      else (if kd_external db oid \<noteq> [] \<and> be_order_ok env
            then move_open_order (be_tenant env) oid st_ready_for_pickup db else db,
            [Order_Ready oid (kd_external db oid)]))"

definition publish_online_preparing :: "board_env \<Rightarrow> kds_ticket \<Rightarrow> kds_db \<Rightarrow> kds_event list" where
  "publish_online_preparing env t db =
     (if \<not> be_publisher env \<or> kd_external db (kt_order t) = [] then []
      else if be_count_ok env
              \<and> list_ex (\<lambda>u. kt_tenant u = be_tenant env \<and> kt_order u = kt_order t \<and> kt_id u \<noteq> kt_id t
                           \<and> (kt_status u = In_Progress \<or> kt_status u = Ready \<or> kt_status u = Served)) (kd_tickets db)
           then []
      else [Online_Preparing (kt_order t) (kd_external db (kt_order t))])"

definition stamp_ticket :: "time \<Rightarrow> ticket_status \<Rightarrow> kds_ticket \<Rightarrow> kds_ticket" where
  "stamp_ticket now to t =
     (let t = t\<lparr>kt_status := to\<rparr>
      in if to = In_Progress then t\<lparr>kt_started_at := Some now\<rparr>
         else if to = Ready \<or> to = Served \<or> to = Voided then t\<lparr>kt_completed_at := Some now\<rparr>
         else t)"

definition transition_ticket ::
  "board_env \<Rightarrow> uuid \<Rightarrow> ticket_status \<Rightarrow> kds_db \<Rightarrow> (board_error + kds_event list) \<times> kds_db" where
  "transition_ticket env tkt to db =
     (case find (\<lambda>t. kt_id t = tkt \<and> kt_tenant t = be_tenant env) (kd_tickets db) of
        None \<Rightarrow> (Inl Ticket_Not_Found, db)
      | Some t \<Rightarrow>
          if be_outlet env \<noteq> None \<and> be_station_outlet env (kt_station t) \<noteq> be_outlet env
          then (Inl Ticket_Not_Found, db)
          else if \<not> be_update_ok env then (Inl Update_Failed, db)
          else
            (let db = db\<lparr>kd_tickets := map (\<lambda>u. if kt_id u = tkt then stamp_ticket (be_now env) to u else u)
                          (kd_tickets db)\<rparr>;
                 cast = (if be_station_outlet env (kt_station t) \<noteq> None then [Ticket_Updated tkt to] else []);
                 preparing = (if to = In_Progress then publish_online_preparing env t db else []);
                 ready = (if to = Ready \<and> be_publisher env
                          then publish_order_ready_if_all_ready env (kt_order t) db else (db, []));
                 served = (if to = Served then sync_order_on_all_served env (kt_order t) (fst ready)
                           else (fst ready, []))
             in (Inr (cast @ preparing @ snd ready @ snd served), fst served)))"

definition clear_tickets :: "board_env \<Rightarrow> int option \<Rightarrow> kds_db \<Rightarrow> (board_error + nat) \<times> kds_db" where
  "clear_tickets env older_than_hours db =
     (let hit = (\<lambda>t. kt_tenant t = be_tenant env \<and> ticket_open t
                  \<and> (be_outlet env = None \<or> be_station_outlet env (kt_station t) = be_outlet env)
                  \<and> (case older_than_hours of
                       Some n \<Rightarrow> n > 0 \<longrightarrow> kt_received_at t < be_now env - n * 3600000000000
                     | None \<Rightarrow> True))
      in if \<not> be_update_ok env then (Inl Update_Failed, db)
         else (Inr (length (filter hit (kd_tickets db))),
               db\<lparr>kd_tickets := map (\<lambda>t. if hit t then t\<lparr>kt_status := Served, kt_completed_at := Some (be_now env)\<rparr>
                    else t) (kd_tickets db)\<rparr>))"

section \<open>Routing loses no line\<close>

lemma fold_push: "fold (push_item l) sts m s = m s @ replicate (count_list sts s) l"
  by (induction sts arbitrary: m) (auto simp: push_item_def replicate_app_Cons_same)

definition line_stations :: "router \<Rightarrow> order_line \<Rightarrow> uuid list" where
  "line_stations r l =
     (case owner r (ol_name l) (ol_category l) (ol_station l) of
        Some target \<Rightarrow> [target]
      | None \<Rightarrow> if copy_stations r \<noteq> [] then copy_stations r else map ks_id (take 1 (ro_stations r)))"

lemma route_line_eq: "route_line r l m s = m s @ replicate (count_list (line_stations r l) s) (ol_id l)"
  by (auto simp: route_line_def line_stations_def fold_push push_item_def split: option.split list.split)

lemma fold_route:
  "fold (route_line r) lines m s =
     m s @ concat (map (\<lambda>l. replicate (count_list (line_stations r l) s) (ol_id l)) lines)"
  by (induction lines arbitrary: m) (auto simp: route_line_eq)

lemma routed_items:
  "set (route_lines_to_stations lines r s) = {ol_id l | l. l \<in> set lines \<and> s \<in> set (line_stations r l)}"
  by (auto simp: route_lines_to_stations_def fold_route count_list_0_iff)

lemma line_stations_active:
  assumes "s \<in> set (line_stations (new_router sts t) l)"
  shows "\<exists>st \<in> set (ro_stations (new_router sts t)). ks_id st = s"
proof (cases "owner (new_router sts t) (ol_name l) (ol_category l) (ol_station l)")
  case None
  then show ?thesis using assms
    by (auto simp: line_stations_def copy_stations_def dest: in_set_takeD split: if_splits)
next
  case (Some target)
  then show ?thesis using assms owner_active [OF Some]
    by (auto simp: line_stations_def)
qed

lemma line_stations_nonempty: "ro_stations r \<noteq> [] \<Longrightarrow> line_stations r l \<noteq> []"
  by (cases "ro_stations r") (auto simp: line_stations_def split: option.split)

section \<open>Issuing\<close>

definition gets_ticket :: "issue_env \<Rightarrow> (uuid \<Rightarrow> uuid list) \<Rightarrow> (uuid \<Rightarrow> bool) \<Rightarrow> station \<Rightarrow> bool" where
  "gets_ticket env items ticketed st \<longleftrightarrow>
     items (ks_id st) \<noteq> [] \<and> \<not> ticketed (ks_id st) \<and> ie_insert_ok env (ks_id st)"

lemma fold_issue:
  "fst (fold (issue_station env po items ticketed course) sts acc) =
     fst acc @ map (\<lambda>st. new_ticket env po (ks_id st) (items (ks_id st))) (filter (gets_ticket env items ticketed) sts)"
  by (induction sts arbitrary: acc) (auto simp: issue_station_def gets_ticket_def Let_def)

lemma fold_issue_none:
  "filter (gets_ticket env items ticketed) sts = [] \<Longrightarrow> fold (issue_station env po items ticketed course) sts acc = acc"
  by (induction sts arbitrary: acc) (auto simp: issue_station_def gets_ticket_def Let_def split: if_splits)

definition issues :: "issue_env \<Rightarrow> pos_order \<Rightarrow> order_line list \<Rightarrow> bool" where
  "issues env po lines \<longleftrightarrow> lines \<noteq> [] \<and> kds_enabled_for_outlet env \<and>
     (wf_kitchen (workflow_for (ie_use_case env) (po_subtype po)) \<or>
      wf_production (workflow_for (ie_use_case env) (po_subtype po)))"

definition issue_targets :: "issue_env \<Rightarrow> pos_order \<Rightarrow> order_line list \<Rightarrow> bool \<Rightarrow> kds_ticket list \<Rightarrow> station list" where
  "issue_targets env po lines first tickets =
     filter (gets_ticket env (route_lines_to_stations lines (new_router (ie_stations env) (ie_tree env)))
        (\<lambda>sid. first \<and> ie_lookup_ok env \<and> list_ex (\<lambda>t. kt_order t = po_id po \<and> kt_station t = sid) tickets))
       (ro_stations (new_router (ie_stations env) (ie_tree env)))"

lemma issue_tickets_eq:
  "fst (issue_kds_tickets env po lines first course tickets) =
     (if issues env po lines
      then tickets @ map (\<lambda>st. new_ticket env po (ks_id st)
             (route_lines_to_stations lines (new_router (ie_stations env) (ie_tree env)) (ks_id st)))
             (issue_targets env po lines first tickets)
      else tickets)"
  by (auto simp: issue_kds_tickets_def issues_def issue_targets_def fold_issue Let_def)

text \<open>
  C31. No line is lost on the way to the kitchen: when an order is routed for the first time, its lines
  can be read and every insert succeeds, each of its lines is on a pending ticket of an active
  station.
\<close>

theorem every_line_reaches_a_station:
  assumes "issues env po (po_lines po)" "\<exists>st \<in> set (ie_stations env). ks_active st"
    "ie_lines_ok env" "\<forall>sid. ie_insert_ok env sid" "\<forall>t \<in> set tickets. kt_order t \<noteq> po_id po" "l \<in> set (po_lines po)"
  shows "\<exists>t \<in> set (fst (create_kds_tickets_for_order env po tickets)).
    kt_order t = po_id po \<and> ol_id l \<in> set (kt_items t) \<and> kt_status t = Pending \<and>
    kt_station t \<in> ks_id ` {st \<in> set (ie_stations env). ks_active st}"
proof -
  let ?r = "new_router (ie_stations env) (ie_tree env)"
  let ?items = "route_lines_to_stations (po_lines po) ?r"
  have "ro_stations ?r \<noteq> []" using assms(2) ro_stations_new [of "ie_stations env" "ie_tree env"] by auto
  then obtain s where s: "s \<in> set (line_stations ?r l)"
    using line_stations_nonempty by (meson hd_in_set)
  then obtain st where st: "st \<in> set (ro_stations ?r)" "ks_id st = s" using line_stations_active by blast
  have item: "ol_id l \<in> set (?items s)" using s assms(6) by (auto simp: routed_items)
  then have "st \<in> set (issue_targets env po (po_lines po) True tickets)"
    using st assms(4,5) by (auto simp: issue_targets_def gets_ticket_def list_ex_iff)
  then have "new_ticket env po s (?items s) \<in> set (fst (create_kds_tickets_for_order env po tickets))"
    using st(2) assms(1,3) by (auto simp: create_kds_tickets_for_order_def issue_tickets_eq)
  moreover have "s \<in> ks_id ` {st \<in> set (ie_stations env). ks_active st}"
    using st ro_stations_new by auto
  ultimately show ?thesis using item by (intro bexI) (auto simp: new_ticket_def)
qed

text \<open>At most one ticket of the order per station.\<close>

definition one_per_station :: "uuid \<Rightarrow> kds_ticket list \<Rightarrow> bool" where
  "one_per_station oid tickets \<longleftrightarrow> distinct (map kt_station (filter (\<lambda>t. kt_order t = oid) tickets))"

lemma distinct_active:
  assumes "distinct (map ks_id sts)"
  shows "distinct (map ks_id (ro_stations (new_router sts t)))"
proof -
  have "mset (map ks_id (ro_stations (new_router sts t))) = mset (map ks_id (filter ks_active sts))"
    by (simp add: new_router_def Let_def)
  moreover have "distinct (map ks_id (filter ks_active sts))" using assms by (rule distinct_map_filter)
  ultimately show ?thesis by (metis mset_eq_imp_distinct_iff)
qed

text \<open>
  Creating an order's first tickets is idempotent, whatever path reaches it again: with the
  lookup of existing tickets working, a second call adds no ticket and sends no message, and there
  is never a second ticket of the order at a station.
\<close>

theorem first_round_idempotent:
  assumes "ie_lookup_ok env" "\<forall>sid. ie_insert_ok env sid" "distinct (map ks_id (ie_stations env))"
    "one_per_station (po_id po) tickets" "tickets' = fst (create_kds_tickets_for_order env po tickets)"
  shows "create_kds_tickets_for_order env po tickets' = (tickets', []) \<and> one_per_station (po_id po) tickets'"
proof (cases "ie_lines_ok env \<and> issues env po (po_lines po)")
  case False
  then show ?thesis using assms
    by (auto simp: create_kds_tickets_for_order_def issue_tickets_eq)
      (auto simp: issue_kds_tickets_def issues_def Let_def)
next
  case True
  let ?r = "new_router (ie_stations env) (ie_tree env)"
  let ?items = "route_lines_to_stations (po_lines po) ?r"
  let ?targets = "issue_targets env po (po_lines po) True"
  have t': "tickets' = tickets @ map (\<lambda>st. new_ticket env po (ks_id st) (?items (ks_id st))) (?targets tickets)"
    using True assms(5) by (simp add: create_kds_tickets_for_order_def issue_tickets_eq)
  have none: "?targets tickets' = []"
  proof (rule ccontr)
    assume "?targets tickets' \<noteq> []"
    then obtain st where st: "st \<in> set (?targets tickets')" by (meson hd_in_set)
    then have fresh: "\<forall>t \<in> set tickets'. kt_order t = po_id po \<longrightarrow> kt_station t \<noteq> ks_id st"
      using assms(1) by (auto simp: issue_targets_def gets_ticket_def list_ex_iff)
    then have "st \<in> set (?targets tickets)"
      using st unfolding t' by (auto simp: issue_targets_def gets_ticket_def list_ex_iff)
    then have "new_ticket env po (ks_id st) (?items (ks_id st)) \<in> set tickets'" unfolding t' by auto
    then show False using fresh by (auto simp: new_ticket_def)
  qed
  have "create_kds_tickets_for_order env po tickets' = (tickets', [])"
    using none unfolding create_kds_tickets_for_order_def issue_kds_tickets_def issue_targets_def Let_def
    by (auto intro: fold_issue_none)
  moreover have "one_per_station (po_id po) tickets'"
  proof -
    have "distinct (map ks_id (?targets tickets))"
      unfolding issue_targets_def using distinct_active [OF assms(3)] by (rule distinct_map_filter)
    moreover have "\<forall>st \<in> set (?targets tickets). \<forall>t \<in> set tickets. kt_order t = po_id po \<longrightarrow> kt_station t \<noteq> ks_id st"
      using assms(1) by (auto simp: issue_targets_def gets_ticket_def list_ex_iff)
    ultimately show ?thesis using assms(4) unfolding t' one_per_station_def
      by (auto simp: new_ticket_def comp_def)
  qed
  ultimately show ?thesis by simp
qed

definition sample_env :: issue_env where
  "sample_env = \<lparr>ie_enable_kds = Some True, ie_use_case = ''restaurant'', ie_stations = sample_stations,
     ie_tree = None, ie_lines_ok = True, ie_lookup_ok = True, ie_insert_ok = (\<lambda>_. True), ie_new_id = (\<lambda>s. s + 100),
     ie_now = 0, ie_hub = True\<rparr>"

definition kitchen_line :: "uuid \<Rightarrow> string \<Rightarrow> string \<Rightarrow> order_line" where
  "kitchen_line i name cat = \<lparr>ol_id = i, ol_created_at = None, ol_catalog_item = i, ol_sku = [], ol_name = name,
     ol_category = cat, ol_quantity = 1, ol_unit_price = 100, ol_total_price = 100, ol_tax_code = [],
     ol_kra_code = [], ol_tax_rate = None, ol_tax_amount = None, ol_inclusive = True, ol_course = 1,
     ol_station = None, ol_metadata = [], ol_voided_qty = None\<rparr>"

definition kitchen_order :: pos_order where
  "kitchen_order = \<lparr>po_id = 50, po_tenant = 2, po_outlet = 3, po_device = 4, po_user = 5, po_served_by = None,
     po_number = ''000009'', po_client_ref = None, po_offline_created_at = None, po_status = ''open'',
     po_source = [], po_subtotal = 200, po_tax_total = 0, po_discount_total = 0, po_total_amount = 200,
     po_charges_total = 0, po_round_off = 0, po_paid_total = 0, po_currency = ''KES'', po_subtype = ''dine_in'',
     po_metadata = [(''table_number'', JStr ''5'')], po_customer_phone = None, po_customer_name = None,
     po_business_date = None, po_created_at = 0,
     po_lines = [kitchen_line 11 ''Steak'' ''Mains'', kitchen_line 12 ''Merlot'' ''Wine'']\<rparr>"

lemma sample_issues: "issues sample_env kitchen_order (po_lines kitchen_order)"
  by code_simp

theorem every_line_reaches_a_station_witness:
  "\<exists>t \<in> set (fst (create_kds_tickets_for_order sample_env kitchen_order [])).
    kt_order t = po_id kitchen_order \<and> 12 \<in> set (kt_items t) \<and> kt_status t = Pending \<and>
    kt_station t \<in> ks_id ` {st \<in> set (ie_stations sample_env). ks_active st}"
proof -
  have "ol_id (kitchen_line 12 ''Merlot'' ''Wine'') = 12" by (simp add: kitchen_line_def)
  then show ?thesis
    using every_line_reaches_a_station [OF sample_issues, of "[]" "kitchen_line 12 ''Merlot'' ''Wine''"]
    by (simp add: sample_env_def sample_stations_def kitchen_order_def)
qed

theorem first_round_idempotent_witness:
  "\<exists>ts. length ts = 2 \<and> fst (create_kds_tickets_for_order sample_env kitchen_order []) = ts \<and>
     create_kds_tickets_for_order sample_env kitchen_order ts = (ts, [])"
proof -
  have "length (fst (create_kds_tickets_for_order sample_env kitchen_order [])) = 2" by code_simp
  moreover have "distinct (map ks_id (ie_stations sample_env))" "\<forall>sid. ie_insert_ok sample_env sid"
    "ie_lookup_ok sample_env" "one_per_station (po_id kitchen_order) []"
    by (simp_all add: sample_env_def sample_stations_def one_per_station_def)
  ultimately show ?thesis
    using first_round_idempotent [of sample_env kitchen_order "[]", OF _ _ _ _ refl] by blast
qed

section \<open>Closing and bumping\<close>

text \<open>
  Settling or voiding an order leaves none of its tickets on the live board, touches no other
  order's ticket and none that was already served or voided, and doing it again changes nothing.
\<close>

theorem close_order_tickets_spec:
  assumes "to = Served \<or> to = Voided" "tickets' = close_order_tickets True now tid oid to tickets"
  shows "length tickets' = length tickets \<and>
    (\<forall>t \<in> set tickets'. kt_tenant t = tid \<and> kt_order t = oid \<longrightarrow> \<not> ticket_open t) \<and>
    (\<forall>i < length tickets. (kt_tenant (tickets ! i) = tid \<and> kt_order (tickets ! i) = oid \<and> ticket_open (tickets ! i)) \<or>
       tickets' ! i = tickets ! i) \<and>
    close_order_tickets True now' tid oid to tickets' = tickets'"
proof -
  define hit where "hit = (\<lambda>t. kt_tenant t = tid \<and> kt_order t = oid \<and> ticket_open t)"
  define f where "f = (\<lambda>t. if hit t then t\<lparr>kt_status := to, kt_completed_at := Some now\<rparr> else t)"
  have t': "tickets' = map f tickets" using assms(2) by (simp add: close_order_tickets_def f_def hit_def)
  have off: "\<not> hit (f t)" for t using assms(1) by (auto simp: f_def hit_def ticket_open_def)
  have "close_order_tickets True now' tid oid to tickets' = tickets'"
    unfolding t' close_order_tickets_def using off by (auto simp: hit_def intro!: map_idI)
  moreover have "\<forall>t \<in> set tickets'. kt_tenant t = tid \<and> kt_order t = oid \<longrightarrow> \<not> ticket_open t"
    using off unfolding t' by (auto simp: hit_def)
  moreover have "\<forall>i < length tickets. hit (tickets ! i) \<or> tickets' ! i = tickets ! i"
    unfolding t' by (simp add: f_def)
  ultimately show ?thesis using t' by (simp add: hit_def)
qed

theorem close_order_tickets_spec_witness:
  "length (close_order_tickets True 9 2 50 Served (fst (create_kds_tickets_for_order sample_env kitchen_order []))) = 2 \<and>
   filter (\<lambda>t. kt_tenant t = 2 \<and> kt_order t = 50 \<and> ticket_open t)
     (close_order_tickets True 9 2 50 Served (fst (create_kds_tickets_for_order sample_env kitchen_order []))) = []"
proof -
  have "length (fst (create_kds_tickets_for_order sample_env kitchen_order [])) = 2" by code_simp
  then show ?thesis
    using close_order_tickets_spec [OF disjI1 [OF refl] refl, of 9 2 50
      "fst (create_kds_tickets_for_order sample_env kitchen_order [])"] by (simp add: filter_empty_conv)
qed

text \<open>What the board may do to an order: move an open one on, and nothing else.\<close>

definition board_move :: "board_env \<Rightarrow> uuid \<Rightarrow> kds_db \<Rightarrow> kds_db \<Rightarrow> bool" where
  "board_move env oid db db' \<longleftrightarrow>
     (\<exists>po s. kd_orders db oid = Some po \<and> po_tenant po = be_tenant env \<and> po_status po = st_open \<and>
        kd_orders db' = (kd_orders db)(oid \<mapsto> po\<lparr>po_status := s\<rparr>) \<and>
        (s = st_ready_for_pickup \<and> kd_external db oid \<noteq> [] \<or>
         s = st_pending_payment \<and> kd_external db oid = [] \<and>
         (\<forall>t \<in> set (kd_tickets db). kt_tenant t = be_tenant env \<and> kt_order t = oid \<longrightarrow> \<not> ticket_open t)))"

lemma move_open_order_cases:
  "move_open_order tid oid to db = db \<or>
   (\<exists>po. kd_orders db oid = Some po \<and> po_tenant po = tid \<and> po_status po = st_open \<and>
      move_open_order tid oid to db = db\<lparr>kd_orders := (kd_orders db)(oid \<mapsto> po\<lparr>po_status := to\<rparr>)\<rparr>)"
  by (auto simp: move_open_order_def split: option.split)

lemma move_open_order_tickets [simp]:
  "kd_tickets (move_open_order tid oid to db) = kd_tickets db"
  "kd_external (move_open_order tid oid to db) = kd_external db"
  by (auto simp: move_open_order_def split: option.split)

lemma sync_move:
  "fst (sync_order_on_all_served env oid db) = db \<or> board_move env oid db (fst (sync_order_on_all_served env oid db))"
proof (cases "\<not> be_count_ok env \<or> list_ex (\<lambda>t. kt_tenant t = be_tenant env \<and> kt_order t = oid \<and> ticket_open t) (kd_tickets db)")
  case True
  then show ?thesis by (simp add: sync_order_on_all_served_def)
next
  case False
  then have closed: "\<forall>t \<in> set (kd_tickets db). kt_tenant t = be_tenant env \<and> kt_order t = oid \<longrightarrow> \<not> ticket_open t"
    by (auto simp: list_ex_iff)
  show ?thesis
  proof (cases "kd_external db oid = []")
    case True
    then show ?thesis using False closed move_open_order_cases [of "be_tenant env" oid st_pending_payment db]
      by (auto simp: sync_order_on_all_served_def settle_online_order_served_def board_move_def split: option.split)
  next
    case ext: False
    then show ?thesis using False move_open_order_cases [of "be_tenant env" oid st_ready_for_pickup db]
      by (auto simp: sync_order_on_all_served_def settle_online_order_served_def board_move_def)
  qed
qed

lemma ready_move:
  "fst (publish_order_ready_if_all_ready env oid db) = db \<or>
   board_move env oid db (fst (publish_order_ready_if_all_ready env oid db))"
  using move_open_order_cases [of "be_tenant env" oid st_ready_for_pickup db]
  by (auto simp: publish_order_ready_if_all_ready_def board_move_def)

text \<open>
  Bumping tickets never reopens, completes or voids a sale: an order changes only when it is the
  bumped ticket's order, is still open and belongs to the caller's tenant; it then moves to
  pending payment once no ticket of it is open, or, when it is an online order, to ready for pickup.
\<close>

theorem bump_moves_only_open_orders:
  assumes "transition_ticket env tkt to db = (res, db')"
  shows "kd_orders db' = kd_orders db \<or>
    (\<exists>t \<in> set (kd_tickets db). kt_id t = tkt \<and> board_move env (kt_order t) (db\<lparr>kd_tickets := kd_tickets db'\<rparr>) db')"
proof (cases "find (\<lambda>t. kt_id t = tkt \<and> kt_tenant t = be_tenant env) (kd_tickets db)")
  case None
  then show ?thesis using assms by (simp add: transition_ticket_def)
next
  case (Some t)
  then have t: "t \<in> set (kd_tickets db)" "kt_id t = tkt" by (auto simp: find_Some_iff)
  define db1 where "db1 = db\<lparr>kd_tickets := map (\<lambda>u. if kt_id u = tkt then stamp_ticket (be_now env) to u else u) (kd_tickets db)\<rparr>"
  show ?thesis
  proof (cases "res")
    case (Inl e)
    then show ?thesis using assms Some by (auto simp: transition_ticket_def Let_def split: if_splits)
  next
    case (Inr evs)
    have d: "db' = (if to = Ready \<and> be_publisher env then fst (publish_order_ready_if_all_ready env (kt_order t) db1)
        else if to = Served then fst (sync_order_on_all_served env (kt_order t) db1) else db1)"
      using assms Some Inr by (auto simp: transition_ticket_def Let_def db1_def split: if_splits)
    have "db' = db1 \<or> board_move env (kt_order t) db1 db'"
      unfolding d using sync_move [of env "kt_order t" db1] ready_move [of env "kt_order t" db1] by auto
    moreover have "kd_tickets db' = kd_tickets db1" unfolding d
      by (auto simp: sync_order_on_all_served_def settle_online_order_served_def publish_order_ready_if_all_ready_def
        split: option.split)
    ultimately show ?thesis using t by (auto simp: db1_def)
  qed
qed

definition sample_board :: board_env where
  "sample_board = \<lparr>be_tenant = 2, be_outlet = Some 3, be_station_outlet = (\<lambda>_. Some 3), be_now = 7,
     be_publisher = True, be_notif = True, be_update_ok = True, be_count_ok = True, be_order_ok = True\<rparr>"

definition sample_db :: kds_db where
  "sample_db = \<lparr>kd_tickets = fst (create_kds_tickets_for_order sample_env (kitchen_order\<lparr>po_lines := [kitchen_line 11 ''Steak'' ''Mains'']\<rparr>) []),
     kd_orders = [50 \<mapsto> kitchen_order], kd_external = (\<lambda>_. [])\<rparr>"

lemma sample_bump:
  "map_option po_status (kd_orders (snd (transition_ticket sample_board 101 Served sample_db)) 50) = Some ''pending_payment''"
  by code_simp

theorem bump_moves_only_open_orders_witness:
  "\<exists>db'. snd (transition_ticket sample_board 101 Served sample_db) = db' \<and>
     map_option po_status (kd_orders db' 50) = Some ''pending_payment'' \<and>
     (\<exists>t \<in> set (kd_tickets sample_db). kt_id t = 101 \<and>
        board_move sample_board (kt_order t) (sample_db\<lparr>kd_tickets := kd_tickets db'\<rparr>) db')"
proof -
  let ?x = "transition_ticket sample_board 101 Served sample_db"
  have "kd_orders (snd ?x) \<noteq> kd_orders sample_db"
  proof
    assume same: "kd_orders (snd ?x) = kd_orders sample_db"
    have "map_option po_status (kd_orders sample_db 50) = Some ''pending_payment''"
      using sample_bump unfolding same .
    then show False by (simp add: sample_db_def kitchen_order_def)
  qed
  then show ?thesis
    using sample_bump bump_moves_only_open_orders [of sample_board 101 Served sample_db "fst ?x" "snd ?x"] by auto
qed

text \<open>
  ``Clear board'' serves exactly the open tickets of the caller's tenant and outlet that are old
  enough, reports how many they were, and changes no order.
\<close>

theorem clear_tickets_counts:
  assumes "clear_tickets env older db = (Inr n, db')"
  shows "kd_orders db' = kd_orders db \<and>
    n = length (filter ticket_open (kd_tickets db)) - length (filter ticket_open (kd_tickets db')) \<and>
    (\<forall>t \<in> set (kd_tickets db'). ticket_open t \<longrightarrow> t \<in> set (kd_tickets db))"
proof -
  define hit where "hit = (\<lambda>t. kt_tenant t = be_tenant env \<and> ticket_open t
      \<and> (be_outlet env = None \<or> be_station_outlet env (kt_station t) = be_outlet env)
      \<and> (case older of Some n \<Rightarrow> n > 0 \<longrightarrow> kt_received_at t < be_now env - n * 3600000000000 | None \<Rightarrow> True))"
  define f where "f = (\<lambda>t. if hit t then t\<lparr>kt_status := Served, kt_completed_at := Some (be_now env)\<rparr> else t)"
  have db': "db' = db\<lparr>kd_tickets := map f (kd_tickets db)\<rparr>" "n = length (filter hit (kd_tickets db))"
    using assms by (auto simp: clear_tickets_def hit_def f_def Let_def split: if_splits)
  have "length (filter ticket_open ts) = length (filter hit ts) + length (filter ticket_open (map f ts))" for ts
    by (induction ts) (auto simp: f_def hit_def ticket_open_def)
  then show ?thesis unfolding db' by (auto simp: f_def ticket_open_def)
qed

theorem clear_tickets_counts_witness:
  "\<exists>db'. clear_tickets sample_board None sample_db = (Inr 1, db') \<and> kd_orders db' = kd_orders sample_db"
proof -
  have "fst (clear_tickets sample_board None sample_db) = Inr 1" by code_simp
  then have "clear_tickets sample_board None sample_db = (Inr 1, snd (clear_tickets sample_board None sample_db))"
    by (simp add: prod_eq_iff)
  then show ?thesis using clear_tickets_counts by blast
qed

end
