(* ===== verification/Order_Status.thy ===== *)
theory Order_Status
  imports Kds_Tickets Order_Totals
begin

text \<open>
  The order's status machine and the operations that move an order without touching its money:
  \<open>validTransitions\<close>, \<open>UpdateStatus\<close>, \<open>ReleaseHeldOrder\<close>, \<open>UpdateSaleInfo\<close> of
  \<open>internal/modules/orders/service.go\<close>, and the bulk void and draft deletion of
  \<open>internal/http/handlers/orders_bulk.go\<close>. The state is the kitchen database of \<open>Kds_Tickets\<close>
  (tickets and orders). The lemmas show that the machine only moves forward, that a closed order has
  no live tickets, that releasing happens once, and what a bulk request may change.
\<close>

section \<open>The machine\<close>

definition valid_transitions :: "string \<rightharpoonup> string list" where
  "valid_transitions =
     [st_draft \<mapsto> [st_open, st_pending_payment, st_completed, st_cancelled, st_voided],
      st_open \<mapsto> [st_pending_payment, st_completed, st_cancelled, st_voided],
      st_awaiting_acceptance \<mapsto> [st_open, st_cancelled, st_voided],
      st_pending_payment \<mapsto> [st_completed, st_cancelled, st_voided],
      st_completed \<mapsto> [st_refunded],
      st_cancelled \<mapsto> [],
      st_refunded \<mapsto> [],
      st_voided \<mapsto> []]"

datatype status_error =
    Unknown_Status string
  | Invalid_Transition string string
  | Status_Order_Not_Found
  | Status_Db_Error

definition validate_status_transition :: "string \<Rightarrow> string \<Rightarrow> status_error + unit" where
  "validate_status_transition current next =
     (case valid_transitions current of
        None \<Rightarrow> Inl (Unknown_Status current)
      | Some allowed \<Rightarrow> if next \<in> set allowed then Inr () else Inl (Invalid_Transition current next))"

section \<open>Operations\<close>

datatype order_event =
    Kds kds_event
  | Status_Changed uuid string string
  | Auto_Print uuid bool

record status_env =
  se_write_ok :: bool
  se_reload_ok :: bool
  se_close_ok :: bool
  se_publisher :: bool
  se_now :: time
  se_issue :: issue_env

definition find_order :: "uuid \<Rightarrow> uuid \<Rightarrow> kds_db \<Rightarrow> pos_order option" where
  "find_order tid oid db =
     (case kd_orders db oid of Some po \<Rightarrow> if po_tenant po = tid then Some po else None | None \<Rightarrow> None)"

definition set_status :: "uuid \<Rightarrow> string \<Rightarrow> kds_db \<Rightarrow> kds_db" where
  "set_status oid s db =
     db\<lparr>kd_orders := (kd_orders db)(oid := map_option (\<lambda>po. po\<lparr>po_status := s\<rparr>) (kd_orders db oid))\<rparr>"

text \<open>
  \<open>UpdateStatus\<close> reads the order, validates the step from the status it read, and then writes the new
  status by id, without a lock and without looking at the row again: \<open>write_status\<close> is that second
  half, on a status read earlier. \<open>update_status\<close> runs both halves with nothing in between.
\<close>

definition write_status ::
  "status_env \<Rightarrow> uuid \<Rightarrow> uuid \<Rightarrow> string \<Rightarrow> string \<Rightarrow> kds_db \<Rightarrow> (status_error + order_event list) \<times> kds_db" where
  "write_status env tid oid previous new db =
     (case kd_orders db oid of
        None \<Rightarrow> (Inl Status_Db_Error, db)
      | Some row \<Rightarrow>
          if \<not> se_write_ok env then (Inl Status_Db_Error, db)
          else
            (let db = set_status oid new db;
                 tickets =
                   (if new = st_completed
                    then close_order_tickets (se_close_ok env) (se_now env) tid oid Served (kd_tickets db)
                    else if new = st_voided \<or> new = st_cancelled
                    then close_order_tickets (se_close_ok env) (se_now env) tid oid Voided (kd_tickets db)
                    else kd_tickets db);
                 changed = (if se_publisher env then [Status_Changed oid previous new] else []);
                 issued = (if new = st_open
                           then create_kds_tickets_for_order (se_issue env) (row\<lparr>po_status := new\<rparr>) tickets
                           else (tickets, []))
             in (Inr (changed @ map Kds (snd issued)), db\<lparr>kd_tickets := fst issued\<rparr>)))"

definition update_status ::
  "status_env \<Rightarrow> uuid \<Rightarrow> uuid \<Rightarrow> string \<Rightarrow> kds_db \<Rightarrow> (status_error + order_event list) \<times> kds_db" where
  "update_status env tid oid new db =
     (case find_order tid oid db of
        None \<Rightarrow> (Inl Status_Order_Not_Found, db)
      | Some po \<Rightarrow>
          (case validate_status_transition (po_status po) new of
             Inl e \<Rightarrow> (Inl e, db)
           | Inr _ \<Rightarrow> write_status env tid oid (po_status po) new db))"

definition route_new_order :: "issue_env \<Rightarrow> pos_order \<Rightarrow> order_workflow \<Rightarrow> kds_ticket list \<Rightarrow> kds_ticket list \<times> order_event list" where
  "route_new_order env po flow tickets =
     (let live = wf_kitchen flow \<or> wf_production flow;
          issued = (if live then create_kds_tickets_for_order env po tickets else (tickets, []))
      in (fst issued, map Kds (snd issued) @ (if open_on_create flow then [Auto_Print (po_id po) live] else [])))"

definition release_held_order ::
  "status_env \<Rightarrow> uuid \<Rightarrow> uuid \<Rightarrow> kds_db \<Rightarrow> bool \<times> order_event list \<times> kds_db" where
  "release_held_order env tid oid db =
     (case find_order tid oid db of
        None \<Rightarrow> (False, [], db)
      | Some po \<Rightarrow>
          if po_status po \<noteq> st_awaiting_acceptance \<or> \<not> se_write_ok env then (False, [], db)
          else
            (let db = set_status oid st_open db
             in if \<not> se_reload_ok env then (True, [], db)
                else (let routed = route_new_order (se_issue env) (po\<lparr>po_status := st_open\<rparr>)
                            (workflow_for (ie_use_case (se_issue env)) (po_subtype po)) (kd_tickets db)
                      in (True, snd routed, db\<lparr>kd_tickets := fst routed\<rparr>))))"

section \<open>Bulk requests\<close>

definition draft_delete_skip_reason :: "string \<Rightarrow> uuid \<Rightarrow> uuid \<Rightarrow> bool \<Rightarrow> bool \<Rightarrow> string" where
  "draft_delete_skip_reason status order_user caller can_delete_any can_delete_own =
     (if status \<noteq> ''draft'' then ''not_draft''
      else if can_delete_any then []
      else if \<not> can_delete_own then ''forbidden''
      else if order_user \<noteq> caller then ''not_owner''
      else [])"

definition void_skip_reason :: "string \<Rightarrow> string" where
  "void_skip_reason status =
     (if status = ''voided'' then ''already_voided''
      else if status = ''completed'' \<or> status = ''paid'' \<or> status = ''closed'' then ''finalized''
      else [])"

text \<open>
  An id of the request that does not parse is \<open>None\<close>. \<open>bulk_fault\<close> gives what fails for an order: its
  lookup, its write, or the closing of its tickets.
\<close>

record bulk_fault =
  bf_query_ok :: "uuid \<Rightarrow> bool"
  bf_write_ok :: "uuid \<Rightarrow> bool"
  bf_close_ok :: "uuid \<Rightarrow> bool"

type_synonym skipped = "(uuid option \<times> string) list"

definition apply_void :: "time \<Rightarrow> bool \<Rightarrow> uuid \<Rightarrow> uuid \<Rightarrow> kds_db \<Rightarrow> kds_db" where
  "apply_void now close_ok tid oid db =
     (let db = set_status oid ''voided'' db
      in db\<lparr>kd_tickets := close_order_tickets close_ok now tid oid Voided (kd_tickets db)\<rparr>)"

fun bulk_void_loop ::
  "bulk_fault \<Rightarrow> time \<Rightarrow> uuid \<Rightarrow> uuid option list \<Rightarrow> nat \<Rightarrow> skipped \<Rightarrow> kds_db \<Rightarrow> (nat \<times> skipped) \<times> kds_db" where
  "bulk_void_loop f now tid [] n sk db = ((n, sk), db)"
| "bulk_void_loop f now tid (raw # ids) n sk db =
     (case raw of
        None \<Rightarrow> bulk_void_loop f now tid ids n (sk @ [(raw, ''invalid_id'')]) db
      | Some oid \<Rightarrow>
          if \<not> bf_query_ok f oid then bulk_void_loop f now tid ids n (sk @ [(raw, ''internal_error'')]) db
          else (case find_order tid oid db of
            None \<Rightarrow> bulk_void_loop f now tid ids n (sk @ [(raw, ''not_found'')]) db
          | Some po \<Rightarrow>
              if void_skip_reason (po_status po) \<noteq> []
              then bulk_void_loop f now tid ids n (sk @ [(raw, void_skip_reason (po_status po))]) db
              else if \<not> bf_write_ok f oid
              then bulk_void_loop f now tid ids n (sk @ [(raw, ''internal_error'')]) db
              else bulk_void_loop f now tid ids (n + 1) sk (apply_void now (bf_close_ok f oid) tid oid db)))"

datatype bulk_error = Bulk_Reason_Required | Ids_Required | Too_Many_Ids

definition bulk_order_id_cap :: nat where
  "bulk_order_id_cap = 200"

definition bulk_void_orders ::
  "bulk_fault \<Rightarrow> time \<Rightarrow> uuid \<Rightarrow> string \<Rightarrow> uuid option list \<Rightarrow> kds_db \<Rightarrow> (bulk_error + nat \<times> skipped) \<times> kds_db" where
  "bulk_void_orders f now tid reason ids db =
     (if reason = [] then (Inl Bulk_Reason_Required, db)
      else if ids = [] then (Inl Ids_Required, db)
      else if length ids > bulk_order_id_cap then (Inl Too_Many_Ids, db)
      else case bulk_void_loop f now tid ids 0 [] db of (res, db') \<Rightarrow> (Inr res, db'))"

record deleter =
  de_id :: uuid
  de_any :: bool
  de_own_grant :: bool
  de_hidden :: "uuid \<Rightarrow> bool"  \<comment> \<open>the outlet hides the button from cashiers\<close>

definition can_delete_own :: "deleter \<Rightarrow> pos_order \<Rightarrow> bool" where
  "can_delete_own d po \<longleftrightarrow> (de_any d \<or> de_own_grant d) \<and> (de_any d \<or> \<not> de_hidden d (po_outlet po))"

fun bulk_delete_loop ::
  "bulk_fault \<Rightarrow> deleter \<Rightarrow> uuid \<Rightarrow> uuid option list \<Rightarrow> nat \<Rightarrow> skipped \<Rightarrow> kds_db \<Rightarrow> (nat \<times> skipped) \<times> kds_db" where
  "bulk_delete_loop f d tid [] n sk db = ((n, sk), db)"
| "bulk_delete_loop f d tid (raw # ids) n sk db =
     (case raw of
        None \<Rightarrow> bulk_delete_loop f d tid ids n (sk @ [(raw, ''invalid_id'')]) db
      | Some oid \<Rightarrow>
          if \<not> bf_query_ok f oid then bulk_delete_loop f d tid ids n (sk @ [(raw, ''internal_error'')]) db
          else (case find_order tid oid db of
            None \<Rightarrow> bulk_delete_loop f d tid ids n (sk @ [(raw, ''not_found'')]) db
          | Some po \<Rightarrow>
              (let reason = draft_delete_skip_reason (po_status po) (po_user po) (de_id d) (de_any d) (can_delete_own d po)
               in if reason \<noteq> [] then bulk_delete_loop f d tid ids n (sk @ [(raw, reason)]) db
                  else if \<not> bf_write_ok f oid
                  then bulk_delete_loop f d tid ids n (sk @ [(raw, ''internal_error'')]) db
                  else bulk_delete_loop f d tid ids (n + 1) sk (db\<lparr>kd_orders := (kd_orders db)(oid := None)\<rparr>))))"

definition bulk_delete_drafts ::
  "bulk_fault \<Rightarrow> deleter \<Rightarrow> uuid \<Rightarrow> uuid option list \<Rightarrow> kds_db \<Rightarrow> (bulk_error + nat \<times> skipped) \<times> kds_db" where
  "bulk_delete_drafts f d tid ids db =
     (if ids = [] then (Inl Ids_Required, db)
      else if length ids > bulk_order_id_cap then (Inl Too_Many_Ids, db)
      else case bulk_delete_loop f d tid ids 0 [] db of (res, db') \<Rightarrow> (Inr res, db'))"

text \<open>
  The single-order endpoints use the same rules: \<open>VoidOrder\<close> (\<open>orders.go\<close>) with the approval chain
  of the line void, \<open>DeleteDraft\<close> with the deletion rule of the bulk request.
\<close>

datatype single_error =
    Void_Reason_Required | Single_Not_Found | Void_Approval void_error | Void_Skip string
  | Delete_Skip string | Single_Internal

definition void_order ::
  "approvers \<Rightarrow> bool \<Rightarrow> bool \<Rightarrow> bool \<Rightarrow> time \<Rightarrow> uuid \<Rightarrow> uuid \<Rightarrow> void_request \<Rightarrow> kds_db \<Rightarrow> (single_error + unit) \<times> kds_db" where
  "void_order A caller_is_manager write_ok close_ok now tid oid r db =
     (if vr_reason r = [] then (Inl Void_Reason_Required, db)
      else case find_order tid oid db of
        None \<Rightarrow> (Inl Single_Not_Found, db)
      | Some po \<Rightarrow>
          (case void_approver A r of
             Inl e \<Rightarrow> (Inl (Void_Approval e), db)
           | Inr approver \<Rightarrow>
               if void_needs_approval caller_is_manager approver then (Inl (Void_Approval Approval_Required), db)
               else if void_skip_reason (po_status po) \<noteq> [] then (Inl (Void_Skip (void_skip_reason (po_status po))), db)
               else if \<not> write_ok then (Inl Single_Internal, db)
               else (Inr (), apply_void now close_ok tid oid db)))"

definition delete_draft ::
  "bool \<Rightarrow> bool \<Rightarrow> deleter \<Rightarrow> uuid \<Rightarrow> uuid \<Rightarrow> kds_db \<Rightarrow> (single_error + string) \<times> kds_db" where
  "delete_draft query_ok delete_ok d tid oid db =
     (if \<not> query_ok then (Inl Single_Internal, db)
      else case find_order tid oid db of
        None \<Rightarrow> (Inl Single_Not_Found, db)
      | Some po \<Rightarrow>
          (let reason = draft_delete_skip_reason (po_status po) (po_user po) (de_id d) (de_any d) (can_delete_own d po)
           in if reason \<noteq> [] then (Inl (Delete_Skip reason), db)
              else if \<not> delete_ok then (Inl Single_Internal, db)
              else (Inr (po_number po), db\<lparr>kd_orders := (kd_orders db)(oid := None)\<rparr>)))"

section \<open>Sale information\<close>

definition is_on_account :: "meta \<Rightarrow> bool" where
  "is_on_account m = as_bool (meta_get m ''on_account'')"

datatype info_error = Info_Reason_Required | Info_Not_Found | Debt_Posted string | Info_Status string | Nothing_To_Update | Info_Db_Error

record sale_info =
  si_served_by :: "uuid option"
  si_name :: "string option"
  si_phone :: "string option"
  si_reason :: string

definition opt_str :: "string option \<Rightarrow> string" where
  "opt_str s = (case s of Some x \<Rightarrow> x | None \<Rightarrow> [])"

definition update_sale_info :: "bool \<Rightarrow> sale_info \<Rightarrow> pos_order option \<Rightarrow> info_error + pos_order" where
  "update_sale_info ok inp found =
     (if trim_space (si_reason inp) = [] then Inl Info_Reason_Required
      else case found of
        None \<Rightarrow> Inl Info_Not_Found
      | Some po \<Rightarrow>
          if (case si_phone inp of
                Some p \<Rightarrow> is_on_account (po_metadata po) \<and> trim_space p \<noteq> trim_space (opt_str (po_customer_phone po))
              | None \<Rightarrow> False)
          then Inl (Debt_Posted (trim_space (opt_str (po_customer_phone po))))
          else if po_status po \<in> {st_voided, st_cancelled, st_refunded} then Inl (Info_Status (po_status po))
          else if si_served_by inp = None \<and> si_name inp = None \<and> si_phone inp = None then Inl Nothing_To_Update
          else if \<not> ok then Inl Info_Db_Error
          else Inr (po\<lparr>po_served_by := (case si_served_by inp of Some u \<Rightarrow> Some u | None \<Rightarrow> po_served_by po),
                      po_customer_name := (case si_name inp of Some n \<Rightarrow> Some n | None \<Rightarrow> po_customer_name po),
                      po_customer_phone := (case si_phone inp of Some p \<Rightarrow> Some p | None \<Rightarrow> po_customer_phone po)\<rparr>))"

definition effective_order_date :: "pos_order \<Rightarrow> time" where
  "effective_order_date po =
     (case po_business_date po of
        Some d \<Rightarrow> d
      | None \<Rightarrow> (case po_offline_created_at po of Some d \<Rightarrow> d | None \<Rightarrow> po_created_at po))"

section \<open>The machine only moves forward\<close>

definition status_rank :: "string \<Rightarrow> nat" where
  "status_rank s =
     (if s = st_draft \<or> s = st_awaiting_acceptance then 4 else if s = st_open then 3
      else if s = st_pending_payment then 2 else if s = st_completed then 1 else 0)"

definition status_step :: "string \<Rightarrow> string \<Rightarrow> bool" where
  "status_step a b \<longleftrightarrow> validate_status_transition a b = Inr ()"

lemma status_step_cases:
  "status_step a b \<longleftrightarrow>
     a = st_draft \<and> b \<in> {st_open, st_pending_payment, st_completed, st_cancelled, st_voided} \<or>
     a = st_open \<and> b \<in> {st_pending_payment, st_completed, st_cancelled, st_voided} \<or>
     a = st_awaiting_acceptance \<and> b \<in> {st_open, st_cancelled, st_voided} \<or>
     a = st_pending_payment \<and> b \<in> {st_completed, st_cancelled, st_voided} \<or>
     a = st_completed \<and> b = st_refunded"
  by (auto simp: status_step_def validate_status_transition_def valid_transitions_def
    split: option.splits if_splits)

lemma status_step_rank: "status_step a b \<Longrightarrow> status_rank b < status_rank a"
  by (auto simp: status_step_cases status_rank_def)

lemma status_path_rank:
  "successively status_step (s # p) \<Longrightarrow> length p \<le> status_rank s \<and> distinct (s # p) \<and> (\<forall>x \<in> set p. status_rank x < status_rank s)"
proof (induction p arbitrary: s)
  case (Cons t p)
  then have "status_step s t" "successively status_step (t # p)" by auto
  then show ?case using Cons.IH [of t] status_step_rank [of s t] by fastforce
qed simp

text \<open>
  C32. No sequence of validated status updates, each from the status the one before left, goes round in
  circles: the statuses along it are distinct and there are at most five of them.
\<close>

theorem status_path_bounded:
  assumes "successively status_step p"
  shows "length p \<le> 5 \<and> distinct p"
proof (cases p)
  case (Cons s q)
  then show ?thesis using assms status_path_rank [of s q]
    by (auto simp: status_rank_def split: if_splits)
qed simp

theorem status_path_bounded_witness:
  "let p = [st_draft, st_open, st_pending_payment, st_completed, st_refunded]
   in successively status_step p \<and> length p \<le> 5 \<and> distinct p"
proof -
  have "successively status_step [st_draft, st_open, st_pending_payment, st_completed, st_refunded]"
    by (simp add: status_step_cases)
  then show ?thesis using status_path_bounded unfolding Let_def by blast
qed

text \<open>
  C33. A completed sale can only be refunded, and a refunded, cancelled or voided one goes nowhere:
  by status updates that follow one another no closed sale comes back to life. (Updates that overlap
  write a status validated against an older one; \<open>stale_status_write_reopens\<close> below.)
\<close>

theorem closed_sales_stay_closed:
  assumes "rtranclp status_step s s'" "s \<in> set closed_statuses"
  shows "s' = s \<or> s = st_completed \<and> s' = st_refunded"
  using assms
  by (induction rule: rtranclp_induct) (auto simp: status_step_cases closed_statuses_def)

theorem closed_sales_stay_closed_witness:
  "rtranclp status_step st_completed st_refunded \<and> (st_refunded = st_completed \<or> st_completed = st_completed \<and> st_refunded = st_refunded)"
proof -
  have "rtranclp status_step st_completed st_refunded" by (auto simp: status_step_cases)
  then show ?thesis using closed_sales_stay_closed [of st_completed st_refunded] by (simp add: closed_statuses_def)
qed

section \<open>What an update leaves\<close>

lemma find_order_Some:
  "find_order tid oid db = Some po \<longleftrightarrow> kd_orders db oid = Some po \<and> po_tenant po = tid"
  by (auto simp: find_order_def split: option.splits)

lemma close_order_tickets_closed:
  assumes "to = Served \<or> to = Voided" "t \<in> set (close_order_tickets True now tid oid to tickets)"
    "kt_tenant t = tid" "kt_order t = oid"
  shows "\<not> ticket_open t"
proof -
  obtain u where u: "t = (if kt_tenant u = tid \<and> kt_order u = oid \<and> ticket_open u
      then u\<lparr>kt_status := to, kt_completed_at := Some now\<rparr> else u)"
    using assms(2) unfolding close_order_tickets_def by (simp only: not_True_eq_False if_False set_map) (erule imageE)
  then show ?thesis using assms(1,3,4)
    by (cases "kt_tenant u = tid \<and> kt_order u = oid \<and> ticket_open u") (auto simp: ticket_open_def)
qed

text \<open>
  A successful \<open>UpdateStatus\<close> made an allowed transition, changed nothing of the order but its
  status and no other order; and when the new status ends the order (completed, voided, cancelled)
  none of its tickets is left on the board.
\<close>

theorem update_status_spec:
  assumes "update_status env tid oid new db = (Inr evs, db')" "se_close_ok env"
  shows "\<exists>po. kd_orders db oid = Some po \<and> po_tenant po = tid \<and> status_step (po_status po) new \<and>
    kd_orders db' = (kd_orders db)(oid \<mapsto> po\<lparr>po_status := new\<rparr>) \<and>
    (new \<in> {st_completed, st_voided, st_cancelled} \<longrightarrow>
       (\<forall>t \<in> set (kd_tickets db'). kt_tenant t = tid \<and> kt_order t = oid \<longrightarrow> \<not> ticket_open t))"
proof -
  obtain po where po: "find_order tid oid db = Some po"
    using assms by (auto simp: update_status_def split: option.splits)
  then have row: "kd_orders db oid = Some po" by (simp add: find_order_Some)
  have ok: "validate_status_transition (po_status po) new = Inr ()" "se_write_ok env"
    using assms po row by (auto simp: update_status_def write_status_def split: sum.splits if_splits)
  have orders: "kd_orders db' = (kd_orders db)(oid \<mapsto> po\<lparr>po_status := new\<rparr>)"
    using assms po row ok by (auto simp: update_status_def write_status_def set_status_def Let_def find_order_Some)
  have "\<not> ticket_open t" if "new \<in> {st_completed, st_voided, st_cancelled}" "t \<in> set (kd_tickets db')"
    "kt_tenant t = tid" "kt_order t = oid" for t
  proof -
    have "new \<noteq> st_open" using that(1) by auto
    then have "t \<in> set (close_order_tickets True (se_now env) tid oid (if new = st_completed then Served else Voided) (kd_tickets db))"
      using assms po row ok that(1,2) by (auto simp: update_status_def write_status_def set_status_def Let_def)
    then show ?thesis using that(3,4) by (intro close_order_tickets_closed) auto
  qed
  then show ?thesis using po ok orders by (auto simp: status_step_def find_order_Some)
qed

definition sample_status_env :: status_env where
  "sample_status_env = \<lparr>se_write_ok = True, se_reload_ok = True, se_close_ok = True, se_publisher = True,
     se_now = 5, se_issue = sample_env\<rparr>"

theorem update_status_spec_witness:
  "\<exists>db'. snd (update_status sample_status_env 2 50 st_voided sample_db) = db' \<and>
     (\<exists>po. kd_orders sample_db 50 = Some po \<and> status_step (po_status po) st_voided \<and>
        kd_orders db' = (kd_orders sample_db)(50 \<mapsto> po\<lparr>po_status := st_voided\<rparr>))"
proof -
  have "case fst (update_status sample_status_env 2 50 st_voided sample_db) of Inr _ \<Rightarrow> True | Inl _ \<Rightarrow> False" by code_simp
  then obtain evs where "update_status sample_status_env 2 50 st_voided sample_db =
      (Inr evs, snd (update_status sample_status_env 2 50 st_voided sample_db))"
    by (auto simp: prod_eq_iff split: sum.splits)
  from update_status_spec [OF this] show ?thesis by (auto simp: sample_status_env_def)
qed

text \<open>A refused or failed \<open>UpdateStatus\<close> changes nothing, neither the order nor its tickets.\<close>

theorem update_status_error:
  assumes "update_status env tid oid new db = (Inl e, db')"
  shows "db' = db"
  using assms by (auto simp: update_status_def write_status_def Let_def split: option.splits sum.splits if_splits)

theorem update_status_error_witness:
  "snd (update_status sample_status_env 2 50 st_refunded sample_db) = sample_db"
proof -
  have "case fst (update_status sample_status_env 2 50 st_refunded sample_db) of Inl _ \<Rightarrow> True | Inr _ \<Rightarrow> False" by code_simp
  then obtain e where "update_status sample_status_env 2 50 st_refunded sample_db =
      (Inl e, snd (update_status sample_status_env 2 50 st_refunded sample_db))"
    by (auto simp: prod_eq_iff split: sum.splits)
  then show ?thesis by (rule update_status_error)
qed

text \<open>
  A held online order is released once: after a release reported true the order is open, and
  releasing it again, from any path and whatever happens, reports false, sends nothing and changes
  nothing, so no second round of tickets or chits goes out.
\<close>

theorem release_once:
  assumes "release_held_order env tid oid db = (True, evs, db')"
  shows "map_option po_status (kd_orders db' oid) = Some st_open \<and>
    release_held_order env' tid oid db' = (False, [], db')"
proof -
  obtain po where po: "find_order tid oid db = Some po"
    using assms by (auto simp: release_held_order_def split: option.splits)
  have o: "kd_orders db' oid = Some (po\<lparr>po_status := st_open\<rparr>)"
    using assms po by (auto simp: release_held_order_def set_status_def find_order_Some Let_def split: if_splits)
  moreover have "find_order tid oid db' = Some (po\<lparr>po_status := st_open\<rparr>)"
    using po o by (simp add: find_order_Some)
  ultimately show ?thesis by (simp add: release_held_order_def)
qed

definition held_db :: kds_db where
  "held_db = \<lparr>kd_tickets = [], kd_orders = [50 \<mapsto> kitchen_order\<lparr>po_status := st_awaiting_acceptance\<rparr>], kd_external = (\<lambda>_. ''ext'')\<rparr>"

theorem release_once_witness:
  "let r = release_held_order sample_status_env 2 50 held_db
   in length (kd_tickets (snd (snd r))) = 2 \<and>
      release_held_order sample_status_env 2 50 (snd (snd r)) = (False, [], snd (snd r))"
proof -
  have "fst (release_held_order sample_status_env 2 50 held_db)" by code_simp
  then have "release_held_order sample_status_env 2 50 held_db =
     (True, fst (snd (release_held_order sample_status_env 2 50 held_db)), snd (snd (release_held_order sample_status_env 2 50 held_db)))"
    by (simp add: prod_eq_iff)
  moreover have "length (kd_tickets (snd (snd (release_held_order sample_status_env 2 50 held_db)))) = 2" by code_simp
  ultimately show ?thesis using release_once unfolding Let_def by blast
qed

text \<open>
  Two status updates that overlap: one had read the open order and found that it may await its
  payment, the other completed it meanwhile; the write of the first brings the completed sale back.
\<close>

lemma stale_status_write_reopens:
  "let db = sample_db\<lparr>kd_orders := [50 \<mapsto> kitchen_order]\<rparr>;
       done = snd (update_status sample_status_env 2 50 st_completed db)
   in validate_status_transition (po_status kitchen_order) st_pending_payment = Inr () \<and>
      map_option po_status (kd_orders done 50) = Some st_completed \<and>
      map_option po_status (kd_orders (snd (write_status sample_status_env 2 50 (po_status kitchen_order) st_pending_payment done)) 50) =
        Some st_pending_payment"
  by code_simp

section \<open>Bulk requests touch only what they may\<close>

definition voidable :: "uuid \<Rightarrow> pos_order \<Rightarrow> bool" where
  "voidable tid po \<longleftrightarrow> po_tenant po = tid \<and> po_status po \<notin> {''voided'', ''completed'', ''paid'', ''closed''}"

definition voided_from :: "uuid \<Rightarrow> uuid option list \<Rightarrow> kds_db \<Rightarrow> kds_db \<Rightarrow> bool" where
  "voided_from tid ids db db' \<longleftrightarrow>
     (\<forall>oid. kd_orders db' oid = kd_orders db oid \<or>
        Some oid \<in> set ids \<and> (\<exists>po. kd_orders db oid = Some po \<and> voidable tid po \<and>
          kd_orders db' oid = Some (po\<lparr>po_status := ''voided''\<rparr>)))"

lemma void_skip_voidable: "po_tenant po = tid \<Longrightarrow> void_skip_reason (po_status po) = [] \<longleftrightarrow> voidable tid po"
  by (simp add: void_skip_reason_def voidable_def)

lemma apply_void_orders:
  "kd_orders (apply_void now c tid oid db) =
     (kd_orders db)(oid := map_option (\<lambda>po. po\<lparr>po_status := ''voided''\<rparr>) (kd_orders db oid))"
  by (simp add: apply_void_def set_status_def Let_def)

lemma voided_from_step:
  assumes "voided_from tid ids (apply_void now c tid oid db) db'" "kd_orders db oid = Some po" "voidable tid po"
  shows "voided_from tid (Some oid # ids) db db'"
  unfolding voided_from_def
proof
  fix x
  have v: "\<not> voidable tid (po\<lparr>po_status := ''voided''\<rparr>)" by (simp add: voidable_def)
  show "kd_orders db' x = kd_orders db x \<or>
      Some x \<in> set (Some oid # ids) \<and> (\<exists>po. kd_orders db x = Some po \<and> voidable tid po \<and>
        kd_orders db' x = Some (po\<lparr>po_status := ''voided''\<rparr>))"
    using assms(1) [unfolded voided_from_def, rule_format, of x] assms(2,3) v
    by (cases "x = oid") (auto simp: apply_void_orders)
qed

lemma bulk_void_loop_spec:
  "bulk_void_loop f now tid ids n sk db = ((n', sk'), db') \<Longrightarrow>
     n' + length sk' = n + length sk + length ids \<and> voided_from tid ids db db'"
proof (induction ids arbitrary: n sk db)
  case (Cons raw ids)
  show ?case
  proof (cases "\<exists>oid po. raw = Some oid \<and> bf_query_ok f oid \<and> bf_write_ok f oid \<and> find_order tid oid db = Some po \<and> voidable tid po")
    case False
    then obtain r where "bulk_void_loop f now tid ids n (sk @ [(raw, r)]) db = ((n', sk'), db')"
      using Cons.prems void_skip_voidable
      by (auto simp: find_order_Some split: option.splits if_splits)
    from Cons.IH [OF this] show ?thesis by (auto simp: voided_from_def)
  next
    case True
    then obtain oid po where o: "raw = Some oid" "bf_query_ok f oid" "bf_write_ok f oid"
      "kd_orders db oid = Some po" "po_tenant po = tid" "voidable tid po"
      by (auto simp: find_order_Some)
    then have "void_skip_reason (po_status po) = []" "find_order tid oid db = Some po"
      by (auto simp: void_skip_voidable find_order_Some)
    then have step: "bulk_void_loop f now tid ids (n + 1) sk (apply_void now (bf_close_ok f oid) tid oid db) = ((n', sk'), db')"
      using Cons.prems o by simp
    show ?thesis using Cons.IH [OF step] o voided_from_step by simp blast
  qed
qed (auto simp: voided_from_def)

text \<open>
  A bulk void answers for every id of the request, each either voided or skipped; the orders it
  changes were in the request, belong to the caller's tenant and were neither voided nor finalized
  before, and nothing of them changes but the status.
\<close>

theorem bulk_void_spec:
  assumes "bulk_void_orders f now tid reason ids db = (Inr (n, sk), db')"
  shows "n + length sk = length ids \<and> length ids \<le> 200 \<and> voided_from tid ids db db'"
  using assms bulk_void_loop_spec [of f now tid ids 0 "[]" db n sk db']
  by (auto simp: bulk_void_orders_def bulk_order_id_cap_def split: if_splits prod.splits)

definition no_fault :: bulk_fault where
  "no_fault = \<lparr>bf_query_ok = (\<lambda>_. True), bf_write_ok = (\<lambda>_. True), bf_close_ok = (\<lambda>_. True)\<rparr>"

theorem bulk_void_spec_witness:
  "\<exists>sk db'. bulk_void_orders no_fault 0 2 ''test'' [Some 50, None, Some 50] sample_db = (Inr (1, sk), db') \<and>
     length sk = 2 \<and> voided_from 2 [Some 50, None, Some 50] sample_db db'"
proof -
  let ?r = "bulk_void_orders no_fault 0 2 ''test'' [Some 50, None, Some 50] sample_db"
  have "fst ?r = Inr (1, [(None, ''invalid_id''), (Some 50, ''already_voided'')])" by code_simp
  then have "?r = (Inr (1, [(None, ''invalid_id''), (Some 50, ''already_voided'')]), snd ?r)" by (simp add: prod_eq_iff)
  from bulk_void_spec [OF this] this show ?thesis
    by (intro exI [of _ "[(None, ''invalid_id''), (Some 50, ''already_voided'')]"] exI [of _ "snd ?r"] conjI) simp_all
qed

text \<open>
  The void eligibility is wider than the status machine: a refunded (or cancelled) order is not
  skipped by a bulk void, which marks it voided, a move \<open>ValidateStatusTransition\<close> refuses.
\<close>

theorem bulk_void_revoids_refunded:
  "\<exists>db'. bulk_void_orders no_fault 0 2 ''test'' [Some 50]
       (sample_db\<lparr>kd_orders := [50 \<mapsto> kitchen_order\<lparr>po_status := st_refunded\<rparr>]\<rparr>) = (Inr (1, []), db') \<and>
     map_option po_status (kd_orders db' 50) = Some st_voided \<and> \<not> status_step st_refunded st_voided"
proof -
  let ?r = "bulk_void_orders no_fault 0 2 ''test'' [Some 50]
       (sample_db\<lparr>kd_orders := [50 \<mapsto> kitchen_order\<lparr>po_status := st_refunded\<rparr>]\<rparr>)"
  have "fst ?r = Inr (1, [])" by code_simp
  then have "?r = (Inr (1, []), snd ?r)" by (simp add: prod_eq_iff)
  moreover have "map_option po_status (kd_orders (snd ?r) 50) = Some st_voided" by code_simp
  moreover have "\<not> status_step st_refunded st_voided" by (simp add: status_step_cases)
  ultimately show ?thesis by blast
qed

definition deleted_from :: "deleter \<Rightarrow> uuid \<Rightarrow> uuid option list \<Rightarrow> kds_db \<Rightarrow> kds_db \<Rightarrow> bool" where
  "deleted_from d tid ids db db' \<longleftrightarrow>
     (\<forall>oid. kd_orders db' oid = kd_orders db oid \<or>
        Some oid \<in> set ids \<and> kd_orders db' oid = None \<and>
        (\<exists>po. kd_orders db oid = Some po \<and> po_tenant po = tid \<and> po_status po = st_draft \<and>
           (de_any d \<or> po_user po = de_id d \<and> de_own_grant d \<and> \<not> de_hidden d (po_outlet po))))"

lemma draft_delete_skip:
  "draft_delete_skip_reason s u c any own = [] \<longleftrightarrow> s = st_draft \<and> (any \<or> own \<and> u = c)"
  by (simp add: draft_delete_skip_reason_def st_draft_def)

lemma deleted_from_step:
  assumes "deleted_from d tid ids (db\<lparr>kd_orders := (kd_orders db)(oid := None)\<rparr>) db'" "kd_orders db oid = Some po"
    "po_tenant po = tid" "po_status po = st_draft"
    "de_any d \<or> po_user po = de_id d \<and> de_own_grant d \<and> \<not> de_hidden d (po_outlet po)"
  shows "deleted_from d tid (Some oid # ids) db db'"
  unfolding deleted_from_def
proof
  fix x
  show "kd_orders db' x = kd_orders db x \<or>
        Some x \<in> set (Some oid # ids) \<and> kd_orders db' x = None \<and>
        (\<exists>po. kd_orders db x = Some po \<and> po_tenant po = tid \<and> po_status po = st_draft \<and>
           (de_any d \<or> po_user po = de_id d \<and> de_own_grant d \<and> \<not> de_hidden d (po_outlet po)))"
    using assms(1) [unfolded deleted_from_def, rule_format, of x] assms(2-5)
    by (cases "x = oid") auto
qed

lemma bulk_delete_loop_spec:
  "bulk_delete_loop f d tid ids n sk db = ((n', sk'), db') \<Longrightarrow>
     n' + length sk' = n + length sk + length ids \<and> deleted_from d tid ids db db'"
proof (induction ids arbitrary: n sk db)
  case (Cons raw ids)
  show ?case
  proof (cases "\<exists>oid po. raw = Some oid \<and> bf_query_ok f oid \<and> bf_write_ok f oid \<and> find_order tid oid db = Some po \<and>
      draft_delete_skip_reason (po_status po) (po_user po) (de_id d) (de_any d) (can_delete_own d po) = []")
    case False
    then obtain r where "bulk_delete_loop f d tid ids n (sk @ [(raw, r)]) db = ((n', sk'), db')"
      using Cons.prems by (auto simp: Let_def split: option.splits if_splits)
    from Cons.IH [OF this] show ?thesis by (auto simp: deleted_from_def)
  next
    case True
    then obtain oid po where o: "raw = Some oid" "bf_query_ok f oid" "bf_write_ok f oid" "find_order tid oid db = Some po"
      "draft_delete_skip_reason (po_status po) (po_user po) (de_id d) (de_any d) (can_delete_own d po) = []" by blast
    then have step: "bulk_delete_loop f d tid ids (n + 1) sk (db\<lparr>kd_orders := (kd_orders db)(oid := None)\<rparr>) = ((n', sk'), db')"
      using Cons.prems by simp
    have "kd_orders db oid = Some po" "po_tenant po = tid" "po_status po = st_draft"
      "de_any d \<or> po_user po = de_id d \<and> de_own_grant d \<and> \<not> de_hidden d (po_outlet po)"
      using o(4,5) by (auto simp: find_order_Some draft_delete_skip can_delete_own_def)
    then show ?thesis using Cons.IH [OF step] o(1) deleted_from_step by simp
  qed
qed (auto simp: deleted_from_def)

text \<open>
  A bulk delete removes drafts only, in the caller's tenant, and without the manage permission
  only the caller's own drafts in outlets that show the button; every id is answered for.
\<close>

theorem bulk_delete_spec:
  assumes "bulk_delete_drafts f d tid ids db = (Inr (n, sk), db')"
  shows "n + length sk = length ids \<and> deleted_from d tid ids db db'"
  using assms bulk_delete_loop_spec [of f d tid ids 0 "[]" db n sk db']
  by (auto simp: bulk_delete_drafts_def split: if_splits prod.splits)

theorem bulk_delete_spec_witness:
  "let d = \<lparr>de_id = 5, de_any = False, de_own_grant = True, de_hidden = (\<lambda>_. False)\<rparr>;
       db = sample_db\<lparr>kd_orders := [50 \<mapsto> kitchen_order\<lparr>po_status := st_draft\<rparr>, 51 \<mapsto> kitchen_order]\<rparr>
   in \<exists>sk db'. bulk_delete_drafts no_fault d 2 [Some 50, Some 51] db = (Inr (1, sk), db') \<and> length sk = 1 \<and>
        deleted_from d 2 [Some 50, Some 51] db db'"
proof -
  let ?d = "\<lparr>de_id = 5, de_any = False, de_own_grant = True, de_hidden = (\<lambda>_. False)\<rparr> :: deleter"
  let ?db = "sample_db\<lparr>kd_orders := [50 \<mapsto> kitchen_order\<lparr>po_status := st_draft\<rparr>, 51 \<mapsto> kitchen_order]\<rparr>"
  let ?r = "bulk_delete_drafts no_fault ?d 2 [Some 50, Some 51] ?db"
  have "fst ?r = Inr (1, [(Some 51, ''not_draft'')])" by code_simp
  then have "?r = (Inr (1, [(Some 51, ''not_draft'')]), snd ?r)" by (simp add: prod_eq_iff)
  from bulk_delete_spec [OF this] this show ?thesis unfolding Let_def
    by (intro exI [of _ "[(Some 51, ''not_draft'')]"] exI [of _ "snd ?r"] conjI) simp_all
qed

text \<open>
  Correcting who is on a sale never moves money or a posted debt: totals, lines, status, payments
  and metadata stay, and on an on-account sale the customer phone stays the one the debt was posted to.
\<close>

theorem sale_info_keeps_money:
  assumes "update_sale_info ok inp (Some po) = Inr po'"
  shows "po' = po\<lparr>po_served_by := po_served_by po', po_customer_name := po_customer_name po',
      po_customer_phone := po_customer_phone po'\<rparr> \<and>
    po_status po \<notin> {st_voided, st_cancelled, st_refunded} \<and>
    (is_on_account (po_metadata po) \<longrightarrow>
       trim_space (opt_str (po_customer_phone po')) = trim_space (opt_str (po_customer_phone po)))"
  using assms
  by (cases "si_phone inp") (auto simp: update_sale_info_def opt_str_def split: if_splits)

theorem sale_info_keeps_money_witness:
  "let po = kitchen_order\<lparr>po_status := st_completed, po_metadata := [(''on_account'', JBool True)], po_customer_phone := Some ''0700''\<rparr>
   in \<exists>po'. update_sale_info True \<lparr>si_served_by = Some 8, si_name = None, si_phone = Some '' 0700'', si_reason = ''typo''\<rparr> (Some po) = Inr po' \<and>
        trim_space (opt_str (po_customer_phone po')) = trim_space (opt_str (po_customer_phone po))"
proof -
  let ?po = "kitchen_order\<lparr>po_status := st_completed, po_metadata := [(''on_account'', JBool True)], po_customer_phone := Some ''0700''\<rparr>"
  let ?r = "update_sale_info True \<lparr>si_served_by = Some 8, si_name = None, si_phone = Some '' 0700'', si_reason = ''typo''\<rparr> (Some ?po)"
  have "case ?r of Inr _ \<Rightarrow> True | Inl _ \<Rightarrow> False" by code_simp
  then obtain po' where r: "?r = Inr po'" by (auto split: sum.splits)
  have "is_on_account (po_metadata ?po)" by (simp add: is_on_account_def)
  then show ?thesis using sale_info_keeps_money [OF r] r unfolding Let_def by blast
qed

section \<open>The single-order endpoints\<close>

lemma voided_from_single:
  assumes "kd_orders db oid = Some po" "voidable tid po"
  shows "voided_from tid [Some oid] db (apply_void now c tid oid db)"
  using assms by (auto simp: voided_from_def apply_void_orders)

text \<open>
  Voiding a whole order takes the same authority as voiding a line and changes what a bulk void
  of that one order may change; on success none of the order's tickets is left open.
\<close>

theorem void_order_spec:
  assumes "void_order A caller_is_manager write_ok True now tid oid r db = (Inr u, db')"
  shows "(caller_is_manager \<or> (\<exists>a. Some a \<in> {ap_token A (vr_token r), ap_void_code A (vr_void_code r),
             ap_action_code A (vr_approval_code r)})) \<and>
     voided_from tid [Some oid] db db' \<and> map_option po_status (kd_orders db' oid) = Some ''voided'' \<and>
     (\<forall>t \<in> set (kd_tickets db'). kt_tenant t = tid \<and> kt_order t = oid \<longrightarrow> \<not> ticket_open t)"
proof -
  obtain po approver where po: "find_order tid oid db = Some po" "void_approver A r = Inr approver"
    "\<not> void_needs_approval caller_is_manager approver" "void_skip_reason (po_status po) = []"
    and db': "db' = apply_void now True tid oid db"
    using assms by (auto simp: void_order_def split: if_splits option.splits sum.splits)
  have "caller_is_manager \<or> (\<exists>a. Some a \<in> {ap_token A (vr_token r), ap_void_code A (vr_void_code r),
             ap_action_code A (vr_approval_code r)})"
    using po(2,3) by (cases approver) (auto simp: void_approver_def void_needs_approval_def Let_def
      split: if_splits option.splits)
  moreover have "voided_from tid [Some oid] db db'"
    using po void_skip_voidable [of po tid] unfolding db'
    by (intro voided_from_single) (auto simp: find_order_Some)
  moreover have "map_option po_status (kd_orders db' oid) = Some ''voided''"
    using po(1) by (simp add: db' apply_void_orders find_order_Some)
  moreover have "\<forall>t \<in> set (kd_tickets db'). kt_tenant t = tid \<and> kt_order t = oid \<longrightarrow> \<not> ticket_open t"
    using close_order_tickets_closed [of Voided _ now tid oid] by (auto simp: db' apply_void_def set_status_def Let_def)
  ultimately show ?thesis by blast
qed

theorem void_order_spec_witness:
  "let r = void_order sample_approvers False True True 9 2 50 (sample_void 0) sample_db
   in fst r = Inr () \<and> voided_from 2 [Some 50] sample_db (snd r) \<and>
      map_option po_status (kd_orders (snd r) 50) = Some ''voided''"
proof -
  let ?r = "void_order sample_approvers False True True 9 2 50 (sample_void 0) sample_db"
  have ok: "fst ?r = Inr ()" by code_simp
  then have "?r = (Inr (), snd ?r)" by (simp add: prod_eq_iff)
  from void_order_spec [OF this] ok show ?thesis unfolding Let_def by blast
qed

end
