(* ===== verification/Go_Time.thy ===== *)
theory Go_Time
  imports Go_Prelude
begin

text \<open>
  The part of Go's \<open>time\<close> package the program parses with: calendar days as day numbers (1970-01-01
  is day 0), \<open>time.Parse\<close> for the layouts \<open>2006-01-02\<close> and \<open>time.RFC3339\<close>, on ASCII text. An instant
  is its nanoseconds since the epoch.
\<close>

definition is_leap :: "int \<Rightarrow> bool" where
  "is_leap y \<longleftrightarrow> y mod 4 = 0 \<and> (y mod 100 \<noteq> 0 \<or> y mod 400 = 0)"

definition days_in_month :: "int \<Rightarrow> int \<Rightarrow> int" where
  "days_in_month y m =
     (if m = 2 then (if is_leap y then 29 else 28)
      else if m = 4 \<or> m = 6 \<or> m = 9 \<or> m = 11 then 30 else 31)"

text \<open>Days since 1970-01-01 of a civil date in the proleptic Gregorian calendar.\<close>

definition days_from_civil :: "int \<Rightarrow> int \<Rightarrow> int \<Rightarrow> int" where
  "days_from_civil y m d =
     (let y' = (if m \<le> 2 then y - 1 else y);
          era = y' div 400;
          yoe = y' - era * 400;
          doy = (153 * (if m > 2 then m - 3 else m + 9) + 2) div 5 + d - 1;
          doe = yoe * 365 + yoe div 4 - yoe div 100 + doy
      in era * 146097 + doe - 719468)"

fun read_int :: "int \<Rightarrow> string \<Rightarrow> int" where
  "read_int acc [] = acc"
| "read_int acc (c # cs) = read_int (10 * acc + (of_char c - 48)) cs"

text \<open>A run of exactly \<open>n\<close> digits, and the rest.\<close>

fun take_digits :: "nat \<Rightarrow> string \<Rightarrow> (int \<times> string) option" where
  "take_digits n s =
     (let ds = take n s
      in if length ds = n \<and> list_all is_digit ds then Some (read_int 0 ds, drop n s) else None)"

fun take_char :: "char \<Rightarrow> string \<Rightarrow> string option" where
  "take_char c [] = None"
| "take_char c (x # s) = (if x = c then Some s else None)"

definition parse_ymd :: "string \<Rightarrow> (int \<times> int \<times> int \<times> string) option" where
  "parse_ymd s =
     (case take_digits 4 s of None \<Rightarrow> None | Some (y, s) \<Rightarrow>
     (case take_char CHR ''-'' s of None \<Rightarrow> None | Some s \<Rightarrow>
     (case take_digits 2 s of None \<Rightarrow> None | Some (m, s) \<Rightarrow>
     (case take_char CHR ''-'' s of None \<Rightarrow> None | Some s \<Rightarrow>
     (case take_digits 2 s of None \<Rightarrow> None | Some (d, s) \<Rightarrow>
       if 1 \<le> m \<and> m \<le> 12 \<and> 1 \<le> d \<and> d \<le> days_in_month y m then Some (y, m, d, s) else None)))))"

definition parse_date :: "string \<Rightarrow> int option" where
  "parse_date s =
     (case parse_ymd s of Some (y, m, d, rest) \<Rightarrow> if rest = [] then Some (days_from_civil y m d) else None
      | None \<Rightarrow> None)"

text \<open>A fraction of a second (\<open>.\<close> and at least one digit) in nanoseconds, nine digits at most.\<close>

definition parse_fraction :: "string \<Rightarrow> int \<times> string" where
  "parse_fraction s =
     (case s of
        c # rest \<Rightarrow>
          (let ds = takeWhile is_digit rest
           in if (c = CHR ''.'' \<or> c = CHR '','') \<and> ds \<noteq> []
              then (read_int 0 (take 9 (ds @ replicate 9 CHR ''0'')), dropWhile is_digit rest)
              else (0, s))
      | [] \<Rightarrow> (0, s))"

definition parse_offset :: "string \<Rightarrow> int option" where
  "parse_offset s =
     (case s of
        [] \<Rightarrow> None
      | c # rest \<Rightarrow>
          if c = CHR ''Z'' then (if rest = [] then Some 0 else None)
          else if c = CHR ''+'' \<or> c = CHR ''-'' then
            (case take_digits 2 rest of None \<Rightarrow> None | Some (h, s) \<Rightarrow>
            (case take_char CHR '':'' s of None \<Rightarrow> None | Some s \<Rightarrow>
            (case take_digits 2 s of None \<Rightarrow> None | Some (m, s) \<Rightarrow>
              if s = [] \<and> h \<le> 24 \<and> m \<le> 60
              then Some ((if c = CHR ''-'' then - 1 else 1) * (h * 3600 + m * 60)) else None)))
          else None)"

text \<open>The hour of a layout is read with one digit when no second one follows.\<close>

definition take_hour :: "string \<Rightarrow> (int \<times> string) option" where
  "take_hour s = (case take_digits 2 s of Some r \<Rightarrow> Some r | None \<Rightarrow> take_digits 1 s)"

text \<open>\<open>hh:mm:ss\<close> as seconds of the day.\<close>

definition parse_clock :: "string \<Rightarrow> (int \<times> string) option" where
  "parse_clock s =
     (case take_hour s of None \<Rightarrow> None | Some (h, s) \<Rightarrow>
     (case take_char CHR '':'' s of None \<Rightarrow> None | Some s \<Rightarrow>
     (case take_digits 2 s of None \<Rightarrow> None | Some (mi, s) \<Rightarrow>
     (case take_char CHR '':'' s of None \<Rightarrow> None | Some s \<Rightarrow>
     (case take_digits 2 s of None \<Rightarrow> None | Some (se, s) \<Rightarrow>
        if h < 24 \<and> mi < 60 \<and> se < 60 then Some (h * 3600 + mi * 60 + se, s) else None)))))"

definition parse_rfc3339 :: "string \<Rightarrow> time option" where
  "parse_rfc3339 s =
     (case parse_ymd s of None \<Rightarrow> None | Some (y, mo, d, s) \<Rightarrow>
     (case take_char CHR ''T'' s of None \<Rightarrow> None | Some s \<Rightarrow>
     (case parse_clock s of None \<Rightarrow> None | Some (secs, s) \<Rightarrow>
     (case parse_offset (snd (parse_fraction s)) of None \<Rightarrow> None | Some off \<Rightarrow>
        Some ((days_from_civil y mo d * 86400 + secs - off) * 1000000000 + fst (parse_fraction s))))))"

lemma parse_epoch: "parse_rfc3339 ''1970-01-01T00:00:00Z'' = Some 0"
  by code_simp

lemma parse_offset_example: "parse_rfc3339 ''2026-03-01T03:00:00.5+03:00'' = Some 1772323200500000000"
  by code_simp

lemma parse_hour_example: "parse_rfc3339 ''1970-01-01T3:00:00Z'' = Some 10800000000000" "parse_rfc3339 ''1970-01-01T03:0:00Z'' = None"
  by code_simp+

lemma parse_date_example:
  "parse_date ''2024-02-29'' = Some 19782" "parse_date ''2023-02-29'' = None" "parse_date ''2024-2-29'' = None"
  by code_simp+

end
