(* ===== verification/Settlement.thy ===== *)
theory Settlement
  imports Order_Status Go_Time
begin

text \<open>
  What an order still owes and the payment status derived from it
  (\<open>internal/modules/orders/settlement.go\<close>), and the date an order counts toward
  (\<open>parseAndValidateEffectiveDate\<close>, \<open>MoveOrderDate\<close> of \<open>service.go\<close>). Amounts are float64.
\<close>

section \<open>Payment status\<close>

definition cent :: f64 where
  "cent = fl (1 / 100)"

definition non_committed_status :: "string \<Rightarrow> bool" where
  "non_committed_status ps \<longleftrightarrow> ps = ''voided'' \<or> ps = ''cancelled'' \<or> ps = ''draft''"

definition is_order_overdue :: "time \<Rightarrow> meta \<Rightarrow> bool" where
  "is_order_overdue now m =
     (let raw = as_str (meta_get m ''payment_due_date'')
      in if raw = [] then False
         else (case parse_rfc3339 raw of Some due \<Rightarrow> due < now | None \<Rightarrow> False))"

definition derive_payment_status :: "string \<Rightarrow> f64 \<Rightarrow> f64 \<Rightarrow> f64 \<Rightarrow> bool \<Rightarrow> string" where
  "derive_payment_status status amount collected returns on_account =
     (if status = ''refunded'' \<or> status = ''voided'' \<or> status = ''cancelled'' \<or> status = ''draft'' then status
      else
        (let settled = fl (collected + returns)
         in if amount > 0 \<and> fl (settled + cent) \<ge> amount then ''paid''
            else if on_account then (if settled > 0 then ''partial'' else ''due'')
            else if status = ''completed'' then ''paid''
            else if settled > 0 then ''partial''
            else ''due''))"

record settlement =
  sl_collected :: f64
  sl_returns :: f64
  sl_amount_due :: f64
  sl_status :: string

definition compute_settlement :: "time \<Rightarrow> pos_order \<Rightarrow> f64 \<Rightarrow> settlement" where
  "compute_settlement now po returns =
     (let collected = po_paid_total po;
          ps = derive_payment_status (po_status po) (po_total_amount po) collected returns (is_on_account (po_metadata po));
          ps = (if (ps = ''due'' \<or> ps = ''partial'') \<and> is_order_overdue now (po_metadata po) then ''overdue'' else ps);
          due = (if non_committed_status ps then 0
                 else (let d = fl (fl (po_total_amount po - collected) - returns) in if d < 0 then 0 else d))
      in \<lparr>sl_collected = collected, sl_returns = returns, sl_amount_due = due, sl_status = ps\<rparr>)"

section \<open>The effective date\<close>

text \<open>
  \<open>midnight\<close> gives the instant at which a civil day starts in the tenant's time zone and \<open>today\<close> is
  the current civil day there (the zone data is the operating system's).
\<close>

datatype date_error = Date_Reason_Required | Date_Order_Not_Found | Date_Malformed | Date_In_Future | Date_Too_Old | Date_Db_Error

definition max_move_date_back_days :: int where
  "max_move_date_back_days = 366"

definition parse_and_validate_effective_date :: "(int \<Rightarrow> time) \<Rightarrow> int \<Rightarrow> string \<Rightarrow> date_error + time" where
  "parse_and_validate_effective_date midnight today s =
     (case parse_date (trim_space s) of
        None \<Rightarrow> Inl Date_Malformed
      | Some d \<Rightarrow>
          if midnight d > midnight today then Inl Date_In_Future
          else if midnight d < midnight (today - max_move_date_back_days) then Inl Date_Too_Old
          else Inr (midnight d))"

definition move_order_date ::
  "bool \<Rightarrow> (int \<Rightarrow> time) \<Rightarrow> int \<Rightarrow> string \<Rightarrow> string \<Rightarrow> pos_order option \<Rightarrow> date_error + pos_order" where
  "move_order_date ok midnight today s reason found =
     (if trim_space reason = [] then Inl Date_Reason_Required
      else case found of
        None \<Rightarrow> Inl Date_Order_Not_Found
      | Some po \<Rightarrow>
          (case parse_and_validate_effective_date midnight today s of
             Inl e \<Rightarrow> Inl e
           | Inr d \<Rightarrow> if ok then Inr (po\<lparr>po_business_date := Some d\<rparr>) else Inl Date_Db_Error))"

section \<open>Status and amount agree\<close>

lemma cent_pos: "0 < cent"
  by (simp add: cent_def)

lemma cent_lt_1: "cent < 1"
  unfolding cent_def by code_simp

text \<open>Whole amounts within the exact range of float64.\<close>

definition whole :: "f64 \<Rightarrow> bool" where
  "whole x \<longleftrightarrow> (\<exists>n. x = of_int n \<and> \<bar>n\<bar> \<le> 2 ^ 50)"

lemma whole_add: "whole x \<Longrightarrow> whole y \<Longrightarrow> fl (x + y) = x + y"
  unfolding whole_def by (auto simp flip: of_int_add intro!: fl_of_int)

lemma whole_diff: "whole x \<Longrightarrow> whole y \<Longrightarrow> fl (x - y) = x - y"
  unfolding whole_def by (auto simp flip: of_int_diff intro!: fl_of_int)

lemma whole_diff2: "whole x \<Longrightarrow> whole y \<Longrightarrow> whole z \<Longrightarrow> fl (fl (x - y) - z) = x - y - z"
  unfolding whole_def by (auto simp flip: of_int_diff intro!: fl_of_int simp: fl_of_int)

text \<open>Adding a small amount to a whole one does not reach the next whole amount, rounding included.\<close>

lemma add_small_int:
  assumes "\<bar>n\<bar> \<le> 2 ^ 51" "e \<le> 1 / 2" "(of_int m :: f64) \<le> fl (of_int n + e)"
  shows "m \<le> n"
proof (rule ccontr)
  assume "\<not> m \<le> n"
  then have "of_int n + 1 \<le> (of_int m :: f64)" by (metis not_le of_int_1 of_int_add of_int_le_iff zless_imp_add1_zle)
  have "fl (of_int n + e) \<le> fl (of_int n + 1 / 2)" using assms(2) by (intro fl_mono) simp
  also have "fl (of_int n + 1 / 2) = (of_int n + 1 / 2 :: f64)"
  proof -
    have "(of_int n + 1 / 2 :: f64) = of_int (2 * n + 1) * 2 powi (- 1)" by (simp add: power_int_minus)
    moreover have "\<bar>2 * n + 1\<bar> \<le> 2 ^ 53" using assms(1) by auto
    ultimately show ?thesis by (rule fl_exact [rotated])
  qed
  finally show False using assms(3) \<open>of_int n + 1 \<le> (of_int m :: f64)\<close> by simp
qed

lemma add_cent_int:
  assumes "\<bar>n\<bar> \<le> 2 ^ 51" "\<bar>m\<bar> \<le> 2 ^ 51"
  shows "(of_int m :: f64) \<le> fl (of_int n + cent) \<longleftrightarrow> m \<le> n"
proof
  assume "m \<le> n"
  then have "(of_int m :: f64) \<le> of_int n + cent" using cent_pos by (simp add: order_trans [of _ "of_int n"])
  then show "(of_int m :: f64) \<le> fl (of_int n + cent)"
    using assms(2) by (intro f64_le_fl is_f64_of_int) auto
next
  have "cent \<le> 1 / 2" unfolding cent_def by code_simp
  then show "(of_int m :: f64) \<le> fl (of_int n + cent) \<Longrightarrow> m \<le> n" by (rule add_small_int [OF assms(1)])
qed

lemma compute_settlement_due:
  "sl_amount_due (compute_settlement now po returns) =
     (if non_committed_status (po_status po) then 0
      else max 0 (fl (fl (po_total_amount po - po_paid_total po) - returns)))"
  by (auto simp: compute_settlement_def derive_payment_status_def non_committed_status_def Let_def max_def)

lemma settled_whole:
  assumes "whole amount" "whole collected" "whole returns"
  shows "fl (fl (collected + returns) + cent) \<ge> amount \<longleftrightarrow> amount \<le> collected + returns"
proof -
  obtain a c r where i: "amount = of_int a" "collected = of_int c" "returns = of_int r"
    "\<bar>a\<bar> \<le> 2 ^ 50" "\<bar>c\<bar> \<le> 2 ^ 50" "\<bar>r\<bar> \<le> 2 ^ 50"
    using assms by (auto simp: whole_def)
  have "fl (collected + returns) = of_int (c + r)" using whole_add [OF assms(2,3)] i by simp
  moreover have "\<bar>c + r\<bar> \<le> 2 ^ 51" "\<bar>a\<bar> \<le> 2 ^ 51" using i(4-6) by auto
  ultimately show ?thesis using add_cent_int [of "c + r" a] i by (simp flip: of_int_add)
qed

text \<open>
  C29. On whole amounts the badge and the figure agree for a sale that is not a draft, voided, cancelled,
  refunded or, unless it is on account, completed: it reads ``paid'' exactly when nothing is owed, and
  what is owed is the total less what was collected and returned, never negative. (A completed sale
  that is not on account reads ``paid'' whatever was collected: \<open>completed_reads_paid_while_due\<close>.)
\<close>

theorem settlement_status_matches_due:
  assumes "whole (po_total_amount po)" "whole (po_paid_total po)" "whole returns" "0 < po_total_amount po"
    "po_status po \<notin> {''refunded'', ''voided'', ''cancelled'', ''draft''}"
    "is_on_account (po_metadata po) \<or> po_status po \<noteq> ''completed''"
  shows "let s = compute_settlement now po returns
    in (sl_status s = ''paid'') = (sl_amount_due s = 0) \<and>
       sl_amount_due s = max 0 (po_total_amount po - po_paid_total po - returns)"
proof -
  let ?s = "compute_settlement now po returns"
  have due: "sl_amount_due ?s = max 0 (po_total_amount po - po_paid_total po - returns)"
    using assms(5) whole_diff2 [OF assms(1-3)] by (simp add: compute_settlement_due non_committed_status_def)
  have "derive_payment_status (po_status po) (po_total_amount po) (po_paid_total po) returns (is_on_account (po_metadata po)) = ''paid''
      \<longleftrightarrow> po_total_amount po \<le> po_paid_total po + returns"
    using assms(4-6) settled_whole [OF assms(1-3)] by (auto simp: derive_payment_status_def Let_def)
  then have "sl_status ?s = ''paid'' \<longleftrightarrow> po_total_amount po \<le> po_paid_total po + returns"
    by (auto simp: compute_settlement_def Let_def)
  then show ?thesis unfolding Let_def due by (auto simp: max_def)
qed

definition credit_order :: pos_order where
  "credit_order = kitchen_order\<lparr>po_status := ''completed'', po_paid_total := 50,
     po_metadata := [(''on_account'', JBool True), (''payment_due_date'', JStr ''2026-01-31T00:00:00Z'')]\<rparr>"

theorem settlement_status_matches_due_witness:
  "let s = compute_settlement 0 credit_order 100
   in sl_status s = ''partial'' \<and> sl_amount_due s = 50 \<and> (sl_status s = ''paid'') = (sl_amount_due s = 0)"
proof -
  have w: "whole (po_total_amount credit_order)" "whole (po_paid_total credit_order)" "whole 100"
    unfolding whole_def credit_order_def kitchen_order_def
    by (auto intro: exI [of _ "200 :: int"] exI [of _ "50 :: int"] exI [of _ "100 :: int"])
  have "0 < po_total_amount credit_order" "is_on_account (po_metadata credit_order)"
    "po_status credit_order \<notin> {''refunded'', ''voided'', ''cancelled'', ''draft''}"
    by (simp_all add: credit_order_def kitchen_order_def is_on_account_def)
  moreover have "sl_status (compute_settlement 0 credit_order 100) = ''partial''" by code_simp
  moreover have "sl_amount_due (compute_settlement 0 credit_order 100) = 50" by code_simp
  ultimately show ?thesis
    using settlement_status_matches_due [OF w, of 0] unfolding Let_def by blast
qed

text \<open>
  Without an on-account mark they can disagree: a completed order reads ``paid'' whatever was
  collected, so an order completed by a status update alone reads paid with its whole total due.
\<close>

theorem completed_reads_paid_while_due:
  "\<exists>po. status_step (po_status kitchen_order) (po_status po) \<and> po = kitchen_order\<lparr>po_status := st_completed\<rparr> \<and>
     sl_status (compute_settlement now po 0) = ''paid'' \<and> sl_amount_due (compute_settlement now po 0) = po_total_amount po \<and>
     0 < po_total_amount po"
proof -
  have "status_step (po_status kitchen_order) st_completed" by code_simp
  moreover have "sl_status (compute_settlement now (kitchen_order\<lparr>po_status := st_completed\<rparr>) 0) = ''paid''"
    by (simp add: compute_settlement_def derive_payment_status_def st_completed_def is_on_account_def kitchen_order_def Let_def)
  moreover have "sl_amount_due (compute_settlement now (kitchen_order\<lparr>po_status := st_completed\<rparr>) 0) = 200"
  proof -
    have "fl 200 = (200 :: f64)" by code_simp
    then show ?thesis
      by (simp add: compute_settlement_due non_committed_status_def st_completed_def kitchen_order_def)
  qed
  moreover have "po_total_amount kitchen_order = 200" by (simp add: kitchen_order_def)
  ultimately show ?thesis by (intro exI [of _ "kitchen_order\<lparr>po_status := st_completed\<rparr>"]) simp
qed

text \<open>
  A reporting date is accepted exactly when it is a calendar day from 366 days back to today in
  the tenant's time zone; it is then stored as the start of that day, and the order's effective date
  becomes it.
\<close>

theorem move_order_date_window:
  assumes "strict_mono midnight" "parse_date (trim_space s) = Some d" "trim_space reason \<noteq> []"
  shows "(\<exists>po'. move_order_date True midnight today s reason (Some po) = Inr po' \<and>
            effective_order_date po' = midnight d) = (today - 366 \<le> d \<and> d \<le> today)"
  using assms
  by (auto simp: move_order_date_def parse_and_validate_effective_date_def max_move_date_back_days_def
    effective_order_date_def strict_mono_less not_less)

theorem move_order_date_window_witness:
  "(\<exists>po'. move_order_date True (\<lambda>d. d * 86400000000000) 19800 ''2024-02-29 '' ''late sync'' (Some kitchen_order) = Inr po' \<and>
      effective_order_date po' = 19782 * 86400000000000) = (19800 - 366 \<le> (19782 :: int) \<and> 19782 \<le> (19800 :: int))"
proof (rule move_order_date_window)
  show "strict_mono (\<lambda>d :: int. d * 86400000000000)" by (simp add: strict_mono_def)
  show "parse_date (trim_space ''2024-02-29 '') = Some 19782" by code_simp
  show "trim_space ''late sync'' \<noteq> []" by code_simp
qed

end
