(* ===== verification/Payments.thy ===== *)
theory Payments
  imports Settlement
begin

text \<open>
  Taking money (\<open>internal/modules/payments/service.go\<close>, \<open>apply_credit.go\<close>, \<open>close_on_account.go\<close>).
  The state is the order, payment, return and ticket tables with the post-settlement dispatches and
  the calls made to treasury, both as lists in the order they happened. Treasury's answers, the
  staff-credit service, the CRM and what the database does with each statement are arguments. An
  operation that reads an order and later writes takes the row it read (a snapshot) as an argument,
  so a run of operations with arbitrary snapshots covers concurrent sessions: every statement of the
  model is one database statement or transaction of the code.
\<close>

section \<open>State\<close>

record pos_payment =
  pp_id :: uuid
  pp_order :: uuid
  pp_tender :: uuid
  pp_amount :: f64
  pp_currency :: string
  pp_status :: string
  pp_reference :: "string option"
  pp_data :: meta
  pp_occurred :: time

record pos_return =
  rt_order :: uuid
  rt_status :: string
  rt_channel :: "string option"
  rt_amount :: f64

datatype reference = Order_Reference uuid | Portion_Reference uuid uuid

datatype treasury_call =
    Intent_Created uuid reference f64 string      \<comment> \<open>payment, reference, amount, method\<close>
  | Credit_Sale string string f64 bool            \<comment> \<open>CRM contact, identifier, amount, skip the AR reclass\<close>
  | Credit_Applied string string f64              \<comment> \<open>key, fallback identifier, amount\<close>
  | Credit_Offset uuid string string f64          \<comment> \<open>order, key, fallback identifier, amount\<close>
  | Staff_Provision uuid f64 rat int              \<comment> \<open>staff member, principal, instalment, months\<close>
  | Refund_Created uuid f64
  | Receipt_Voided string string

record pay_db =
  pd_orders :: "uuid \<rightharpoonup> pos_order"
  pd_payments :: "pos_payment list"
  pd_returns :: "pos_return list"
  pd_tickets :: "kds_ticket list"
  pd_dispatched :: "pos_order list"
  pd_calls :: "treasury_call list"

definition ps_pending :: string where "ps_pending = ''pending''"
definition ps_completed :: string where "ps_completed = ''completed''"
definition ps_failed :: string where "ps_failed = ''failed''"
definition ps_voided :: string where "ps_voided = ''voided''"

lemmas ps_defs = ps_pending_def ps_completed_def ps_failed_def ps_voided_def

lemma ps_neq [simp]:
  "ps_pending \<noteq> ps_completed" "ps_completed \<noteq> ps_pending" "ps_pending \<noteq> ps_failed" "ps_failed \<noteq> ps_pending"
  "ps_completed \<noteq> ps_failed" "ps_failed \<noteq> ps_completed" "ps_voided \<noteq> ps_completed" "ps_completed \<noteq> ps_voided"
  "ps_voided \<noteq> ps_pending" "ps_pending \<noteq> ps_voided" "ps_voided \<noteq> ps_failed" "ps_failed \<noteq> ps_voided"
  by (simp_all add: ps_defs)

definition find_pay_order :: "uuid \<Rightarrow> uuid \<Rightarrow> pay_db \<Rightarrow> pos_order option" where
  "find_pay_order tid oid db =
     (case pd_orders db oid of Some po \<Rightarrow> if po_tenant po = tid then Some po else None | None \<Rightarrow> None)"

definition update_order :: "uuid \<Rightarrow> (pos_order \<Rightarrow> pos_order) \<Rightarrow> pay_db \<Rightarrow> pay_db" where
  "update_order oid f db = db\<lparr>pd_orders := (pd_orders db)(oid := map_option f (pd_orders db oid))\<rparr>"

definition add_payment :: "pos_payment \<Rightarrow> pay_db \<Rightarrow> pay_db" where
  "add_payment p db = db\<lparr>pd_payments := pd_payments db @ [p]\<rparr>"

definition add_call :: "treasury_call \<Rightarrow> pay_db \<Rightarrow> pay_db" where
  "add_call c db = db\<lparr>pd_calls := pd_calls db @ [c]\<rparr>"

section \<open>Tenders\<close>

definition canonical_tender_method :: "string \<Rightarrow> string" where
  "canonical_tender_method method =
     (let m = to_lower (trim_space method) in if m = ''manual'' then ''mpesa_manual'' else m)"

definition is_cash_method :: "string \<Rightarrow> bool" where
  "is_cash_method method \<longleftrightarrow> to_lower (trim_space method) \<in> set
     [''cash'', ''manual'', ''mpesa_manual'', ''room_charge'', ''card_manual'', ''pdq'', ''card_terminal'']"

definition treasury_method_for_immediate :: "string \<Rightarrow> string" where
  "treasury_method_for_immediate method =
     (let m = to_lower (trim_space method)
      in if m \<in> set [''card_manual'', ''pdq'', ''card_terminal''] then ''card_manual''
         else if m \<in> set [''manual'', ''mpesa_manual''] then ''mpesa_manual''
         else ''cash'')"

definition tender_on_account :: string where "tender_on_account = ''on_account''"
definition tender_customer_credit :: string where "tender_customer_credit = ''customer_credit''"
definition tender_complimentary :: string where "tender_complimentary = ''complimentary''"

section \<open>Sums over an order's payments\<close>

definition payment_method :: "pos_payment \<Rightarrow> string" where
  "payment_method p = as_str (meta_get (pp_data p) ''method'')"

definition is_credit_row :: "pos_payment \<Rightarrow> bool" where
  "is_credit_row p \<longleftrightarrow> equal_fold (payment_method p) tender_on_account"

definition completed_rows :: "uuid \<Rightarrow> pos_payment list \<Rightarrow> pos_payment list" where
  "completed_rows oid ps = filter (\<lambda>p. pp_order p = oid \<and> pp_status p = ps_completed) ps"

definition collected_of :: "uuid \<Rightarrow> pos_payment list \<Rightarrow> f64" where
  "collected_of oid ps = sum_fl 0 (map pp_amount (filter (\<lambda>p. \<not> is_credit_row p) (completed_rows oid ps)))"

definition settled_of :: "uuid \<Rightarrow> pos_payment list \<Rightarrow> f64" where
  "settled_of oid ps = sum_fl 0 (map pp_amount (completed_rows oid ps))"

definition completed_returns_total :: "bool \<Rightarrow> uuid \<Rightarrow> pay_db \<Rightarrow> f64 \<times> bool" where
  "completed_returns_total ok oid db =
     (if \<not> ok then (0, False)
      else (sum_fl 0 (map rt_amount (filter (\<lambda>r. rt_order r = oid \<and> rt_status r = ''completed''
                \<and> rt_channel r \<noteq> Some ''offset_invoice'') (pd_returns db))), True))"

record recompute_fault =
  rf_sum_ok :: bool
  rf_store_ok :: bool

text \<open>The result is (collected, settled, no error).\<close>

definition recompute_paid_total :: "recompute_fault \<Rightarrow> uuid \<Rightarrow> pay_db \<Rightarrow> (f64 \<times> f64 \<times> bool) \<times> pay_db" where
  "recompute_paid_total f oid db =
     (if \<not> rf_sum_ok f then ((0, 0, False), db)
      else (let collected = collected_of oid (pd_payments db); settled = settled_of oid (pd_payments db)
            in if \<not> rf_store_ok f then ((collected, settled, False), db)
               else ((collected, settled, True), update_order oid (\<lambda>po. po\<lparr>po_paid_total := collected\<rparr>) db)))"

definition outstanding_balance :: "recompute_fault \<Rightarrow> bool \<Rightarrow> pos_order \<Rightarrow> pay_db \<Rightarrow> f64 \<times> pay_db" where
  "outstanding_balance f returns_ok po db =
     (let r = recompute_paid_total f (po_id po) db
      in if \<not> snd (snd (fst r)) then (po_total_amount po, snd r)
         else (let remaining = fl (fl (po_total_amount po - fst (fst r)) - fst (completed_returns_total returns_ok (po_id po) (snd r)))
               in (if remaining > 0 then remaining else 0, snd r)))"

section \<open>Completing an order\<close>

record completion_fault =
  cf_recompute :: recompute_fault
  cf_claim_ok :: bool
  cf_reload_ok :: bool
  cf_close_ok :: bool
  cf_now :: time

definition is_service_job :: "string \<Rightarrow> bool" where
  "is_service_job subtype \<longleftrightarrow> subtype = ''service_job''"

definition settleable :: "string \<Rightarrow> bool" where
  "settleable s \<longleftrightarrow> s = st_draft \<or> s = st_open \<or> s = st_pending_payment"

text \<open>
  The claim is one conditional update: it succeeds for exactly one of the sessions that race for it.
\<close>

definition claim_completion :: "completion_fault \<Rightarrow> pos_order \<Rightarrow> pay_db \<Rightarrow> pay_db" where
  "claim_completion f snap db =
     (if \<not> cf_claim_ok f then db
      else case pd_orders db (po_id snap) of
        Some row \<Rightarrow>
          if settleable (po_status row)
          then (let db = update_order (po_id snap) (\<lambda>po. po\<lparr>po_status := st_completed\<rparr>) db;
                    updated = (if cf_reload_ok f then row\<lparr>po_status := st_completed\<rparr> else snap\<lparr>po_status := st_completed\<rparr>)
                in db\<lparr>pd_dispatched := pd_dispatched db @ [updated]\<rparr>)
          else if \<not> is_service_job (po_subtype snap)
          then db\<lparr>pd_tickets := close_order_tickets (cf_close_ok f) (cf_now f) (po_tenant snap) (po_id snap) Served (pd_tickets db)\<rparr>
          else db
      | None \<Rightarrow>
          if \<not> is_service_job (po_subtype snap)
          then db\<lparr>pd_tickets := close_order_tickets (cf_close_ok f) (cf_now f) (po_tenant snap) (po_id snap) Served (pd_tickets db)\<rparr>
          else db)"

definition complete_order_if_fully_paid :: "completion_fault \<Rightarrow> pos_order \<Rightarrow> pay_db \<Rightarrow> pay_db" where
  "complete_order_if_fully_paid f snap db =
     (let r = recompute_paid_total (cf_recompute f) (po_id snap) db
      in if \<not> snd (snd (fst r)) then snd r
         else if fl (fst (snd (fst r)) + cent) \<ge> po_total_amount snap then claim_completion f snap (snd r)
         else snd r)"

definition recheck_completion :: "completion_fault \<Rightarrow> uuid \<Rightarrow> uuid \<Rightarrow> pay_db \<Rightarrow> pay_db" where
  "recheck_completion f tid oid db =
     (case find_pay_order tid oid db of Some po \<Rightarrow> complete_order_if_fully_paid f po db | None \<Rightarrow> db)"

section \<open>Requests\<close>

record pay_request =
  pr_tenant :: uuid
  pr_order :: uuid
  pr_tender :: uuid
  pr_method :: string
  pr_amount :: f64
  pr_tendered :: f64
  pr_currency :: string
  pr_reference :: string
  pr_ext_ref :: string
  pr_public_base :: string
  pr_slug :: string
  pr_due_date :: "time option"
  pr_credit_notes :: string
  pr_comp_reason :: string
  pr_approved_by :: "uuid option"
  pr_apply_store_credit :: bool

datatype pay_error =
    Treasury_Not_Configured
  | Pay_Order_Not_Found
  | Cannot_Pay string
  | Already_Settled
  | No_Outstanding
  | Fully_Paid
  | Code_Reused string
  | Pay_Db_Error
  | Treasury_Failed
  | Credit_Needs_Customer
  | Credit_Rejected
  | Comp_Needs_Reason

record pay_result =
  ps_intent :: string
  ps_initiate_url :: string
  ps_is_cash :: bool

definition cash_result :: pay_result where
  "cash_result = \<lparr>ps_intent = [], ps_initiate_url = [], ps_is_cash = True\<rparr>"

definition pay_gate :: "pos_order \<Rightarrow> pay_error option" where
  "pay_gate po =
     (if po_status po = st_cancelled \<or> po_status po = st_voided then Some (Cannot_Pay (po_status po))
      else if po_status po = st_completed \<or> po_status po = st_refunded then Some Already_Settled
      else None)"

definition clamp_amount :: "f64 \<Rightarrow> f64 \<Rightarrow> f64" where
  "clamp_amount amount outstanding =
     (let a = (if amount \<le> 0 then outstanding else amount)
      in if a > fl (outstanding + cent) then outstanding else a)"

definition nil_if_empty :: "string \<Rightarrow> string option" where
  "nil_if_empty s = (if s = [] then None else Some s)"

definition cash_payment_data :: "string \<Rightarrow> f64 \<Rightarrow> f64 \<Rightarrow> meta" where
  "cash_payment_data method amount tendered =
     (''method'', JStr method) #
       (if tendered > fl (amount + fl (5 / 1000))
        then [(''amount_tendered'', JNum tendered), (''change_due'', JNum (fl (tendered - amount)))] else [])"

definition mpesa_code_reused :: "uuid \<Rightarrow> string \<Rightarrow> pay_db \<Rightarrow> bool" where
  "mpesa_code_reused tid code db =
     list_ex (\<lambda>p. (case pp_reference p of Some r \<Rightarrow> equal_fold r code | None \<Rightarrow> False) \<and> pp_status p = ps_completed
        \<and> find_pay_order tid (pp_order p) db \<noteq> None) (pd_payments db)"

definition intent_reference :: "bool \<Rightarrow> uuid \<Rightarrow> uuid \<Rightarrow> time \<Rightarrow> pay_db \<Rightarrow> reference" where
  "intent_reference ok oid pid at_time db =
     (if ok \<and> list_ex (\<lambda>p. pp_order p = oid \<and> pp_id p \<noteq> pid \<and> (pp_status p = ps_pending \<or> pp_status p = ps_completed)
             \<and> pp_occurred p < at_time) (pd_payments db)
      then Portion_Reference oid pid else Order_Reference oid)"

section \<open>The environment of a request\<close>

text \<open>
  \<open>pe_due_at\<close> and \<open>pe_due_after\<close> print a given instant and the instant \<open>n\<close> days from now as RFC 3339
  text; \<open>pe_parse_uuid\<close> is \<open>uuid.Parse\<close>; \<open>pe_loyalty\<close> the CRM contact of a phone's loyalty account and
  \<open>pe_marketflow\<close> the CRM's upsert, when it is enabled; \<open>pe_intent\<close> and \<open>pe_credit\<close> are treasury's
  answers (\<open>None\<close> is an error or a rejection).
\<close>

record credit_reply =
  cr_period :: "int option"
  cr_store_credit :: f64

record pay_env =
  pe_treasury :: bool
  pe_default_currency :: string
  pe_outstanding :: recompute_fault
  pe_returns_ok :: bool
  pe_intent :: "(string \<times> string) option"
  pe_insert_ok :: bool
  pe_meta_ok :: bool
  pe_payment_id :: uuid
  pe_now :: time
  pe_completion :: completion_fault
  pe_lock_ok :: bool
  pe_rows_ok :: bool
  pe_fresh_returns_ok :: bool
  pe_reuse_ok :: bool
  pe_commit_ok :: bool
  pe_reference_ok :: bool
  pe_parse_uuid :: "string \<Rightarrow> uuid option"
  pe_staff_service :: bool
  pe_staff_entitled :: bool
  pe_provision_ok :: bool
  pe_loyalty :: "string \<Rightarrow> string"
  pe_marketflow :: "(string \<Rightarrow> string \<Rightarrow> string) option"
  pe_credit :: "credit_reply option"
  pe_apply_ok :: bool
  pe_due_at :: "time \<Rightarrow> string"
  pe_due_after :: "int \<Rightarrow> string"
  pe_staff_key :: "uuid \<Rightarrow> string"

definition new_payment :: "pay_env \<Rightarrow> pay_request \<Rightarrow> f64 \<Rightarrow> string \<Rightarrow> string \<Rightarrow> string option \<Rightarrow> meta \<Rightarrow> pos_payment" where
  "new_payment env req amount currency status ref data =
     \<lparr>pp_id = pe_payment_id env, pp_order = pr_order req, pp_tender = pr_tender req, pp_amount = amount,
      pp_currency = currency, pp_status = status, pp_reference = ref, pp_data = data, pp_occurred = pe_now env\<rparr>"

section \<open>Credit sales\<close>

definition staff_credit_party :: "pay_env \<Rightarrow> meta \<Rightarrow> (uuid \<times> bool) option" where
  "staff_credit_party env m =
     (let sid = as_str (meta_get m ''staff_member_id'')
      in if sid = [] then None
         else map_option (\<lambda>i. (i, as_bool (meta_get m ''fund_from_salary''))) (pe_parse_uuid env sid))"

text \<open>Go's conversion of a float64 to \<open>int\<close> drops the fraction.\<close>

definition trunc :: "f64 \<Rightarrow> int" where
  "trunc x = (if x < 0 then - \<lfloor>- x\<rfloor> else \<lfloor>x\<rfloor>)"

definition staff_credit :: "pay_env \<Rightarrow> meta \<Rightarrow> (uuid \<times> int) option" where
  "staff_credit env m =
     (case staff_credit_party env m of
        Some (sid, fund) \<Rightarrow>
          if fund then Some (sid, (case meta_get m ''installment_months'' of Some (JNum v) \<Rightarrow> trunc v | _ \<Rightarrow> 0))
          else None
      | None \<Rightarrow> None)"

definition resolve_crm_contact_id :: "pay_env \<Rightarrow> string \<Rightarrow> string" where
  "resolve_crm_contact_id env phone = (if trim_space phone = [] then [] else pe_loyalty env phone)"

definition resolve_or_create_crm_contact_id :: "pay_env \<Rightarrow> string \<Rightarrow> string \<Rightarrow> string" where
  "resolve_or_create_crm_contact_id env phone name =
     (let crm = resolve_crm_contact_id env phone
      in if crm \<noteq> [] then crm
         else if trim_space phone = [] then []
         else (case pe_marketflow env of None \<Rightarrow> [] | Some upsert \<Rightarrow> upsert phone name))"

definition is_walk_in :: "string \<Rightarrow> bool" where
  "is_walk_in name \<longleftrightarrow> (let n = trim_space name
     in equal_fold n ''walk-in customer'' \<or> equal_fold n ''walk in customer'')"

definition stamp_on_account :: "pay_env \<Rightarrow> pay_request \<Rightarrow> credit_reply \<Rightarrow> meta \<Rightarrow> meta" where
  "stamp_on_account env req reply m =
     (let m = meta_set ''on_account'' (JBool True) m;
          due = (case pr_due_date req of
                   Some d \<Rightarrow> pe_due_at env d
                 | None \<Rightarrow> (case cr_period reply of
                              Some n \<Rightarrow> if n > 0 then pe_due_after env n else pe_due_after env 30
                            | None \<Rightarrow> pe_due_after env 30));
          m = meta_set ''payment_due_date'' (JStr due) m
      in if pr_credit_notes req \<noteq> [] then meta_set ''credit_notes'' (JStr (pr_credit_notes req)) m else m)"

definition credit_to_receivable ::
  "pay_env \<Rightarrow> pos_order \<Rightarrow> pay_request \<Rightarrow> string \<Rightarrow> pay_db \<Rightarrow> (pay_error + pay_result) \<times> pay_db" where
  "credit_to_receivable env po req currency db =
     (let party = staff_credit_party env (po_metadata po);
          name = opt_str (po_customer_name po);
          phone = (case party of
              Some (sid, _) \<Rightarrow> if trim_space (opt_str (po_customer_phone po)) = [] then pe_staff_key env sid
                              else opt_str (po_customer_phone po)
            | None \<Rightarrow> opt_str (po_customer_phone po))
      in if \<not> pe_treasury env then (Inl Treasury_Not_Configured, db)
         else if party = None \<and> (trim_space phone = [] \<or> is_walk_in name) then (Inl Credit_Needs_Customer, db)
         else
           (let crm = (if party \<noteq> None then resolve_crm_contact_id env phone
                       else resolve_or_create_crm_contact_id env phone name)
            in case pe_credit env of
              None \<Rightarrow> (Inl Credit_Rejected, db)
            | Some reply \<Rightarrow>
                (let db = add_call (Credit_Sale crm phone (pr_amount req) (po_status po \<noteq> st_completed)) db;
                     m = stamp_on_account env req reply (po_metadata po);
                     db = (if pe_meta_ok env then update_order (po_id po) (\<lambda>r. r\<lparr>po_metadata := m\<rparr>) db else db);
                     offset = min (cr_store_credit reply) (pr_amount req);
                     db = (if pr_apply_store_credit req \<and> offset > fl (5 / 1000)
                           then add_call (Credit_Offset (po_id po) (if crm = [] then phone else crm)
                                  (if crm = [] then [] else phone) offset) db
                           else db)
                 in if \<not> pe_insert_ok env then (Inl Pay_Db_Error, db)
                    else (let db = add_payment (new_payment env req (pr_amount req) currency ps_completed
                                (nil_if_empty (po_number po)) [(''method'', JStr tender_on_account)]) db
                          in (Inr cash_result,
                              complete_order_if_fully_paid (pe_completion env) (po\<lparr>po_metadata := m\<rparr>) db)))))"

definition record_credit_sale ::
  "dec_lib \<Rightarrow> pay_env \<Rightarrow> pos_order \<Rightarrow> pay_request \<Rightarrow> string \<Rightarrow> pay_db \<Rightarrow> (pay_error + pay_result) \<times> pay_db" where
  "record_credit_sale L env po req currency db =
     (case (if pe_staff_service env \<and> pe_staff_entitled env \<and> pe_provision_ok env
            then staff_credit env (po_metadata po) else None) of
        Some (sid, months) \<Rightarrow>
          (let months = (if months < 1 then 1 else months);
               principal = of_float L (pr_amount req);
               db = add_call (Staff_Provision sid (pr_amount req) (dec_div L principal (of_int months)) months) db
           in if \<not> pe_insert_ok env then (Inl Pay_Db_Error, db)
              else (Inr cash_result,
                    complete_order_if_fully_paid (pe_completion env) po
                      (add_payment (new_payment env req (pr_amount req) currency ps_completed (nil_if_empty (po_number po))
                         [(''method'', JStr tender_on_account), (''fund_from_salary'', JBool True)]) db)))
      | None \<Rightarrow> credit_to_receivable env po req currency db)"

section \<open>The other immediate tenders\<close>

definition record_complimentary_sale ::
  "pay_env \<Rightarrow> (uuid \<Rightarrow> string) \<Rightarrow> pos_order \<Rightarrow> pay_request \<Rightarrow> string \<Rightarrow> pay_db \<Rightarrow> (pay_error + pay_result) \<times> pay_db" where
  "record_complimentary_sale env show_uuid po req currency db =
     (if trim_space (pr_comp_reason req) = [] then (Inl Comp_Needs_Reason, db)
      else
        (let m = meta_set ''complimentary_reason'' (JStr (pr_comp_reason req))
                   (meta_set ''complimentary'' (JBool True) (po_metadata po));
             m = (case pr_approved_by req of
                    Some u \<Rightarrow> meta_set ''complimentary_approved_by'' (JStr (show_uuid u)) m
                  | None \<Rightarrow> m);
             db = (if pe_meta_ok env then update_order (po_id po) (\<lambda>r. r\<lparr>po_metadata := m\<rparr>) db else db)
         in if \<not> pe_insert_ok env then (Inl Pay_Db_Error, db)
            else (Inr cash_result,
                  complete_order_if_fully_paid (pe_completion env) (po\<lparr>po_metadata := m\<rparr>)
                    (add_payment (new_payment env req (pr_amount req) currency ps_completed (nil_if_empty (po_number po))
                       [(''method'', JStr tender_complimentary), (''reason'', JStr (pr_comp_reason req))]) db))))"

definition apply_customer_credit_tender ::
  "pay_env \<Rightarrow> pos_order \<Rightarrow> pay_request \<Rightarrow> string \<Rightarrow> pay_db \<Rightarrow> (pay_error + pay_result) \<times> pay_db" where
  "apply_customer_credit_tender env po req currency db =
     (let phone = opt_str (po_customer_phone po); name = opt_str (po_customer_name po)
      in if \<not> pe_treasury env then (Inl Treasury_Not_Configured, db)
         else if trim_space phone = [] \<or> is_walk_in name then (Inl Credit_Needs_Customer, db)
         else
           (let crm = resolve_or_create_crm_contact_id env phone name;
                key = (if crm = [] then phone else crm);
                fallback = (if crm = [] then [] else phone)
            in if \<not> pe_apply_ok env then (Inl Credit_Rejected, db)
               else
                 (let db = add_call (Credit_Applied key fallback (pr_amount req)) db
                  in if \<not> pe_insert_ok env then (Inl Pay_Db_Error, db)
                     else (Inr cash_result,
                           complete_order_if_fully_paid (pe_completion env) po
                             (add_payment (new_payment env req (pr_amount req) currency ps_completed
                                (nil_if_empty (po_number po)) [(''method'', JStr tender_customer_credit)]) db)))))"

section \<open>CreatePaymentIntent\<close>

definition digital_intent ::
  "pay_env \<Rightarrow> pos_order \<Rightarrow> pay_request \<Rightarrow> string \<Rightarrow> pay_db \<Rightarrow> (pay_error + pay_result) \<times> pay_db" where
  "digital_intent env po req currency db =
     (let ref = intent_reference (pe_reference_ok env) (pr_order req) (pe_payment_id env) (pe_now env) db
      in case pe_intent env of
        None \<Rightarrow> (Inl Treasury_Failed, db)
      | Some (intent, url) \<Rightarrow>
          (let db = add_call (Intent_Created (pe_payment_id env) ref (pr_amount req) ''pending'') db
           in if \<not> pe_insert_ok env then (Inl Pay_Db_Error, db)
              else (Inr \<lparr>ps_intent = intent,
                        ps_initiate_url = (if url \<noteq> [] then url
                           else pr_public_base req @ ''/api/v1/'' @ pr_slug req @ ''/pos/payments/initiate''),
                        ps_is_cash = False\<rparr>,
                    add_payment (new_payment env req (pr_amount req) currency ps_pending (nil_if_empty intent)
                      [(''method'', JStr (pr_method req))]) db)))"

text \<open>
  The cash branch holds the row lock of the order from here to its commit: it sums the completed
  payments afresh, but the total is the snapshot's and the returns were summed before the lock. The
  check of a mobile-money code is not part of the transaction: it reads \<open>seen\<close>, the database at
  some earlier moment, and other orders may take the same code between that read and the insert.
\<close>

definition cash_commit ::
  "pay_env \<Rightarrow> pos_order \<Rightarrow> pay_request \<Rightarrow> string \<Rightarrow> f64 \<Rightarrow> pay_db \<Rightarrow> pay_db \<Rightarrow> (pay_error + pos_payment) \<times> pay_db" where
  "cash_commit env snap req currency returns seen db =
     (if \<not> pe_lock_ok env \<or> find_pay_order (pr_tenant req) (po_id snap) db = None then (Inl Pay_Db_Error, db)
      else if \<not> pe_rows_ok env then (Inl Pay_Db_Error, db)
      else
        (let collected = collected_of (po_id snap) (pd_payments db);
             fresh = fl (fl (po_total_amount snap - collected) - returns)
         in if fresh \<le> 0 then (Inl Fully_Paid, db)
            else
              (let amount = (if pr_amount req > fl (fresh + cent) then fresh else pr_amount req);
                   coded = (equal_fold (pr_method req) ''mpesa_manual'' \<and> pr_ext_ref req \<noteq> [])
               in if coded \<and> \<not> pe_reuse_ok env then (Inl Pay_Db_Error, db)
                  else if coded \<and> mpesa_code_reused (pr_tenant req) (pr_ext_ref req) seen
                  then (Inl (Code_Reused (pr_ext_ref req)), db)
                  else if \<not> pe_insert_ok env \<or> \<not> pe_commit_ok env then (Inl Pay_Db_Error, db)
                  else (let p = new_payment env req amount currency ps_completed (nil_if_empty (pr_ext_ref req))
                                  (cash_payment_data (pr_method req) amount (pr_tendered req))
                        in (Inr p, add_payment p db)))))"

definition cash_intent ::
  "pay_env \<Rightarrow> pos_order \<Rightarrow> pay_request \<Rightarrow> string \<Rightarrow> pay_db \<Rightarrow> (pay_error + pay_result) \<times> pay_db" where
  "cash_intent env snap req currency db =
     (case cash_commit env snap req currency
              (fst (completed_returns_total (pe_fresh_returns_ok env) (po_id snap) db)) db db of
        (Inl e, db') \<Rightarrow> (Inl e, db')
      | (Inr p, db') \<Rightarrow>
          (let db' = complete_order_if_fully_paid (pe_completion env) snap db'
           in (Inr cash_result,
               add_call (Intent_Created (pp_id p)
                   (intent_reference (pe_reference_ok env) (pr_order req) (pp_id p) (pp_occurred p) db')
                   (pr_amount req) (treasury_method_for_immediate (pr_method req))) db')))"

definition create_payment_intent ::
  "dec_lib \<Rightarrow> pay_env \<Rightarrow> (uuid \<Rightarrow> string) \<Rightarrow> pay_request \<Rightarrow> pay_db \<Rightarrow> (pay_error + pay_result) \<times> pay_db" where
  "create_payment_intent L env show_uuid req db =
     (if \<not> pe_treasury env then (Inl Treasury_Not_Configured, db)
      else
        (let req = req\<lparr>pr_method := canonical_tender_method (pr_method req)\<rparr>
         in case find_pay_order (pr_tenant req) (pr_order req) db of
           None \<Rightarrow> (Inl Pay_Order_Not_Found, db)
         | Some po \<Rightarrow>
             (case pay_gate po of
                Some e \<Rightarrow> (Inl e, db)
              | None \<Rightarrow>
                  (let ob = outstanding_balance (pe_outstanding env) (pe_returns_ok env) po db;
                       db = snd ob
                   in if fst ob \<le> 0 then (Inl No_Outstanding, db)
                      else
                        (let req = req\<lparr>pr_amount := clamp_amount (pr_amount req) (fst ob)\<rparr>;
                             currency = (if pr_currency req = [] then pe_default_currency env else pr_currency req)
                         in if equal_fold (pr_method req) tender_on_account
                            then record_credit_sale L env po req currency db
                            else if equal_fold (pr_method req) tender_complimentary
                            then record_complimentary_sale env show_uuid po req currency db
                            else if equal_fold (pr_method req) tender_customer_credit
                            then apply_customer_credit_tender env po req currency db
                            else if \<not> is_cash_method (pr_method req) then digital_intent env po req currency db
                            else cash_intent env po req currency db)))))"

text \<open>The direct-record path.\<close>

definition record_payment :: "pay_env \<Rightarrow> pay_request \<Rightarrow> pay_db \<Rightarrow> (pay_error + pos_payment) \<times> pay_db" where
  "record_payment env req db =
     (case find_pay_order (pr_tenant req) (pr_order req) db of
        None \<Rightarrow> (Inl Pay_Order_Not_Found, db)
      | Some po \<Rightarrow>
          (case pay_gate po of
             Some e \<Rightarrow> (Inl e, db)
           | None \<Rightarrow>
               (let ob = outstanding_balance (pe_outstanding env) (pe_returns_ok env) po db; db = snd ob
                in if fst ob \<le> 0 then (Inl No_Outstanding, db)
                   else if \<not> pe_insert_ok env then (Inl Pay_Db_Error, db)
                   else (let p = new_payment env req (clamp_amount (pr_amount req) (fst ob))
                               (if pr_currency req = [] then pe_default_currency env else pr_currency req)
                               ps_completed (nil_if_empty (pr_reference req)) []
                         in (Inr p, complete_order_if_fully_paid (pe_completion env) po (add_payment p db))))))"

definition close_on_account ::
  "dec_lib \<Rightarrow> pay_env \<Rightarrow> pay_request \<Rightarrow> pay_db \<Rightarrow> (pay_error + pay_result) \<times> pay_db" where
  "close_on_account L env req db =
     (case find_pay_order (pr_tenant req) (pr_order req) db of
        None \<Rightarrow> (Inl Pay_Order_Not_Found, db)
      | Some po \<Rightarrow>
          if po_status po = st_cancelled \<or> po_status po = st_voided \<or> po_status po = st_refunded
          then (Inl (Cannot_Pay (po_status po)), db)
          else if is_on_account (po_metadata po)
          then (Inr cash_result, complete_order_if_fully_paid (pe_completion env) po db)
          else
            (let ob = outstanding_balance (pe_outstanding env) (pe_returns_ok env) po db; db = snd ob
             in if fst ob \<le> cent then (Inl No_Outstanding, db)
                else record_credit_sale L env po
                       (req\<lparr>pr_method := tender_on_account, pr_amount := fst ob, pr_apply_store_credit := False\<rparr>)
                       (if po_currency po = [] then pe_default_currency env else po_currency po) db))"

section \<open>Treasury's callbacks\<close>

definition confirm_row :: "f64 \<Rightarrow> string \<Rightarrow> pos_payment \<Rightarrow> pos_payment" where
  "confirm_row settled_amount payer p =
     (let data = meta_set ''settled_via'' (JStr ''treasury_gateway'') (pp_data p);
          data = (if payer \<noteq> [] then meta_set ''payer_name'' (JStr payer) data else data)
      in p\<lparr>pp_status := ps_completed, pp_data := data,
           pp_amount := (if settled_amount > 0 \<and> settled_amount \<noteq> pp_amount p then settled_amount else pp_amount p)\<rparr>)"

definition replace_payment :: "uuid \<Rightarrow> (pos_payment \<Rightarrow> pos_payment) \<Rightarrow> pay_db \<Rightarrow> pay_db" where
  "replace_payment pid f db = db\<lparr>pd_payments := map (\<lambda>p. if pp_id p = pid then f p else p) (pd_payments db)\<rparr>"

text \<open>The loop over the rows read at the start; it stops at the first write that fails.\<close>

fun confirm_loop ::
  "(uuid \<Rightarrow> bool) \<Rightarrow> completion_fault \<Rightarrow> f64 \<Rightarrow> string \<Rightarrow> (uuid \<rightharpoonup> pos_order) \<Rightarrow> pos_payment list \<Rightarrow> pay_db
     \<Rightarrow> (pay_error + unit) \<times> pay_db" where
  "confirm_loop ok f amt payer snaps [] db = (Inr (), db)"
| "confirm_loop ok f amt payer snaps (p # ps) db =
     (if pp_status p = ps_completed then confirm_loop ok f amt payer snaps ps db
      else if \<not> ok (pp_id p) then (Inl Pay_Db_Error, db)
      else (let db = replace_payment (pp_id p) (\<lambda>_. confirm_row amt payer p) db;
                db = (case snaps (pp_order p) of
                        Some po \<Rightarrow> complete_order_if_fully_paid f po db
                      | None \<Rightarrow> db)
            in confirm_loop ok f amt payer snaps ps db))"

definition confirm_payment_by_intent ::
  "bool \<Rightarrow> (uuid \<Rightarrow> bool) \<Rightarrow> completion_fault \<Rightarrow> string \<Rightarrow> f64 \<Rightarrow> string \<Rightarrow> pay_db \<Rightarrow> (pay_error + unit) \<times> pay_db" where
  "confirm_payment_by_intent query_ok ok f intent amt payer db =
     (let rows = filter (\<lambda>p. pp_reference p = Some intent) (pd_payments db)
      in if \<not> query_ok \<or> rows = [] then (Inl Pay_Order_Not_Found, db)
         else confirm_loop ok f amt payer (pd_orders db) rows db)"

fun fail_loop :: "(uuid \<Rightarrow> bool) \<Rightarrow> pos_payment list \<Rightarrow> pay_db \<Rightarrow> (pay_error + unit) \<times> pay_db" where
  "fail_loop ok [] db = (Inr (), db)"
| "fail_loop ok (p # ps) db =
     (if pp_status p \<noteq> ps_pending then fail_loop ok ps db
      else if \<not> ok (pp_id p) then (Inl Pay_Db_Error, db)
      else fail_loop ok ps (replace_payment (pp_id p) (\<lambda>_. p\<lparr>pp_status := ps_failed\<rparr>) db))"

definition fail_payment_by_intent :: "bool \<Rightarrow> (uuid \<Rightarrow> bool) \<Rightarrow> string \<Rightarrow> pay_db \<Rightarrow> (pay_error + unit) \<times> pay_db" where
  "fail_payment_by_intent query_ok ok intent db =
     (if \<not> query_ok then (Inl Pay_Db_Error, db)
      else fail_loop ok (filter (\<lambda>p. pp_reference p = Some intent) (pd_payments db)) db)"

text \<open>
  The background creation of a cash payment's treasury intent: the intent id is written to the row
  only while its reference is still empty.
\<close>

definition run_treasury_intent_create :: "bool \<Rightarrow> string option \<Rightarrow> bool \<Rightarrow> uuid \<Rightarrow> pay_db \<Rightarrow> pay_db" where
  "run_treasury_intent_create treasury intent ok pid db =
     (if \<not> treasury then db
      else case intent of
        None \<Rightarrow> db
      | Some i \<Rightarrow>
          if i = [] \<or> \<not> ok then db
          else replace_payment pid (\<lambda>p. if pp_reference p = None then p\<lparr>pp_reference := Some i\<rparr> else p) db)"

definition run_store_credit_offset :: "bool \<Rightarrow> bool \<Rightarrow> bool \<Rightarrow> bool \<Rightarrow> uuid \<Rightarrow> f64 \<Rightarrow> pay_db \<Rightarrow> pay_db" where
  "run_store_credit_offset treasury apply_ok reload_ok write_ok oid offset db =
     (if \<not> treasury \<or> \<not> apply_ok \<or> \<not> reload_ok \<or> \<not> write_ok then db
      else update_order oid (\<lambda>po. po\<lparr>po_metadata := meta_set ''store_credit_applied'' (JNum offset) (po_metadata po)\<rparr>) db)"

section \<open>One completion per order\<close>

definition db_keyed :: "pay_db \<Rightarrow> bool" where
  "db_keyed db \<longleftrightarrow> (\<forall>oid po. pd_orders db oid = Some po \<longrightarrow> po_id po = oid)"

definition order_status :: "uuid \<Rightarrow> pay_db \<Rightarrow> string option" where
  "order_status oid db = map_option po_status (pd_orders db oid)"

definition dispatches :: "uuid \<Rightarrow> pay_db \<Rightarrow> nat" where
  "dispatches oid db = length (filter (\<lambda>po. po_id po = oid) (pd_dispatched db))"

text \<open>
  \<open>one_winner\<close>: either nothing happened to the order's status and it was not dispatched, or it went
  from a settleable status to completed and was dispatched exactly once.
\<close>

definition one_winner :: "uuid \<Rightarrow> pay_db \<Rightarrow> pay_db \<Rightarrow> bool" where
  "one_winner oid db db' \<longleftrightarrow> (db_keyed db \<longrightarrow> db_keyed db' \<and>
     (order_status oid db' = order_status oid db \<and> dispatches oid db' = dispatches oid db \<or>
      (\<exists>s. order_status oid db = Some s \<and> settleable s) \<and> order_status oid db' = Some st_completed \<and>
      dispatches oid db' = Suc (dispatches oid db)))"

lemma completed_not_settleable [simp]: "\<not> settleable st_completed"
  by (simp add: settleable_def)

named_theorems winner_intros \<open>operations that complete an order at most once\<close>

lemma one_winner_refl [winner_intros]: "one_winner oid db db"
  by (simp add: one_winner_def)

lemma one_winner_trans: "one_winner oid a b \<Longrightarrow> one_winner oid b c \<Longrightarrow> one_winner oid a c"
  by (auto simp: one_winner_def)

lemma one_winner_cong:
  assumes "one_winner oid db a" "pd_orders b = pd_orders a" "pd_dispatched b = pd_dispatched a"
  shows "one_winner oid db b"
  using assms(1) unfolding one_winner_def db_keyed_def order_status_def dispatches_def assms(2,3) .

lemma one_winner_frame [winner_intros]:
  assumes "one_winner oid db db'"
  shows "one_winner oid db (add_payment p db')" "one_winner oid db (add_call c db')"
    "one_winner oid db (replace_payment pid g db')" "one_winner oid db (db'\<lparr>pd_tickets := ts\<rparr>)"
  by (rule one_winner_cong [OF assms]; simp add: add_payment_def add_call_def replace_payment_def)+

lemma one_winner_update [winner_intros]:
  assumes "one_winner oid db db'" "\<And>po. po_status (f po) = po_status po" "\<And>po. po_id (f po) = po_id po"
  shows "one_winner oid db (update_order o' f db')"
proof (rule one_winner_trans [OF assms(1)])
  show "one_winner oid db' (update_order o' f db')"
    using assms(2,3)
    by (auto simp: one_winner_def db_keyed_def order_status_def dispatches_def update_order_def
      option.map_comp comp_def split: if_splits)
qed

lemma one_winner_recompute [winner_intros]:
  "one_winner oid db db' \<Longrightarrow> one_winner oid db (snd (recompute_paid_total f o' db'))"
  by (auto simp: recompute_paid_total_def Let_def intro: one_winner_update)

lemma one_winner_claim: "one_winner oid db (claim_completion f snap db)"
proof (cases "cf_claim_ok f \<and> (\<exists>row. pd_orders db (po_id snap) = Some row \<and> settleable (po_status row))")
  case False
  then have "claim_completion f snap db = db \<or> (\<exists>ts. claim_completion f snap db = db\<lparr>pd_tickets := ts\<rparr>)"
    by (auto simp: claim_completion_def split: option.split)
  then show ?thesis using one_winner_refl one_winner_frame(4) by metis
next
  case True
  then obtain row where row: "pd_orders db (po_id snap) = Some row" "settleable (po_status row)" by blast
  define upd where "upd = (if cf_reload_ok f then row\<lparr>po_status := st_completed\<rparr> else snap\<lparr>po_status := st_completed\<rparr>)"
  have c: "claim_completion f snap db =
      (update_order (po_id snap) (\<lambda>po. po\<lparr>po_status := st_completed\<rparr>) db)\<lparr>pd_dispatched := pd_dispatched db @ [upd]\<rparr>"
    using True row by (simp add: claim_completion_def Let_def upd_def update_order_def)
  show ?thesis unfolding one_winner_def
  proof
    assume keyed: "db_keyed db"
    then have "po_id row = po_id snap" using row(1) by (auto simp: db_keyed_def)
    then have upd: "po_id upd = po_id snap" by (simp add: upd_def)
    have "db_keyed (claim_completion f snap db)"
      using keyed by (auto simp: c db_keyed_def update_order_def split: if_splits)
    moreover have "order_status oid (claim_completion f snap db) =
        (if oid = po_id snap then Some st_completed else order_status oid db)"
      using row(1) by (simp add: c order_status_def update_order_def)
    moreover have "dispatches oid (claim_completion f snap db) = dispatches oid db + (if oid = po_id snap then 1 else 0)"
      using upd by (simp add: c dispatches_def)
    moreover have "oid = po_id snap \<Longrightarrow> \<exists>s. order_status oid db = Some s \<and> settleable s"
      using row by (simp add: order_status_def)
    ultimately show "db_keyed (claim_completion f snap db) \<and>
       (order_status oid (claim_completion f snap db) = order_status oid db \<and>
        dispatches oid (claim_completion f snap db) = dispatches oid db \<or>
        (\<exists>s. order_status oid db = Some s \<and> settleable s) \<and>
        order_status oid (claim_completion f snap db) = Some st_completed \<and>
        dispatches oid (claim_completion f snap db) = Suc (dispatches oid db))"
      by (cases "oid = po_id snap") auto
  qed
qed

lemma one_winner_complete [winner_intros]:
  assumes "one_winner oid db db'"
  shows "one_winner oid db (complete_order_if_fully_paid f snap db')"
proof (rule one_winner_trans [OF assms])
  have r: "one_winner oid db' (snd (recompute_paid_total (cf_recompute f) (po_id snap) db'))"
    by (intro winner_intros)
  show "one_winner oid db' (complete_order_if_fully_paid f snap db')"
    using r one_winner_trans [OF r one_winner_claim]
    by (auto simp: complete_order_if_fully_paid_def Let_def)
qed

lemma one_winner_outstanding [winner_intros]:
  "one_winner oid db db' \<Longrightarrow> one_winner oid db (snd (outstanding_balance f rok po db'))"
  by (auto simp: outstanding_balance_def Let_def intro: winner_intros)

lemma one_winner_cash_commit [winner_intros]:
  "one_winner oid db (snd (cash_commit env snap req cur rets seen db))"
  by (auto simp: cash_commit_def Let_def intro: winner_intros)

lemma one_winner_credit [winner_intros]:
  assumes "one_winner oid db db'"
  shows "one_winner oid db (snd (credit_to_receivable env po req cur db'))"
  unfolding credit_to_receivable_def Let_def
  by (auto split: option.split prod.split intro!: winner_intros assms)

lemma one_winner_credit_sale [winner_intros]:
  assumes "one_winner oid db db'"
  shows "one_winner oid db (snd (record_credit_sale L env po req cur db'))"
  unfolding record_credit_sale_def Let_def
  by (auto split: option.split prod.split intro!: winner_intros assms)

lemma one_winner_comp [winner_intros]:
  assumes "one_winner oid db db'"
  shows "one_winner oid db (snd (record_complimentary_sale env show_uuid po req cur db'))"
  unfolding record_complimentary_sale_def Let_def
  by (auto intro!: winner_intros assms)

lemma one_winner_apply_credit [winner_intros]:
  assumes "one_winner oid db db'"
  shows "one_winner oid db (snd (apply_customer_credit_tender env po req cur db'))"
  unfolding apply_customer_credit_tender_def Let_def
  by (auto intro!: winner_intros assms)

lemma one_winner_digital [winner_intros]:
  assumes "one_winner oid db db'"
  shows "one_winner oid db (snd (digital_intent env po req cur db'))"
  unfolding digital_intent_def Let_def
  by (auto split: option.split intro!: winner_intros assms)

lemma one_winner_cash [winner_intros]:
  assumes "one_winner oid db db'"
  shows "one_winner oid db (snd (cash_intent env po req cur db'))"
proof -
  obtain res db1 where c: "cash_commit env po req cur
      (fst (completed_returns_total (pe_fresh_returns_ok env) (po_id po) db')) db' db' = (res, db1)" by fastforce
  then have "one_winner oid db' db1" by (metis one_winner_cash_commit snd_conv)
  then have "one_winner oid db db1" by (rule one_winner_trans [OF assms])
  then show ?thesis unfolding cash_intent_def c
    by (auto simp: Let_def split: sum.split intro!: winner_intros)
qed

lemma one_winner_intent [winner_intros]: "one_winner oid db (snd (create_payment_intent L env show_uuid req db))"
  unfolding create_payment_intent_def Let_def
  by (auto split: option.split intro!: winner_intros)

lemma one_winner_record [winner_intros]: "one_winner oid db (snd (record_payment env req db))"
  unfolding record_payment_def Let_def
  by (auto split: option.split intro!: winner_intros)

lemma one_winner_close [winner_intros]: "one_winner oid db (snd (close_on_account L env req db))"
  unfolding close_on_account_def Let_def
  by (auto split: option.split intro!: winner_intros)

lemma one_winner_confirm_loop: "one_winner oid db db' \<Longrightarrow> one_winner oid db (snd (confirm_loop ok f amt payer snaps ps db'))"
proof (induction ps arbitrary: db')
  case (Cons p ps)
  then show ?case
    by (cases "snaps (pp_order p)") (auto simp: Let_def intro!: winner_intros Cons.IH)
qed simp

lemma one_winner_confirm [winner_intros]: "one_winner oid db (snd (confirm_payment_by_intent q ok f intent amt payer db))"
  by (auto simp: confirm_payment_by_intent_def Let_def intro!: winner_intros one_winner_confirm_loop)

lemma one_winner_fail_loop: "one_winner oid db db' \<Longrightarrow> one_winner oid db (snd (fail_loop ok ps db'))"
  by (induction ps arbitrary: db') (auto intro!: winner_intros)

lemma one_winner_fail [winner_intros]: "one_winner oid db (snd (fail_payment_by_intent q ok intent db))"
  by (auto simp: fail_payment_by_intent_def intro!: winner_intros one_winner_fail_loop)

lemma one_winner_backfill [winner_intros]: "one_winner oid db (run_treasury_intent_create tr i ok pid db)"
  by (auto simp: run_treasury_intent_create_def split: option.split intro!: winner_intros)

lemma one_winner_offset [winner_intros]: "one_winner oid db (run_store_credit_offset tr a r w o' offset db)"
  by (auto simp: run_store_credit_offset_def intro!: winner_intros)

lemma one_winner_recheck [winner_intros]: "one_winner oid db (recheck_completion f tid o' db)"
  by (auto simp: recheck_completion_def split: option.split intro!: winner_intros)

text \<open>
  The payment service as a step relation. A whole request is one step; its cash branch and the
  completion check are also steps of their own, with any snapshot, since other sessions run between
  the read of an order and the locked insert or the claim. Corrections and the other handlers of the
  service join these steps in the theory of the corrections.
\<close>

inductive pay_step :: "pay_db \<Rightarrow> pay_db \<Rightarrow> bool" where
  step_intent: "pay_step db (snd (create_payment_intent L env show_uuid req db))"
| step_record: "pay_step db (snd (record_payment env req db))"
| step_close: "pay_step db (snd (close_on_account L env req db))"
| step_cash: "pay_step db (snd (cash_commit env snap req cur rets seen db))"
| step_complete: "pay_step db (complete_order_if_fully_paid f snap db)"
| step_recheck: "pay_step db (recheck_completion f tid o' db)"
| step_confirm: "pay_step db (snd (confirm_payment_by_intent q ok f intent amt payer db))"
| step_fail: "pay_step db (snd (fail_payment_by_intent q ok intent db))"
| step_backfill: "pay_step db (run_treasury_intent_create tr i ok' pid db)"
| step_offset: "pay_step db (run_store_credit_offset tr a r w o' offset db)"

lemma one_winner_step: "pay_step db db' \<Longrightarrow> one_winner oid db db'"
  by (cases rule: pay_step.cases) (auto intro: winner_intros)

lemma one_winner_run: "rtranclp pay_step db db' \<Longrightarrow> one_winner oid db db'"
  by (induction rule: rtranclp_induct) (auto intro: one_winner_refl one_winner_trans one_winner_step)

definition no_recompute_fault :: recompute_fault where
  "no_recompute_fault = \<lparr>rf_sum_ok = True, rf_store_ok = True\<rparr>"

definition no_completion_fault :: completion_fault where
  "no_completion_fault = \<lparr>cf_recompute = no_recompute_fault, cf_claim_ok = True, cf_reload_ok = True, cf_close_ok = True, cf_now = 0\<rparr>"

definition sample_pay_env :: pay_env where
  "sample_pay_env = \<lparr>pe_treasury = True, pe_default_currency = ''KES'', pe_outstanding = no_recompute_fault,
     pe_returns_ok = True, pe_intent = Some (''pi_1'', []), pe_insert_ok = True, pe_meta_ok = True, pe_payment_id = 900,
     pe_now = 10, pe_completion = no_completion_fault, pe_lock_ok = True, pe_rows_ok = True, pe_fresh_returns_ok = True,
     pe_reuse_ok = True, pe_commit_ok = True, pe_reference_ok = True, pe_parse_uuid = (\<lambda>_. None),
     pe_staff_service = False, pe_staff_entitled = False, pe_provision_ok = False, pe_loyalty = (\<lambda>_. []),
     pe_marketflow = None, pe_credit = Some \<lparr>cr_period = None, cr_store_credit = 0\<rparr>, pe_apply_ok = True,
     pe_due_at = (\<lambda>_. []), pe_due_after = (\<lambda>_. ''2026-12-31T00:00:00Z''), pe_staff_key = (\<lambda>_. [])\<rparr>"

definition cash_request :: "f64 \<Rightarrow> pay_request" where
  "cash_request amount = \<lparr>pr_tenant = 2, pr_order = 50, pr_tender = 7, pr_method = ''Cash'', pr_amount = amount, pr_tendered = 0,
     pr_currency = [], pr_reference = [], pr_ext_ref = [], pr_public_base = [], pr_slug = ''t'', pr_due_date = None,
     pr_credit_notes = [], pr_comp_reason = [], pr_approved_by = None, pr_apply_store_credit = False\<rparr>"

definition open_db :: pay_db where
  "open_db = \<lparr>pd_orders = [50 \<mapsto> kitchen_order], pd_payments = [], pd_returns = [], pd_tickets = [], pd_dispatched = [], pd_calls = []\<rparr>"

definition paid_db :: pay_db where
  "paid_db = snd (record_payment sample_pay_env (cash_request 0) open_db)"

lemma open_db_keyed: "db_keyed open_db"
  by (auto simp: db_keyed_def open_db_def kitchen_order_def)

end
