(* ===== verification/Payment_Safety.thy ===== *)
theory Payment_Safety
  imports Payments
begin

text \<open>
  What the payment operations guarantee about money: a closed order takes none, concurrent cashiers
  paying whole amounts do not collect more than the order owes, and a repeated callback changes
  nothing.
\<close>

section \<open>Sums of whole amounts\<close>

definition whole_rows :: "uuid \<Rightarrow> pos_payment list \<Rightarrow> bool" where
  "whole_rows oid ps \<longleftrightarrow> (\<forall>p \<in> set (completed_rows oid ps). \<exists>n. pp_amount p = of_int n \<and> 0 \<le> n)"

definition exact_sum :: "pos_payment list \<Rightarrow> f64" where
  "exact_sum ps = sum_list (map pp_amount ps)"

definition cash_rows :: "uuid \<Rightarrow> pos_payment list \<Rightarrow> pos_payment list" where
  "cash_rows oid ps = filter (\<lambda>p. \<not> is_credit_row p) (completed_rows oid ps)"

lemma whole_ints:
  assumes "\<forall>p \<in> set ps. \<exists>n. pp_amount p = of_int n \<and> 0 \<le> n"
  obtains ns where "map pp_amount ps = map of_int ns" "\<forall>n \<in> set ns. 0 \<le> n" "exact_sum ps = of_int (sum_list ns)"
proof -
  have "\<exists>ns. map pp_amount ps = map of_int ns \<and> (\<forall>n \<in> set ns. 0 \<le> n) \<and> exact_sum ps = of_int (sum_list ns)"
    using assms
  proof (induction ps)
    case (Cons p ps)
    then obtain ns n where "map pp_amount ps = map of_int ns" "\<forall>n \<in> set ns. 0 \<le> n"
      "exact_sum ps = of_int (sum_list ns)" "pp_amount p = of_int n" "0 \<le> n" by auto
    then show ?case by (intro exI [of _ "n # ns"]) (simp add: exact_sum_def)
  qed (simp add: exact_sum_def)
  then show ?thesis using that by blast
qed

lemma sum_exact:
  assumes "\<forall>p \<in> set ps. \<exists>n. pp_amount p = of_int n \<and> 0 \<le> n" "exact_sum ps \<le> 2 ^ 50"
  shows "sum_fl 0 (map pp_amount ps) = exact_sum ps" "whole (exact_sum ps)" "0 \<le> exact_sum ps"
proof -
  obtain ns where ns: "map pp_amount ps = map of_int ns" "\<forall>n \<in> set ns. 0 \<le> n" "exact_sum ps = of_int (sum_list ns)"
    using whole_ints [OF assms(1)] by blast
  have "(of_int (sum_list ns) :: f64) \<le> of_int (2 ^ 50)" using assms(2) ns(3) by simp
  then have le: "sum_list ns \<le> 2 ^ 50" by (simp only: of_int_le_iff)
  have ge: "0 \<le> sum_list ns" using ns(2) by (intro sum_list_nonneg) auto
  show "sum_fl 0 (map pp_amount ps) = exact_sum ps"
    using sum_fl_int [OF ns(2), of 0] le ns by simp
  show "whole (exact_sum ps)" unfolding whole_def ns(3) using le ge by (intro exI [of _ "sum_list ns"]) auto
  show "0 \<le> exact_sum ps" using ns(3) ge by simp
qed

lemma cash_rows_whole: "whole_rows oid ps \<Longrightarrow> \<forall>p \<in> set (cash_rows oid ps). \<exists>n. pp_amount p = of_int n \<and> 0 \<le> n"
  by (auto simp: whole_rows_def cash_rows_def)

lemma collected_exact:
  assumes "whole_rows oid ps" "exact_sum (cash_rows oid ps) \<le> 2 ^ 50"
  shows "collected_of oid ps = exact_sum (cash_rows oid ps)"
  using sum_exact(1) [OF cash_rows_whole [OF assms(1)] assms(2)] by (simp add: collected_of_def cash_rows_def)

lemma settled_exact:
  assumes "whole_rows oid ps" "exact_sum (completed_rows oid ps) \<le> 2 ^ 50"
  shows "settled_of oid ps = exact_sum (completed_rows oid ps)"
  using sum_exact(1) assms by (simp add: settled_of_def whole_rows_def)

lemma exact_sum_append: "exact_sum (xs @ ys) = exact_sum xs + exact_sum ys"
  by (simp add: exact_sum_def)

lemma cash_sum_le_settled:
  assumes "whole_rows oid ps"
  shows "exact_sum (cash_rows oid ps) \<le> exact_sum (completed_rows oid ps)"
proof -
  have nonneg: "\<forall>p \<in> set (completed_rows oid ps). 0 \<le> pp_amount p"
    using assms by (auto simp: whole_rows_def)
  have "sum_list (map pp_amount (filter Q qs)) \<le> sum_list (map pp_amount qs)"
    if "\<forall>p \<in> set qs. 0 \<le> pp_amount p" for Q qs
    using that by (induction qs) (auto intro: add_increasing)
  then show ?thesis using nonneg by (simp add: exact_sum_def cash_rows_def)
qed

section \<open>Cash is not over-collected\<close>

lemma cash_method_not_credit: "is_cash_method m \<Longrightarrow> \<not> equal_fold m tender_on_account"
proof
  assume cash: "is_cash_method m" and "equal_fold m tender_on_account"
  then have low: "to_lower m = ''on_account''" by (simp add: equal_fold_def tender_on_account_def) code_simp
  have "to_lower (trim_space m) = ''on_account''"
    unfolding to_lower_trim low by code_simp
  then show False using cash by (simp add: is_cash_method_def)
qed


text \<open>What a successful cash commit does, for whole amounts.\<close>

lemma cash_commit_Inl: "fst (cash_commit env snap req cur rets seen db) = Inl e \<Longrightarrow> snd (cash_commit env snap req cur rets seen db) = db"
  by (auto simp: cash_commit_def Let_def split: if_splits)

lemma cash_commit_Inr:
  assumes "fst (cash_commit env snap req cur rets seen db) = Inr p"
  shows "snd (cash_commit env snap req cur rets seen db) = add_payment p db"
    "0 < fl (fl (po_total_amount snap - collected_of (po_id snap) (pd_payments db)) - rets)"
    "pp_amount p = (let fresh = fl (fl (po_total_amount snap - collected_of (po_id snap) (pd_payments db)) - rets)
       in if pr_amount req > fl (fresh + cent) then fresh else pr_amount req)"
    "pp_order p = pr_order req" "pp_status p = ps_completed" "pp_reference p = nil_if_empty (pr_ext_ref req)"
    "payment_method p = pr_method req"
  using assms
  by (auto simp: cash_commit_def Let_def new_payment_def cash_payment_data_def payment_method_def split: if_splits)

lemma whole_cent_clamp:
  assumes "whole x" "whole y"
  shows "(if x > fl (y + cent) then y else x) = min x y"
proof -
  obtain n m where "x = of_int n" "y = of_int m" "\<bar>n\<bar> \<le> 2 ^ 50" "\<bar>m\<bar> \<le> 2 ^ 50"
    using assms by (auto simp: whole_def)
  then show ?thesis using add_cent_int [of m n] by (auto simp: min_def not_le)
qed

lemma whole_bound: "whole x \<Longrightarrow> x \<le> 2 ^ 50"
proof -
  assume "whole x"
  then obtain n where n: "x = of_int n" "\<bar>n\<bar> \<le> 2 ^ 50" by (auto simp: whole_def)
  then have "n \<le> 2 ^ 50" by linarith
  then have "(of_int n :: f64) \<le> of_int (2 ^ 50)" by (simp only: of_int_le_iff)
  then show ?thesis using n by simp
qed

lemma whole_ofI: "x = of_int n \<Longrightarrow> 0 \<le> x \<Longrightarrow> x \<le> 2 ^ 50 \<Longrightarrow> whole x"
proof -
  assume x: "x = of_int n" "0 \<le> x" "x \<le> 2 ^ 50"
  then have "(0 :: f64) \<le> of_int n" "(of_int n :: f64) \<le> of_int (2 ^ 50)" by simp_all
  then have "0 \<le> n" "n \<le> 2 ^ 50" by (simp_all only: of_int_le_iff of_int_0_le_iff)
  then show ?thesis unfolding whole_def using x(1) by (intro exI [of _ n]) simp
qed

text \<open>
  The invariant of the cash branch: the rows are whole, and collected money never exceeds the order
  tot less returns.
\<close>

definition cash_inv :: "uuid \<Rightarrow> f64 \<Rightarrow> f64 \<Rightarrow> pay_db \<Rightarrow> bool" where
  "cash_inv oid tot rets db \<longleftrightarrow> whole_rows oid (pd_payments db) \<and>
     exact_sum (cash_rows oid (pd_payments db)) \<le> tot - rets"

lemma cash_rows_add:
  "pp_order p = oid \<Longrightarrow> pp_status p = ps_completed \<Longrightarrow> \<not> is_credit_row p \<Longrightarrow>
     cash_rows oid (pd_payments (add_payment p db)) = cash_rows oid (pd_payments db) @ [p]"
  by (simp add: cash_rows_def completed_rows_def add_payment_def)

lemma cash_inv_commit:
  assumes inv: "cash_inv oid tot rets db" and snap: "po_id snap = oid" "po_total_amount snap = tot"
    and w: "whole tot" "whole rets" "0 \<le> rets" "whole (pr_amount req)" "0 < pr_amount req"
    and req: "pr_order req = oid" "is_cash_method (pr_method req)"
  shows "cash_inv oid tot rets (snd (cash_commit env snap req cur rets seen db))"
    "fst (cash_commit env snap req cur rets seen db) = Inr p \<Longrightarrow>
       pp_amount p = min (pr_amount req) (tot - rets - collected_of oid (pd_payments db)) \<and> 0 < pp_amount p \<and>
       collected_of oid (pd_payments (add_payment p db)) = collected_of oid (pd_payments db) + pp_amount p"
proof -
  let ?c = "exact_sum (cash_rows oid (pd_payments db))"
  have rows: "whole_rows oid (pd_payments db)" and le: "?c \<le> tot - rets"
    using inv by (simp_all add: cash_inv_def)
  have "?c \<le> 2 ^ 50" using le w(3) whole_bound [OF w(1)] by linarith
  note cex = sum_exact [OF cash_rows_whole [OF rows] this] and col = collected_exact [OF rows this]
  have comm: "tot - rets - ?c = tot - ?c - rets" by simp
  have fresh: "fl (fl (tot - ?c) - rets) = tot - ?c - rets" using whole_diff2 w cex by blast
  have spec: "pp_amount p = min (pr_amount req) (tot - rets - ?c) \<and> 0 < pp_amount p \<and> (\<exists>n. pp_amount p = of_int n \<and> 0 \<le> n) \<and>
      exact_sum (cash_rows oid (pd_payments (add_payment p db))) = ?c + pp_amount p \<and> cash_inv oid tot rets (add_payment p db)"
    if r: "fst (cash_commit env snap req cur rets seen db) = Inr p" for p
  proof -
    note cc = cash_commit_Inr [OF r]
    have pos: "0 < tot - ?c - rets" using cc(2) by (simp add: snap col fresh)
    obtain t c q where i: "tot = of_int t" "?c = of_int c" "rets = of_int q" using w(1,2) cex(2) by (auto simp: whole_def)
    have wf: "whole (tot - ?c - rets)"
      using pos whole_bound [OF w(1)] cex(3) w(3) i by (intro whole_ofI [of _ "t - c - q"]) auto
    have amt: "pp_amount p = min (pr_amount req) (tot - rets - ?c)"
      using cc(3) whole_cent_clamp [OF w(4) wf] by (simp add: snap col fresh Let_def comm)
    then have a0: "0 < pp_amount p" using pos w(5) by (simp add: min_def)
    have an: "\<exists>n. pp_amount p = of_int n \<and> 0 \<le> n"
    proof -
      have "whole (pp_amount p)" using amt w(4) wf by (auto simp: min_def comm)
      then obtain n where n: "pp_amount p = of_int n" by (auto simp: whole_def)
      then have "0 \<le> n" using a0 by simp
      then show ?thesis using n by blast
    qed
    have noncredit: "\<not> is_credit_row p" using cc(7) cash_method_not_credit req(2) by (simp add: is_credit_row_def)
    have sum: "exact_sum (cash_rows oid (pd_payments (add_payment p db))) = ?c + pp_amount p"
      using cash_rows_add [of p oid db] cc(4,5) req(1) noncredit by (simp add: exact_sum_def)
    moreover have "whole_rows oid (pd_payments (add_payment p db))"
      using rows an by (auto simp: whole_rows_def completed_rows_def add_payment_def)
    ultimately show ?thesis using amt a0 an le by (auto simp: cash_inv_def min_def)
  qed
  show "cash_inv oid tot rets (snd (cash_commit env snap req cur rets seen db))"
    using spec cash_commit_Inl cash_commit_Inr(1) inv by (cases "fst (cash_commit env snap req cur rets seen db)") metis+
  show "pp_amount p = min (pr_amount req) (tot - rets - collected_of oid (pd_payments db)) \<and> 0 < pp_amount p \<and>
       collected_of oid (pd_payments (add_payment p db)) = collected_of oid (pd_payments db) + pp_amount p"
    if r: "fst (cash_commit env snap req cur rets seen db) = Inr p"
  proof -
    have s: "exact_sum (cash_rows oid (pd_payments (add_payment p db))) = ?c + pp_amount p"
      and i: "cash_inv oid tot rets (add_payment p db)" using spec [OF r] by simp_all
    have "?c + pp_amount p \<le> 2 ^ 50" using i s w(3) whole_bound [OF w(1)] by (auto simp: cash_inv_def)
    then have "collected_of oid (pd_payments (add_payment p db)) = ?c + pp_amount p"
      using i s collected_exact by (simp add: cash_inv_def)
    with spec [OF r] show ?thesis unfolding col by blast
  qed
qed

text \<open>
  Any number of cashiers: each commit is one transaction under the order's row lock, on the row its
  session read before; its check of a mobile-money code read some other moment.
\<close>

fun cash_run :: "uuid \<Rightarrow> f64 \<Rightarrow> (pay_env \<times> pos_order \<times> pay_request \<times> string \<times> pay_db) list \<Rightarrow> pay_db \<Rightarrow> pay_db" where
  "cash_run oid rets [] db = db"
| "cash_run oid rets ((env, snap, req, cur, seen) # xs) db = cash_run oid rets xs (snd (cash_commit env snap req cur rets seen db))"

definition cash_session :: "uuid \<Rightarrow> f64 \<Rightarrow> pay_env \<times> pos_order \<times> pay_request \<times> string \<times> pay_db \<Rightarrow> bool" where
  "cash_session oid tot x \<longleftrightarrow> (case x of (env, snap, req, cur, seen) \<Rightarrow>
     po_id snap = oid \<and> po_total_amount snap = tot \<and> pr_order req = oid \<and> is_cash_method (pr_method req) \<and>
     whole (pr_amount req) \<and> 0 < pr_amount req)"

lemma cash_run_inv:
  assumes "whole tot" "whole rets" "0 \<le> rets" "\<forall>x \<in> set xs. cash_session oid tot x" "cash_inv oid tot rets db"
  shows "cash_inv oid tot rets (cash_run oid rets xs db)"
  using assms(4,5)
proof (induction xs arbitrary: db)
  case (Cons x xs)
  obtain env snap req cur seen where x: "x = (env, snap, req, cur, seen)" by (cases x) auto
  then have "cash_inv oid tot rets (snd (cash_commit env snap req cur rets seen db))"
    using Cons.prems cash_inv_commit(1) [OF Cons.prems(2) _ _ assms(1-3)] by (auto simp: cash_session_def)
  then show ?case using Cons.IH Cons.prems x by auto
qed simp

text \<open>
  C3. Cashiers racing on one order cannot over-collect it, in whole amounts: while the order's total
  and its returns stay as they are, after any sequence of cash commits, each on a row its session had
  read earlier, what was collected is at most the order's total less its returns, if it was so
  before. With cents the tolerance of the code lets one payment exceed the balance by a cent
  (\<open>tolerance_over_collects\<close> below).
\<close>

theorem cash_never_over_collects:
  assumes "whole tot" "whole rets" "0 \<le> rets" "\<forall>x \<in> set xs. cash_session oid tot x"
    "whole_rows oid (pd_payments db)" "exact_sum (cash_rows oid (pd_payments db)) \<le> tot - rets"
  shows "collected_of oid (pd_payments (cash_run oid rets xs db)) \<le> tot - rets"
proof -
  have inv: "cash_inv oid tot rets (cash_run oid rets xs db)"
    using cash_run_inv [OF assms(1-4)] assms(5,6) by (simp add: cash_inv_def)
  then have "exact_sum (cash_rows oid (pd_payments (cash_run oid rets xs db))) \<le> 2 ^ 50"
    using assms(3) whole_bound [OF assms(1)] by (auto simp: cash_inv_def)
  then show ?thesis using inv collected_exact by (simp add: cash_inv_def)
qed

definition two_cashiers :: "(pay_env \<times> pos_order \<times> pay_request \<times> string \<times> pay_db) list" where
  "two_cashiers = [(sample_pay_env, kitchen_order, cash_request 150, ''KES'', open_db),
     (sample_pay_env\<lparr>pe_payment_id := 901\<rparr>, kitchen_order, cash_request 150, ''KES'', open_db)]"

theorem cash_never_over_collects_witness:
  "collected_of 50 (pd_payments (cash_run 50 0 two_cashiers open_db)) \<le> 200 \<and>
   map pp_amount (pd_payments (cash_run 50 0 two_cashiers open_db)) = [150, 50]"
proof
  have "whole 200" "whole 0" "whole 150"
    by (auto simp: whole_def intro: exI [of _ "200 :: int"] exI [of _ "0 :: int"] exI [of _ "150 :: int"])
  moreover have "is_cash_method ''Cash''" by code_simp
  ultimately have "\<forall>x \<in> set two_cashiers. cash_session 50 200 x"
    by (auto simp: two_cashiers_def cash_session_def kitchen_order_def cash_request_def)
  then have "collected_of 50 (pd_payments (cash_run 50 0 two_cashiers open_db)) \<le> 200 - 0"
    by (intro cash_never_over_collects)
      (use \<open>whole 200\<close> \<open>whole 0\<close> in \<open>auto simp: open_db_def whole_rows_def completed_rows_def cash_rows_def exact_sum_def\<close>)
  then show "collected_of 50 (pd_payments (cash_run 50 0 two_cashiers open_db)) \<le> 200" by simp
  show "map pp_amount (pd_payments (cash_run 50 0 two_cashiers open_db)) = [150, 50]" by code_simp
qed

text \<open>
  The tolerance of the clamp: a payment of at most 0.01 above the balance is recorded as it was
  sent, so whole amounts are needed above.
\<close>

lemma tolerance_over_collects:
  "map pp_amount (pd_payments (cash_run 50 0 [(sample_pay_env, kitchen_order, cash_request (fl (20001 / 100)), ''KES'', open_db)] open_db)) =
     [fl (20001 / 100)] \<and> 200 < fl (20001 / 100) \<and> po_total_amount kitchen_order = 200"
  by code_simp

section \<open>Closed orders\<close>

text \<open>
  An order that was cancelled, voided, completed or refunded takes no money: neither path records
  a payment or changes anything, and the request fails.
\<close>

theorem closed_order_takes_no_payment:
  assumes "find_pay_order (pr_tenant req) (pr_order req) db = Some po"
    "po_status po \<in> {st_cancelled, st_voided, st_completed, st_refunded}"
  shows "(\<exists>e. create_payment_intent L env show_uuid req db = (Inl e, db)) \<and> (\<exists>e. record_payment env req db = (Inl e, db))"
  using assms by (auto simp: create_payment_intent_def record_payment_def pay_gate_def Let_def)

theorem closed_order_takes_no_payment_witness:
  "\<exists>e. create_payment_intent shop_decimal sample_pay_env (\<lambda>_. []) (cash_request 50) paid_db = (Inl e, paid_db)"
proof -
  have "map_option po_status (find_pay_order 2 50 paid_db) = Some st_completed" unfolding paid_db_def by code_simp
  then obtain po where po: "find_pay_order (pr_tenant (cash_request 50)) (pr_order (cash_request 50)) paid_db = Some po"
    "po_status po = st_completed" by (auto simp: cash_request_def)
  show ?thesis by (rule conjunct1 [OF closed_order_takes_no_payment [OF po(1)]]) (simp add: po(2))
qed

section \<open>Callbacks\<close>

lemma complete_payments [simp]: "pd_payments (complete_order_if_fully_paid f snap db) = pd_payments db"
  by (auto simp: complete_order_if_fully_paid_def recompute_paid_total_def claim_completion_def update_order_def Let_def
    split: option.split)

lemma confirm_row_simps [simp]:
  "pp_status (confirm_row amt payer p) = ps_completed" "pp_reference (confirm_row amt payer p) = pp_reference p"
  by (simp_all add: confirm_row_def Let_def)

lemma confirm_loop_pays:
  assumes "fst (confirm_loop ok f amt payer snaps ps db) = Inr ()"
    "\<forall>p \<in> set ps. pp_reference p = Some intent"
    "\<forall>p \<in> set (pd_payments db). pp_reference p = Some intent \<longrightarrow> pp_status p = ps_completed \<or> p \<in> set ps"
  shows "\<forall>p \<in> set (pd_payments (snd (confirm_loop ok f amt payer snaps ps db))).
    pp_reference p = Some intent \<longrightarrow> pp_status p = ps_completed"
  using assms
proof (induction ps arbitrary: db)
  case (Cons p ps)
  show ?case
  proof (cases "pp_status p = ps_completed")
    case True
    then show ?thesis using Cons.IH [of db] Cons.prems by auto
  next
    case False
    define db1 where "db1 = replace_payment (pp_id p) (\<lambda>_. confirm_row amt payer p) db"
    define db2 where "db2 = (case snaps (pp_order p) of Some po \<Rightarrow> complete_order_if_fully_paid f po db1 | None \<Rightarrow> db1)"
    have r: "confirm_loop ok f amt payer snaps (p # ps) db = confirm_loop ok f amt payer snaps ps db2"
      using False Cons.prems(1) unfolding db2_def db1_def by (simp add: Let_def split: if_splits)
    have pay: "pd_payments db2 = pd_payments db1" by (simp add: db2_def split: option.split)
    have "\<forall>q \<in> set (pd_payments db2). pp_reference q = Some intent \<longrightarrow> pp_status q = ps_completed \<or> q \<in> set ps"
      using Cons.prems(3) by (auto simp: pay db1_def replace_payment_def)
    then show ?thesis using Cons.IH [of db2] Cons.prems(1,2) unfolding r by simp
  qed
qed simp

lemma confirm_loop_done: "\<forall>p \<in> set ps. pp_status p = ps_completed \<Longrightarrow> confirm_loop ok f amt payer snaps ps db = (Inr (), db)"
  by (induction ps) auto

lemma confirm_loop_keeps_intent:
  assumes "\<forall>p \<in> set ps. pp_reference p = Some intent" "\<exists>p \<in> set (pd_payments db). pp_reference p = Some intent"
  shows "\<exists>p \<in> set (pd_payments (snd (confirm_loop ok f amt payer snaps ps db))). pp_reference p = Some intent"
  using assms
proof (induction ps arbitrary: db)
  case (Cons p ps)
  define db1 where "db1 = replace_payment (pp_id p) (\<lambda>_. confirm_row amt payer p) db"
  define db2 where "db2 = (case snaps (pp_order p) of Some po \<Rightarrow> complete_order_if_fully_paid f po db1 | None \<Rightarrow> db1)"
  have pay: "pd_payments db2 = pd_payments db1" by (simp add: db2_def split: option.split)
  obtain q where q: "q \<in> set (pd_payments db)" "pp_reference q = Some intent" using Cons.prems(2) by blast
  let ?q = "if pp_id q = pp_id p then confirm_row amt payer p else q"
  have "?q \<in> set (pd_payments db2)" unfolding pay db1_def replace_payment_def using q(1) by simp
  moreover have "pp_reference ?q = Some intent" using q(2) Cons.prems(1) by simp
  ultimately have "\<exists>q \<in> set (pd_payments db2). pp_reference q = Some intent" by blast
  then have "\<exists>q \<in> set (pd_payments (snd (confirm_loop ok f amt payer snaps ps db2))). pp_reference q = Some intent"
    using Cons.prems by (intro Cons.IH) auto
  then show ?case using Cons.IH [of db] Cons.prems unfolding db2_def db1_def by (simp add: Let_def)
qed simp

text \<open>
  C36. Treasury may deliver a confirmation again: once one was processed without error every row of
  that intent is completed, and any further confirmation of it, whatever amount and payer it carries,
  changes nothing and succeeds.
\<close>

theorem repeated_confirmation_ignored:
  assumes "confirm_payment_by_intent q ok f intent amt payer db = (Inr (), db1)"
  shows "confirm_payment_by_intent True ok' f' intent amt' payer' db1 = (Inr (), db1)"
proof -
  let ?rows = "filter (\<lambda>p. pp_reference p = Some intent) (pd_payments db)"
  let ?rows1 = "filter (\<lambda>p. pp_reference p = Some intent) (pd_payments db1)"
  have l: "confirm_loop ok f amt payer (pd_orders db) ?rows db = (Inr (), db1)" and ne: "?rows \<noteq> []"
    using assms unfolding confirm_payment_by_intent_def Let_def by (simp_all split: if_split_asm)
  have "\<exists>p \<in> set (pd_payments db). pp_reference p = Some intent" using ne by (auto simp: filter_empty_conv)
  then have "\<exists>p \<in> set (pd_payments db1). pp_reference p = Some intent"
    using confirm_loop_keeps_intent [of ?rows intent db ok f amt payer "pd_orders db"] l by simp
  then have ne1: "?rows1 \<noteq> []" by (auto simp: filter_empty_conv)
  have "\<forall>p \<in> set (pd_payments (snd (confirm_loop ok f amt payer (pd_orders db) ?rows db))).
      pp_reference p = Some intent \<longrightarrow> pp_status p = ps_completed"
    by (rule confirm_loop_pays) (simp_all only: l fst_conv set_filter, auto)
  then have "\<forall>p \<in> set ?rows1. pp_status p = ps_completed" unfolding l by simp
  then have "confirm_loop ok' f' amt' payer' (pd_orders db1) ?rows1 db1 = (Inr (), db1)" by (rule confirm_loop_done)
  then show ?thesis using ne1 by (simp add: confirm_payment_by_intent_def Let_def)
qed

definition pending_db :: pay_db where
  "pending_db = snd (create_payment_intent shop_decimal sample_pay_env (\<lambda>_. []) ((cash_request 0)\<lparr>pr_method := ''mpesa''\<rparr>) open_db)"

definition confirmed_db :: pay_db where
  "confirmed_db = snd (confirm_payment_by_intent True (\<lambda>_. True) no_completion_fault ''pi_1'' 200 ''Jane'' pending_db)"

theorem repeated_confirmation_ignored_witness:
  "map pp_status (pd_payments pending_db) = [ps_pending] \<and> order_status 50 confirmed_db = Some st_completed \<and>
   confirm_payment_by_intent True (\<lambda>_. True) no_completion_fault ''pi_1'' 999 ''Eve'' confirmed_db = (Inr (), confirmed_db)"
proof (intro conjI)
  show "map pp_status (pd_payments pending_db) = [ps_pending]" unfolding pending_db_def by code_simp
  show "order_status 50 confirmed_db = Some st_completed" unfolding confirmed_db_def pending_db_def by code_simp
  have "fst (confirm_payment_by_intent True (\<lambda>_. True) no_completion_fault ''pi_1'' 200 ''Jane'' pending_db) = Inr ()"
    unfolding pending_db_def by code_simp
  then have "confirm_payment_by_intent True (\<lambda>_. True) no_completion_fault ''pi_1'' 200 ''Jane'' pending_db = (Inr (), confirmed_db)"
    by (simp add: confirmed_db_def prod_eq_iff)
  from repeated_confirmation_ignored [OF this]
  show "confirm_payment_by_intent True (\<lambda>_. True) no_completion_fault ''pi_1'' 999 ''Eve'' confirmed_db = (Inr (), confirmed_db)" .
qed

end
