(* ===== verification/Payment_Completion.thy ===== *)
theory Payment_Completion
  imports Payment_Safety
begin

text \<open>
  Completing an order by paying it, the check of a mobile-money code, and runs of the code that end
  where they should not: a balance payment that leaves an order with a return open, two sales settled
  by one code, a callback that completes a voided payment, and a close on account that leaves the
  order open.
\<close>

section \<open>A covering payment completes the order\<close>

definition no_faults :: "pay_env \<Rightarrow> bool" where
  "no_faults env \<longleftrightarrow> pe_treasury env \<and> pe_outstanding env = no_recompute_fault \<and> pe_returns_ok env \<and> pe_fresh_returns_ok env \<and>
     pe_insert_ok env \<and> pe_commit_ok env \<and> pe_lock_ok env \<and> pe_rows_ok env \<and> pe_completion env = no_completion_fault"

text \<open>An order nothing was returned of, with whole amounts, that still owes something.\<close>

definition payable :: "uuid \<Rightarrow> uuid \<Rightarrow> pos_order \<Rightarrow> pay_db \<Rightarrow> bool" where
  "payable tid oid po db \<longleftrightarrow> find_pay_order tid oid db = Some po \<and> po_id po = oid \<and> settleable (po_status po) \<and>
     whole (po_total_amount po) \<and> whole_rows oid (pd_payments db) \<and>
     exact_sum (completed_rows oid (pd_payments db)) \<le> 2 ^ 49 \<and> po_total_amount po \<le> 2 ^ 49 \<and>
     exact_sum (cash_rows oid (pd_payments db)) < po_total_amount po \<and>
     (\<forall>r \<in> set (pd_returns db). rt_order r \<noteq> oid)"

lemma settleable_not_gated: "settleable s \<Longrightarrow> pay_gate (po\<lparr>po_status := s\<rparr>) = None"
  by (auto simp: settleable_def pay_gate_def)

lemma settleable_gate: "settleable (po_status po) \<Longrightarrow> pay_gate po = None"
  by (auto simp: settleable_def pay_gate_def)

lemma no_returns: "(\<forall>r \<in> set (pd_returns db). rt_order r \<noteq> oid) \<Longrightarrow> fst (completed_returns_total ok oid db) = 0"
  by (cases ok) (auto simp: completed_returns_total_def filter_empty_conv)

lemma recompute_simps:
  "recompute_paid_total no_recompute_fault oid db =
     ((collected_of oid (pd_payments db), settled_of oid (pd_payments db), True),
      update_order oid (\<lambda>po. po\<lparr>po_paid_total := collected_of oid (pd_payments db)\<rparr>) db)"
  by (simp add: recompute_paid_total_def no_recompute_fault_def Let_def)

lemma update_order_simps [simp]:
  "pd_payments (update_order oid f db) = pd_payments db" "pd_returns (update_order oid f db) = pd_returns db"
  "pd_dispatched (update_order oid f db) = pd_dispatched db"
  "pd_orders (update_order oid f db) oid' = (if oid' = oid then map_option f (pd_orders db oid) else pd_orders db oid')"
  by (simp_all add: update_order_def)

lemma completes:
  assumes "pd_orders db oid = Some row" "settleable (po_status row)" "po_id snap = oid" "po_id row = oid"
    "po_total_amount snap \<le> fl (settled_of oid (pd_payments db) + cent)"
  shows "let db' = complete_order_if_fully_paid no_completion_fault snap db in
    order_status oid db' = Some st_completed \<and> dispatches oid db' = Suc (dispatches oid db) \<and>
    map_option po_paid_total (pd_orders db' oid) = Some (collected_of oid (pd_payments db))"
  using assms
  by (simp add: complete_order_if_fully_paid_def no_completion_fault_def recompute_simps claim_completion_def
      order_status_def dispatches_def Let_def)

lemma outstanding_whole:
  assumes "payable tid oid po db" "no_faults env"
  shows "outstanding_balance (pe_outstanding env) (pe_returns_ok env) po db =
      (po_total_amount po - exact_sum (cash_rows oid (pd_payments db)),
       update_order oid (\<lambda>po. po\<lparr>po_paid_total := collected_of oid (pd_payments db)\<rparr>) db)"
    and "collected_of oid (pd_payments db) = exact_sum (cash_rows oid (pd_payments db))"
proof -
  let ?c = "exact_sum (cash_rows oid (pd_payments db))"
  have rows: "whole_rows oid (pd_payments db)" and w: "whole (po_total_amount po)" and lt: "?c < po_total_amount po"
    and oid: "po_id po = oid" and ret: "\<forall>r \<in> set (pd_returns db). rt_order r \<noteq> oid"
    using assms(1) by (simp_all add: payable_def)
  have c: "?c \<le> 2 ^ 50" using lt whole_bound [OF w] by linarith
  show col: "collected_of oid (pd_payments db) = ?c" by (rule collected_exact [OF rows c])
  have "whole ?c" using sum_exact(2) [OF cash_rows_whole [OF rows] c] .
  then have "fl (fl (po_total_amount po - ?c) - 0) = po_total_amount po - ?c - 0"
    by (intro whole_diff2 w) (auto simp: whole_def intro: exI [of _ "0 :: int"])
  then show "outstanding_balance (pe_outstanding env) (pe_returns_ok env) po db =
      (po_total_amount po - ?c, update_order oid (\<lambda>po. po\<lparr>po_paid_total := collected_of oid (pd_payments db)\<rparr>) db)"
    using assms(2) lt col ret
    by (simp add: outstanding_balance_def no_faults_def recompute_simps oid Let_def no_returns)
qed

lemma whole_minus: "whole x \<Longrightarrow> whole y \<Longrightarrow> \<exists>n. x - y = of_int n"
proof -
  assume "whole x" "whole y"
  then obtain a b where "x = of_int a" "y = of_int b" by (auto simp: whole_def)
  then show ?thesis by (intro exI [of _ "a - b"]) simp
qed

lemma whole_cover: "whole x \<Longrightarrow> whole y \<Longrightarrow> x \<le> y \<Longrightarrow> x \<le> fl (y + cent)"
proof -
  assume w: "whole x" "whole y" and le: "x \<le> y"
  then obtain a b where i: "x = of_int a" "y = of_int b" "\<bar>a\<bar> \<le> 2 ^ 50" "\<bar>b\<bar> \<le> 2 ^ 50" by (auto simp: whole_def)
  then show ?thesis using add_cent_int [of b a] le by simp
qed

text \<open>The sums after a row for the balance was added.\<close>

lemma balance_row:
  assumes pay: "payable tid oid po db"
    and p: "pp_order p = oid" "pp_status p = ps_completed" "\<not> is_credit_row p"
      "pp_amount p = po_total_amount po - exact_sum (cash_rows oid (pd_payments db))"
    and pays: "pd_payments db1 = pd_payments db @ [p]"
  shows "collected_of oid (pd_payments db1) = po_total_amount po"
    "po_total_amount po \<le> fl (settled_of oid (pd_payments db1) + cent)"
proof -
  let ?c = "exact_sum (cash_rows oid (pd_payments db))" and ?s = "exact_sum (completed_rows oid (pd_payments db))"
  have w: "whole (po_total_amount po)" and rows: "whole_rows oid (pd_payments db)" and s: "?s \<le> 2 ^ 49"
    and t: "po_total_amount po \<le> 2 ^ 49" and lt: "?c < po_total_amount po"
    using pay by (simp_all add: payable_def)
  have "?c \<le> 2 ^ 50" using lt t by simp
  then have wc: "whole ?c" "0 \<le> ?c" using sum_exact(2,3) [OF cash_rows_whole [OF rows]] by simp_all
  obtain n where n: "pp_amount p = of_int n" "0 < pp_amount p" using whole_minus [OF w wc(1)] p(4) lt by auto
  then have rows1: "whole_rows oid (pd_payments db1)"
    using rows unfolding whole_rows_def completed_rows_def pays by auto
  have csum: "exact_sum (cash_rows oid (pd_payments db1)) = po_total_amount po"
    using p by (simp add: pays cash_rows_def completed_rows_def exact_sum_append) (simp add: exact_sum_def)
  then show "collected_of oid (pd_payments db1) = po_total_amount po"
    using collected_exact [OF rows1] t by simp
  have ssum: "exact_sum (completed_rows oid (pd_payments db1)) = ?s + (po_total_amount po - ?c)"
    using p by (simp add: pays completed_rows_def exact_sum_append) (simp add: exact_sum_def)
  have "?s + (po_total_amount po - ?c) \<le> 2 ^ 50" using s t wc(2) by simp
  then have se: "settled_of oid (pd_payments db1) = ?s + (po_total_amount po - ?c)" and ws: "whole (?s + (po_total_amount po - ?c))"
    using settled_exact [OF rows1] sum_exact(2) [of "completed_rows oid (pd_payments db1)"] rows1 ssum
    by (simp_all add: whole_rows_def)
  show "po_total_amount po \<le> fl (settled_of oid (pd_payments db1) + cent)"
    using cash_sum_le_settled [OF rows] by (simp add: se whole_cover [OF w ws])
qed



text \<open>
  The balance subtracts the completed returns of an order, the test of the completion does not: on an
  order of 200 of which 50 were returned, the payment of the whole balance records 150 and leaves the
  order open, and a second payment is refused because nothing is outstanding.
\<close>

definition part_returned_db :: pay_db where
  "part_returned_db = open_db\<lparr>pd_returns := [\<lparr>rt_order = 50, rt_status = ''completed'', rt_channel = None, rt_amount = 50\<rparr>]\<rparr>"

lemma returned_balance_completes_nothing:
  "let r1 = record_payment sample_pay_env (cash_request 0) part_returned_db;
       r2 = record_payment sample_pay_env (cash_request 0) (snd r1)
   in map pp_amount (pd_payments (snd r1)) = [150] \<and> order_status 50 (snd r1) = Some st_open \<and>
      fst r2 = Inl No_Outstanding \<and> order_status 50 (snd r2) = Some st_open"
  by code_simp

section \<open>Mobile-money codes\<close>

text \<open>
  A cash commit whose check sees a completed payment with the code (in any letter case, on any order
  of the tenant) is refused. Two commits that both check before either inserts are not: the check is
  outside the transaction.
\<close>

lemma seen_code_refused:
  assumes "p \<in> set (pd_payments seen)" "pp_status p = ps_completed" "pp_reference p = Some code"
    and "find_pay_order (pr_tenant req) (pp_order p) seen \<noteq> None"
    and "equal_fold (pr_method req) ''mpesa_manual''" "equal_fold code (pr_ext_ref req)" "pr_ext_ref req \<noteq> []"
  shows "\<exists>e. fst (cash_commit env snap req cur rets seen db) = Inl e"
proof -
  have "mpesa_code_reused (pr_tenant req) (pr_ext_ref req) seen"
    using assms(1-4,6) by (auto simp: mpesa_code_reused_def list_ex_iff intro!: bexI [of _ p])
  then show ?thesis using assms(5,7) by (auto simp: cash_commit_def Let_def)
qed

definition mpesa_request :: "string \<Rightarrow> pay_request" where
  "mpesa_request code = (cash_request 50)\<lparr>pr_method := ''mpesa_manual'', pr_ext_ref := code\<rparr>"

lemma one_code_settles_twice:
  "let commit = (\<lambda>pid. cash_commit (sample_pay_env\<lparr>pe_payment_id := pid\<rparr>) kitchen_order (mpesa_request ''SLA1XY'') ''KES'' 0)
   in map pp_reference (pd_payments (snd (commit 901 open_db (snd (commit 900 open_db open_db))))) =
        [Some ''SLA1XY'', Some ''SLA1XY''] \<and>
      fst (commit 901 (snd (commit 900 open_db open_db)) (snd (commit 900 open_db open_db))) = Inl (Code_Reused ''SLA1XY'')"
  by code_simp

section \<open>Runs that go wrong\<close>

text \<open>A cash payment whose background treasury intent came back, and which a manager then voided.\<close>

definition voided_payment_db :: pay_db where
  "voided_payment_db =
     (let db = run_treasury_intent_create True (Some ''pi_9'') True 900 (snd (record_payment sample_pay_env (cash_request 150) open_db))
      in replace_payment 900 (\<lambda>p. p\<lparr>pp_status := ps_voided\<rparr>) db)"

text \<open>
  A late confirmation of the intent of a voided payment completes it again, and counts its money
  as collected.
\<close>

theorem confirm_revives_voided:
  "map pp_status (pd_payments voided_payment_db) = [ps_voided] \<and> collected_of 50 (pd_payments voided_payment_db) = 0 \<and>
   (let r = confirm_payment_by_intent True (\<lambda>_. True) no_completion_fault ''pi_9'' 150 [] voided_payment_db
    in fst r = Inr () \<and> map pp_status (pd_payments (snd r)) = [ps_completed] \<and> collected_of 50 (pd_payments (snd r)) = 150)"
  by code_simp

definition account_order :: pos_order where
  "account_order = kitchen_order\<lparr>po_customer_phone := Some ''0700000001'', po_customer_name := Some ''Jane''\<rparr>"

definition account_db :: pay_db where
  "account_db = open_db\<lparr>pd_orders := [50 \<mapsto> account_order]\<rparr>"

text \<open>
  A close on account whose payment row could not be stored fails after the debt was booked with
  treasury and the order was marked on account; every retry then reports success and leaves the order
  open with no payment.
\<close>

theorem close_on_account_strands_order:
  "let r1 = close_on_account shop_decimal (sample_pay_env\<lparr>pe_insert_ok := False\<rparr>) (cash_request 0) account_db;
       r2 = close_on_account shop_decimal sample_pay_env (cash_request 0) (snd r1)
   in fst r1 = Inl Pay_Db_Error \<and> length (pd_calls (snd r1)) = 1 \<and>
      fst r2 = Inr cash_result \<and> order_status 50 (snd r2) = Some st_open \<and> pd_payments (snd r2) = []"
  by code_simp

end
