(* ===== verification/Payment_Admin.thy ===== *)
theory Payment_Admin
  imports Payment_Completion
begin

text \<open>
  Corrections to recorded payments (\<open>internal/modules/payments/manage.go\<close>): the detailed listing, the
  edit of descriptive fields and the administrative void with its treasury reversal. The audit rows
  of the order are a list beside the payment state; the tender catalogue is an argument.
\<close>

section \<open>State and inputs\<close>

record tender =
  td_id :: uuid
  td_tenant :: uuid
  td_name :: string
  td_type :: string

record audit_event =
  oe_order :: uuid
  oe_type :: string
  oe_actor :: "uuid option"
  oe_payment :: uuid

record admin_db =
  ad_pay :: pay_db
  ad_events :: "audit_event list"

record payment_detail =
  dt_payment :: pos_payment
  dt_tender_name :: string
  dt_tender_type :: string
  dt_note :: string
  dt_voidable :: bool

record payment_update =
  pu_reference :: "string option"
  pu_note :: "string option"
  pu_occurred :: "time option"
  pu_tender :: "uuid option"

datatype admin_error =
    Admin_Order_Not_Found
  | Payment_Not_Found
  | Edit_Voided
  | Void_Not_Completed
  | Gateway_Payment
  | Tender_Not_Found
  | Gateway_Tender
  | Admin_Db_Error

text \<open>Go's zero \<open>time.Time\<close> (1 January of year 1, UTC).\<close>

definition zero_time :: time where
  "zero_time = - 62135596800000000000"

definition manual_tender_types :: "string \<Rightarrow> bool" where
  "manual_tender_types t \<longleftrightarrow> t \<in> set
     [''cash'', ''manual'', ''mpesa_manual'', ''card_manual'', ''pdq'', ''card_terminal'', ''cheque'', ''bank_transfer'']"

definition payment_is_manageable :: "pos_payment \<Rightarrow> string \<Rightarrow> bool" where
  "payment_is_manageable p tender_type =
     (if as_str (meta_get (pp_data p) ''settled_via'') = ''treasury_gateway'' then False
      else if as_bool (meta_get (pp_data p) ''credit_settlement'') then True
      else manual_tender_types tender_type)"

definition find_tender :: "uuid \<Rightarrow> tender list \<Rightarrow> tender option" where
  "find_tender tid ts = List.find (\<lambda>t. td_id t = tid) ts"

section \<open>Reading\<close>

definition list_order_payments :: "uuid \<Rightarrow> uuid \<Rightarrow> pay_db \<Rightarrow> admin_error + pos_payment list" where
  "list_order_payments tid oid db =
     (if find_pay_order tid oid db = None then Inl Admin_Order_Not_Found
      else Inr (filter (\<lambda>p. pp_order p = oid) (pd_payments db)))"

definition payment_details :: "tender list \<Rightarrow> pos_payment \<Rightarrow> payment_detail" where
  "payment_details tenders p =
     (let name = (case find_tender (pp_tender p) tenders of Some t \<Rightarrow> td_name t | None \<Rightarrow> []);
          typ = (case find_tender (pp_tender p) tenders of Some t \<Rightarrow> td_type t | None \<Rightarrow> []);
          typ = (if typ = [] then as_str (meta_get (pp_data p) ''method'') else typ)
      in \<lparr>dt_payment = p, dt_tender_name = name, dt_tender_type = typ,
          dt_note = as_str (meta_get (pp_data p) ''note''),
          dt_voidable = (pp_status p = ps_completed \<and> payment_is_manageable p typ)\<rparr>)"

definition list_order_payments_detailed ::
  "bool \<Rightarrow> tender list \<Rightarrow> uuid \<Rightarrow> uuid \<Rightarrow> pay_db \<Rightarrow> admin_error + payment_detail list" where
  "list_order_payments_detailed tenders_ok tenders tid oid db =
     (case list_order_payments tid oid db of
        Inl e \<Rightarrow> Inl e
      | Inr rows \<Rightarrow> Inr (map (payment_details (if tenders_ok then tenders else [])) rows))"

definition load_managed_payment ::
  "tender list \<Rightarrow> uuid \<Rightarrow> uuid \<Rightarrow> uuid \<Rightarrow> pay_db \<Rightarrow> admin_error + (pos_payment \<times> string)" where
  "load_managed_payment tenders tid oid pid db =
     (if find_pay_order tid oid db = None then Inl Admin_Order_Not_Found
      else case List.find (\<lambda>p. pp_id p = pid \<and> pp_order p = oid) (pd_payments db) of
        None \<Rightarrow> Inl Payment_Not_Found
      | Some p \<Rightarrow>
          (let typ = as_str (meta_get (pp_data p) ''method'')
           in Inr (p, if typ \<noteq> [] then typ
                      else case find_tender (pp_tender p) tenders of Some t \<Rightarrow> td_type t | None \<Rightarrow> [])))"

section \<open>Editing and voiding\<close>

text \<open>\<open>UpdateOne(p)\<close> writes the given columns of the row with that id.\<close>

definition put_payment :: "pos_payment \<Rightarrow> pay_db \<Rightarrow> pay_db" where
  "put_payment p db = replace_payment (pp_id p) (\<lambda>_. p) db"

definition record_order_event :: "bool \<Rightarrow> uuid \<Rightarrow> string \<Rightarrow> uuid \<Rightarrow> uuid \<Rightarrow> admin_db \<Rightarrow> admin_db" where
  "record_order_event ok oid typ actor pid db =
     (if ok then db\<lparr>ad_events := ad_events db @ [\<lparr>oe_order = oid, oe_type = typ,
                       oe_actor = (if actor = uuid_nil then None else Some actor), oe_payment = pid\<rparr>]\<rparr>
      else db)"

definition edited_tender :: "tender list \<Rightarrow> uuid \<Rightarrow> payment_update \<Rightarrow> uuid \<Rightarrow> admin_error + uuid" where
  "edited_tender tenders tid inp current =
     (case pu_tender inp of
        None \<Rightarrow> Inr current
      | Some t \<Rightarrow>
          if t = uuid_nil then Inr current
          else (case List.find (\<lambda>x. td_id x = t \<and> td_tenant x = tid) tenders of
                  None \<Rightarrow> Inl Tender_Not_Found
                | Some x \<Rightarrow> if manual_tender_types (td_type x) then Inr (td_id x) else Inl Gateway_Tender))"

definition update_payment ::
  "tender list \<Rightarrow> bool \<Rightarrow> bool \<Rightarrow> uuid \<Rightarrow> uuid \<Rightarrow> uuid \<Rightarrow> payment_update \<Rightarrow> admin_db \<Rightarrow> (admin_error + pos_payment) \<times> admin_db" where
  "update_payment tenders save_ok event_ok tid oid pid inp db =
     (case load_managed_payment tenders tid oid pid (ad_pay db) of
        Inl e \<Rightarrow> (Inl e, db)
      | Inr (p, typ) \<Rightarrow>
          if pp_status p = ps_voided then (Inl Edit_Voided, db)
          else if \<not> payment_is_manageable p typ then (Inl Gateway_Payment, db)
          else (case edited_tender tenders tid inp (pp_tender p) of
                  Inl e \<Rightarrow> (Inl e, db)
                | Inr t \<Rightarrow>
                    (let ref = (case pu_reference inp of Some r \<Rightarrow> Some r | None \<Rightarrow> pp_reference p);
                         occ = (case pu_occurred inp of
                                  Some i \<Rightarrow> if i \<noteq> zero_time then i else pp_occurred p
                                | None \<Rightarrow> pp_occurred p);
                         data = (case pu_note inp of
                                   Some n \<Rightarrow> meta_set ''note'' (JStr n) (pp_data p)
                                 | None \<Rightarrow> pp_data p);
                         saved = p\<lparr>pp_reference := ref, pp_occurred := occ, pp_tender := t, pp_data := data\<rparr>
                     in if \<not> save_ok then (Inl Admin_Db_Error, db)
                        else (Inr saved, record_order_event event_ok oid ''payment.updated'' uuid_nil pid
                                (db\<lparr>ad_pay := put_payment saved (ad_pay db)\<rparr>)))))"

record void_env =
  ve_tenders :: "tender list"
  ve_treasury :: bool
  ve_save_ok :: bool
  ve_recompute :: recompute_fault
  ve_reload_ok :: bool
  ve_reopen_ok :: bool
  ve_event_ok :: bool
  ve_reverse_ok :: bool
  ve_now_text :: string
  ve_show_uuid :: "uuid \<Rightarrow> string"

definition void_stamp :: "void_env \<Rightarrow> uuid \<Rightarrow> string \<Rightarrow> meta \<Rightarrow> meta" where
  "void_stamp env by reason m =
     meta_set ''voided_at'' (JStr (ve_now_text env)) (meta_set ''voided_by'' (JStr (ve_show_uuid env by))
       (meta_set ''void_reason'' (JStr reason) m))"

text \<open>An order that its payments no longer cover goes back to collection.\<close>

definition reopen_uncovered :: "void_env \<Rightarrow> uuid \<Rightarrow> uuid \<Rightarrow> f64 \<Rightarrow> pay_db \<Rightarrow> pay_db" where
  "reopen_uncovered env tid oid settled db =
     (if \<not> ve_reload_ok env then db
      else case find_pay_order tid oid db of
        None \<Rightarrow> db
      | Some po \<Rightarrow>
          if po_status po = st_completed \<and> fl (settled + cent) < po_total_amount po \<and> ve_reopen_ok env
          then update_order oid (\<lambda>r. r\<lparr>po_status := st_pending_payment\<rparr>) db
          else db)"

text \<open>The reversal in treasury's books; a settlement row without a receipt id is left alone.\<close>

definition reverse_in_treasury :: "void_env \<Rightarrow> string \<Rightarrow> pos_payment \<Rightarrow> pay_db \<Rightarrow> pay_db" where
  "reverse_in_treasury env slug p db =
     (if \<not> ve_treasury env \<or> slug = [] \<or> \<not> ve_reverse_ok env then db
      else (let receipt = as_str (meta_get (pp_data p) ''treasury_receipt_id'')
            in if receipt \<noteq> []
               then add_call (Receipt_Voided (as_str (meta_get (pp_data p) ''treasury_customer_key'')) receipt) db
               else if as_bool (meta_get (pp_data p) ''credit_settlement'') then db
               else add_call (Refund_Created (pp_id p) (pp_amount p)) db))"

definition void_payment ::
  "void_env \<Rightarrow> uuid \<Rightarrow> string \<Rightarrow> uuid \<Rightarrow> uuid \<Rightarrow> uuid \<Rightarrow> string \<Rightarrow> admin_db \<Rightarrow> (admin_error + pos_payment) \<times> admin_db" where
  "void_payment env tid slug oid pid by reason db =
     (case load_managed_payment (ve_tenders env) tid oid pid (ad_pay db) of
        Inl e \<Rightarrow> (Inl e, db)
      | Inr (p, typ) \<Rightarrow>
          if pp_status p = ps_voided then (Inr p, db)
          else if pp_status p \<noteq> ps_completed then (Inl Void_Not_Completed, db)
          else if \<not> payment_is_manageable p typ then (Inl Gateway_Payment, db)
          else if \<not> ve_save_ok env then (Inl Admin_Db_Error, db)
          else
            (let voided = p\<lparr>pp_status := ps_voided, pp_data := void_stamp env by reason (pp_data p)\<rparr>;
                 r = recompute_paid_total (ve_recompute env) oid (put_payment voided (ad_pay db));
                 pdb = reopen_uncovered env tid oid (fst (snd (fst r))) (snd r);
                 db' = record_order_event (ve_event_ok env) oid ''payment.voided'' by pid (db\<lparr>ad_pay := pdb\<rparr>)
             in (Inr voided, db'\<lparr>ad_pay := reverse_in_treasury env slug voided (ad_pay db')\<rparr>)))"

section \<open>What a correction may change\<close>

definition distinct_payments :: "pay_db \<Rightarrow> bool" where
  "distinct_payments db \<longleftrightarrow> distinct (map pp_id (pd_payments db))"

lemma load_managed_Inr:
  assumes "load_managed_payment tenders tid oid pid db = Inr (p, typ)"
  shows "p \<in> set (pd_payments db)" "pp_id p = pid" "pp_order p = oid" "find_pay_order tid oid db \<noteq> None"
proof -
  from assms obtain "find_pay_order tid oid db \<noteq> None"
    and f: "List.find (\<lambda>p. pp_id p = pid \<and> pp_order p = oid) (pd_payments db) = Some p"
    by (auto simp: load_managed_payment_def Let_def split: if_splits option.splits)
  then show "p \<in> set (pd_payments db)" "pp_id p = pid" "pp_order p = oid" "find_pay_order tid oid db \<noteq> None"
    by (auto simp: find_Some_iff)
qed

lemma replace_by_id:
  assumes "distinct_payments db" "p \<in> set (pd_payments db)"
  shows "map (\<lambda>q. if pp_id q = pp_id p then f q else q) (pd_payments db) = map (\<lambda>q. if q = p then f p else q) (pd_payments db)"
  using assms by (auto simp: distinct_payments_def distinct_map inj_on_def)

lemma record_event_pay [simp]: "ad_pay (record_order_event ok oid typ actor pid db) = ad_pay db"
  by (simp add: record_order_event_def)

lemma put_payment_simps [simp]:
  "pd_orders (put_payment p db) = pd_orders db" "pd_calls (put_payment p db) = pd_calls db"
  "pd_dispatched (put_payment p db) = pd_dispatched db" "pd_returns (put_payment p db) = pd_returns db"
  by (simp_all add: put_payment_def replace_payment_def)

lemma recompute_frame [simp]:
  "pd_payments (snd (recompute_paid_total f oid db)) = pd_payments db"
  "pd_calls (snd (recompute_paid_total f oid db)) = pd_calls db"
  "pd_dispatched (snd (recompute_paid_total f oid db)) = pd_dispatched db"
  by (auto simp: recompute_paid_total_def Let_def update_order_def)

lemma reopen_frame [simp]:
  "pd_payments (reopen_uncovered env tid oid s db) = pd_payments db"
  "pd_calls (reopen_uncovered env tid oid s db) = pd_calls db"
  "pd_dispatched (reopen_uncovered env tid oid s db) = pd_dispatched db"
  by (auto simp: reopen_uncovered_def update_order_def split: option.split)

lemma reverse_frame [simp]:
  "pd_payments (reverse_in_treasury env slug p db) = pd_payments db"
  "pd_orders (reverse_in_treasury env slug p db) = pd_orders db"
  "pd_dispatched (reverse_in_treasury env slug p db) = pd_dispatched db"
  by (auto simp: reverse_in_treasury_def Let_def add_call_def)

lemma void_payment_Inr:
  assumes "void_payment env tid slug oid pid by reason db = (Inr v, db')"
    and "load_managed_payment (ve_tenders env) tid oid pid (ad_pay db) = Inr (p, typ)" "pp_status p \<noteq> ps_voided"
  shows "pp_status p = ps_completed" "payment_is_manageable p typ"
    "v = p\<lparr>pp_status := ps_voided, pp_data := void_stamp env by reason (pp_data p)\<rparr>"
    "ad_pay db' = (let r = recompute_paid_total (ve_recompute env) oid (put_payment v (ad_pay db))
       in reverse_in_treasury env slug v (reopen_uncovered env tid oid (fst (snd (fst r))) (snd r)))"
  using assms by (auto simp: void_payment_def Let_def split: if_splits)

lemma void_payment_Inl: "void_payment env tid slug oid pid by reason db = (Inl e, db') \<Longrightarrow> db' = db"
  by (auto simp: void_payment_def Let_def split: sum.splits if_splits)

lemma update_payment_Inl: "update_payment tenders sok eok tid oid pid inp db = (Inl e, db') \<Longrightarrow> db' = db"
  by (auto simp: update_payment_def Let_def split: sum.splits if_splits)

definition status_after_void :: "f64 \<Rightarrow> pos_order \<Rightarrow> string" where
  "status_after_void settled po =
     (if po_status po = st_completed \<and> fl (settled + cent) < po_total_amount po then st_pending_payment else po_status po)"

text \<open>
  C25. Voiding a payment changes that row alone: it must have been a completed, manually recorded
  payment, keeps its amount and becomes voided; the paid total becomes what the other rows collected,
  and a completed order goes back to collection exactly when what is left no longer covers it.
\<close>

theorem void_payment_spec:
  assumes "void_payment env tid slug oid pid by reason db = (Inr v, db')"
    and "load_managed_payment (ve_tenders env) tid oid pid (ad_pay db) = Inr (p, typ)" "pp_status p \<noteq> ps_voided"
    and "distinct_payments (ad_pay db)" "pd_orders (ad_pay db) oid = Some po"
    and "ve_recompute env = no_recompute_fault" "ve_reload_ok env" "ve_reopen_ok env"
  shows "pp_status p = ps_completed \<and> payment_is_manageable p typ \<and> pp_status v = ps_voided \<and> pp_amount v = pp_amount p \<and>
    pd_payments (ad_pay db') = map (\<lambda>q. if q = p then v else q) (pd_payments (ad_pay db)) \<and>
    pd_orders (ad_pay db') = (pd_orders (ad_pay db))(oid \<mapsto> po\<lparr>
      po_paid_total := collected_of oid (pd_payments (ad_pay db')),
      po_status := status_after_void (settled_of oid (pd_payments (ad_pay db'))) po\<rparr>)"
proof -
  note lm = load_managed_Inr [OF assms(2)]
  note v = void_payment_Inr [OF assms(1-3)]
  let ?db1 = "put_payment v (ad_pay db)"
  have vid: "pp_id v = pp_id p" by (simp add: v(3))
  have pays: "pd_payments ?db1 = map (\<lambda>q. if q = p then v else q) (pd_payments (ad_pay db))"
    using replace_by_id [OF assms(4) lm(1), of "\<lambda>_. v"] by (simp add: put_payment_def replace_payment_def vid)
  have db': "ad_pay db' = reverse_in_treasury env slug v (reopen_uncovered env tid oid (settled_of oid (pd_payments ?db1))
      (update_order oid (\<lambda>po. po\<lparr>po_paid_total := collected_of oid (pd_payments ?db1)\<rparr>) ?db1))"
    using v(4) assms(6) by (simp add: recompute_simps Let_def)
  have "po_tenant po = tid" using lm(4) assms(5) by (auto simp: find_pay_order_def split: if_splits)
  then have "pd_orders (ad_pay db') = (pd_orders (ad_pay db))(oid \<mapsto> po\<lparr>po_paid_total := collected_of oid (pd_payments ?db1),
      po_status := status_after_void (settled_of oid (pd_payments ?db1)) po\<rparr>)"
    using assms(5,7,8)
    by (auto simp: db' reopen_uncovered_def find_pay_order_def status_after_void_def update_order_def fun_eq_iff)
  then show ?thesis using v(1-3) pays by (simp add: db')
qed

text \<open>
  A void is idempotent: repeating it returns the row as it was voided and changes nothing, so
  treasury is not asked to reverse the money twice.
\<close>

theorem void_payment_idempotent:
  assumes "void_payment env tid slug oid pid by reason db = (Inr v, db')" "distinct_payments (ad_pay db)"
  shows "void_payment env' tid slug' oid pid by' reason' db' = (Inr v, db')"
proof -
  obtain p ty where load: "load_managed_payment (ve_tenders env) tid oid pid (ad_pay db) = Inr (p, ty)"
    using assms(1) by (auto simp: void_payment_def split: sum.splits)
  note lm = load_managed_Inr [OF load]
  have found: "List.find (\<lambda>p. pp_id p = pid \<and> pp_order p = oid) (pd_payments (ad_pay db)) = Some p"
    using load by (auto simp: load_managed_payment_def Let_def split: if_splits option.splits)
  show ?thesis
  proof (cases "pp_status p = ps_voided")
    case True
    then have "v = p" "db' = db" using assms(1) load by (simp_all add: void_payment_def)
    then show ?thesis using True found lm(4) by (simp add: void_payment_def load_managed_payment_def Let_def)
  next
    case False
    note v = void_payment_Inr [OF assms(1) load False]
    have vid: "pp_id v = pid" "pp_order v = oid" "pp_status v = ps_voided" using lm by (simp_all add: v(3))
    have pays: "pd_payments (ad_pay db') = map (\<lambda>q. if pp_id q = pid then v else q) (pd_payments (ad_pay db))"
      using v(4) vid by (simp add: Let_def put_payment_def replace_payment_def)
    have "\<exists>q \<in> set (pd_payments (ad_pay db')). pp_id q = pid \<and> pp_order q = oid"
      using lm vid unfolding pays by auto
    then obtain q where q: "List.find (\<lambda>p. pp_id p = pid \<and> pp_order p = oid) (pd_payments (ad_pay db')) = Some q"
      by (metis (mono_tags, lifting) find_None_iff not_None_eq)
    then have "q \<in> set (pd_payments (ad_pay db'))" "pp_id q = pid" by (auto simp: find_Some_iff)
    then have "q = v" unfolding pays using vid by auto
    have "find_pay_order tid oid (ad_pay db') \<noteq> None"
      using lm(4) v(4)
      by (auto simp: Let_def find_pay_order_def recompute_paid_total_def reopen_uncovered_def
          split: option.splits if_splits)
    then show ?thesis using q \<open>q = v\<close> vid by (simp add: void_payment_def load_managed_payment_def Let_def)
  qed
qed

section \<open>A day at the till\<close>

definition sample_void_env :: void_env where
  "sample_void_env = \<lparr>ve_tenders = [], ve_treasury = True, ve_save_ok = True, ve_recompute = no_recompute_fault,
     ve_reload_ok = True, ve_reopen_ok = True, ve_event_ok = True, ve_reverse_ok = True, ve_now_text = ''now'',
     ve_show_uuid = (\<lambda>_. ''u'')\<rparr>"

definition till_payment :: pos_payment where
  "till_payment = new_payment sample_pay_env (cash_request 0) 200 ''KES'' ps_completed None [(''method'', JStr ''cash'')]"

definition till_order :: pos_order where
  "till_order = kitchen_order\<lparr>po_paid_total := 200, po_status := st_completed\<rparr>"

definition till_db :: admin_db where
  "till_db = \<lparr>ad_pay = \<lparr>pd_orders = [50 \<mapsto> till_order], pd_payments = [till_payment], pd_returns = [], pd_tickets = [],
     pd_dispatched = [till_order], pd_calls = []\<rparr>, ad_events = []\<rparr>"

definition till_voided :: admin_db where
  "till_voided = snd (void_payment sample_void_env 2 ''shop'' 50 900 5 ''wrong till'' till_db)"

lemma till_db_facts:
  "pd_payments (ad_pay till_db) = [till_payment]" "pd_orders (ad_pay till_db) 50 = Some till_order"
  "load_managed_payment [] 2 50 900 (ad_pay till_db) = Inr (till_payment, ''cash'')"
  by code_simp+

lemma till_distinct: "distinct_payments (ad_pay till_db)"
  by (simp add: distinct_payments_def till_db_facts(1))

theorem void_payment_spec_witness:
  "pd_orders (ad_pay till_voided) 50 = Some (till_order\<lparr>po_paid_total := 0, po_status := st_pending_payment\<rparr>) \<and>
   map pp_status (pd_payments (ad_pay till_voided)) = [ps_voided]"
proof -
  let ?r = "void_payment sample_void_env 2 ''shop'' 50 900 5 ''wrong till'' till_db"
  have "case fst ?r of Inr v \<Rightarrow> True | Inl e \<Rightarrow> False" by code_simp
  then obtain v where "?r = (Inr v, till_voided)"
    unfolding till_voided_def by (cases ?r) (auto split: sum.splits)
  from void_payment_spec [OF this, of till_payment "''cash''" till_order]
  have s: "pp_status v = ps_voided"
    "pd_payments (ad_pay till_voided) = [v]"
    "pd_orders (ad_pay till_voided) = (pd_orders (ad_pay till_db))(50 \<mapsto> till_order\<lparr>
      po_paid_total := collected_of 50 (pd_payments (ad_pay till_voided)),
      po_status := status_after_void (settled_of 50 (pd_payments (ad_pay till_voided))) till_order\<rparr>)"
    using till_db_facts till_distinct
    by (simp_all add: sample_void_env_def till_payment_def new_payment_def)
  have none: "completed_rows 50 [v] = []" using s(1) by (simp add: completed_rows_def)
  have "fl cent < 200" by code_simp
  then have "status_after_void 0 till_order = st_pending_payment"
    by (simp add: status_after_void_def till_order_def kitchen_order_def)
  then show ?thesis using s none by (simp add: collected_of_def settled_of_def)
qed

theorem void_payment_idempotent_witness:
  "snd (void_payment sample_void_env 2 ''shop'' 50 900 6 ''again'' till_voided) = till_voided \<and>
   length (filter (\<lambda>c. c = Refund_Created 900 200) (pd_calls (ad_pay till_voided))) = 1"
proof -
  let ?r = "void_payment sample_void_env 2 ''shop'' 50 900 5 ''wrong till'' till_db"
  have "case fst ?r of Inr v \<Rightarrow> True | Inl e \<Rightarrow> False" by code_simp
  then obtain v where "?r = (Inr v, till_voided)"
    unfolding till_voided_def by (cases ?r) (auto split: sum.splits)
  from void_payment_idempotent [OF this till_distinct]
  have "void_payment sample_void_env 2 ''shop'' 50 900 6 ''again'' till_voided = (Inr v, till_voided)" by blast
  moreover have "length (filter (\<lambda>c. c = Refund_Created 900 200) (pd_calls (ad_pay till_voided))) = 1" by code_simp
  ultimately show ?thesis by simp
qed

text \<open>
  An edit never touches money: a successful edit changes only the reference, the note, the date
  and the tender of one row that is not voided and was recorded by hand; every amount and status, the
  orders and the calls to treasury stay as they were.
\<close>

theorem edit_keeps_money:
  assumes "update_payment tenders save_ok event_ok tid oid pid inp db = (Inr s, db')" "distinct_payments (ad_pay db)"
  shows "map (\<lambda>p. (pp_id p, pp_order p, pp_amount p, pp_status p)) (pd_payments (ad_pay db')) =
      map (\<lambda>p. (pp_id p, pp_order p, pp_amount p, pp_status p)) (pd_payments (ad_pay db)) \<and>
    pd_orders (ad_pay db') = pd_orders (ad_pay db) \<and> pd_calls (ad_pay db') = pd_calls (ad_pay db) \<and>
    pp_status s \<noteq> ps_voided \<and> as_str (meta_get (pp_data s) ''settled_via'') \<noteq> ''treasury_gateway''"
proof -
  obtain p ty where load: "load_managed_payment tenders tid oid pid (ad_pay db) = Inr (p, ty)"
    using assms(1) by (auto simp: update_payment_def split: sum.splits)
  note lm = load_managed_Inr [OF load]
  from assms(1) load have s: "pp_id s = pp_id p" "pp_order s = pp_order p" "pp_amount s = pp_amount p" "pp_status s = pp_status p"
    "pp_data s = pp_data p \<or> (\<exists>n. pp_data s = meta_set ''note'' (JStr n) (pp_data p))"
    "pp_status p \<noteq> ps_voided" "payment_is_manageable p ty"
    "ad_pay db' = put_payment s (ad_pay db)"
    by (auto simp: update_payment_def Let_def split: sum.splits if_splits option.splits)
  have pays: "pd_payments (ad_pay db') = map (\<lambda>q. if q = p then s else q) (pd_payments (ad_pay db))"
    using replace_by_id [OF assms(2) lm(1), of "\<lambda>_. s"] s(1,8) by (simp add: put_payment_def replace_payment_def)
  have "as_str (meta_get (pp_data s) ''settled_via'') \<noteq> ''treasury_gateway''"
    using s(5,7) by (auto simp: payment_is_manageable_def split: if_splits)
  then show ?thesis using s pays by simp
qed

definition note_update :: payment_update where
  "note_update = \<lparr>pu_reference = Some ''R1'', pu_note = Some ''paid by hand'', pu_occurred = None, pu_tender = None\<rparr>"

theorem edit_keeps_money_witness:
  "pd_orders (ad_pay (snd (update_payment [] True True 2 50 900 note_update till_db))) = pd_orders (ad_pay till_db) \<and>
   map pp_reference (pd_payments (ad_pay (snd (update_payment [] True True 2 50 900 note_update till_db)))) = [Some ''R1'']"
proof -
  let ?r = "update_payment [] True True 2 50 900 note_update till_db"
  have "case fst ?r of Inr v \<Rightarrow> True | Inl e \<Rightarrow> False" by code_simp
  then obtain s where "?r = (Inr s, snd ?r)" by (cases ?r) (auto split: sum.splits)
  from edit_keeps_money [OF this till_distinct]
  have "pd_orders (ad_pay (snd ?r)) = pd_orders (ad_pay till_db)" by blast
  moreover have "map pp_reference (pd_payments (ad_pay (snd ?r))) = [Some ''R1'']" by code_simp
  ultimately show ?thesis by simp
qed

text \<open>
  Money captured by a gateway is out of reach of the till's corrections: a row that treasury
  confirmed can be neither edited nor voided, whatever tender type it has.
\<close>

theorem gateway_rows_protected:
  assumes "load_managed_payment tenders tid oid pid (ad_pay db) = Inr (confirm_row amt payer p, ty)"
  shows "update_payment tenders sok eok tid oid pid inp db = (Inl Gateway_Payment, db) \<and>
    void_payment (env\<lparr>ve_tenders := tenders\<rparr>) tid slug oid pid by reason db = (Inl Gateway_Payment, db)"
proof -
  have "as_str (meta_get (pp_data (confirm_row amt payer p)) ''settled_via'') = ''treasury_gateway''"
    by (simp add: confirm_row_def Let_def)
  then show ?thesis using assms by (simp add: update_payment_def void_payment_def payment_is_manageable_def)
qed

theorem gateway_rows_protected_witness:
  "void_payment (sample_void_env\<lparr>ve_tenders := []\<rparr>) 2 ''shop'' 50 900 5 ''x'' \<lparr>ad_pay = confirmed_db, ad_events = []\<rparr> =
     (Inl Gateway_Payment, \<lparr>ad_pay = confirmed_db, ad_events = []\<rparr>)"
proof -
  have "load_managed_payment [] 2 50 900 (ad_pay \<lparr>ad_pay = confirmed_db, ad_events = []\<rparr>) =
      Inr (confirm_row 200 ''Jane'' (hd (pd_payments pending_db)), ''mpesa'')"
    unfolding confirmed_db_def by code_simp
  from gateway_rows_protected [OF this] show ?thesis by blast
qed

section \<open>Two corrections that go wrong\<close>

definition two_payments_db :: admin_db where
  "two_payments_db = till_db\<lparr>ad_pay := add_payment (till_payment\<lparr>pp_id := 901\<rparr>) (ad_pay till_db)\<rparr>"

text \<open>
  When the payments cannot be summed after a void, the settled amount counts as nothing: the order
  is sent back to collection although its other payment still covers it.
\<close>

theorem void_fault_reopens_covered_order:
  "settled_of 50 (filter (\<lambda>p. pp_id p \<noteq> 900) (pd_payments (ad_pay two_payments_db))) = 200 \<and>
   order_status 50 (ad_pay (snd (void_payment sample_void_env 2 ''shop'' 50 900 5 [] two_payments_db))) = Some st_completed \<and>
   order_status 50 (ad_pay (snd (void_payment (sample_void_env\<lparr>ve_recompute := \<lparr>rf_sum_ok = False, rf_store_ok = True\<rparr>\<rparr>)
      2 ''shop'' 50 900 5 [] two_payments_db))) = Some st_pending_payment"
  by code_simp

text \<open>
  A void reopens a finalized sale, and collecting its balance again finalizes it a second time:
  the same order is dispatched to the ledger, stock and fiscal work twice.
\<close>

theorem void_then_repay_dispatches_twice:
  "dispatches 50 (ad_pay till_voided) = 1 \<and>
   dispatches 50 (snd (record_payment (sample_pay_env\<lparr>pe_payment_id := 902\<rparr>) (cash_request 0) (ad_pay till_voided))) = 2"
  by code_simp

section \<open>How often a sale is finalized\<close>

text \<open>
  The life of the orders: a step of the payment service, a correction, the write of a void that
  reopens an order whatever its row says by then, or anything another handler of the service does
  (creations, status updates, line edits, returns, reconciliations), as long as it keeps the keys of
  the order table and leaves the queue of finalizations alone. Only the layaway completion, which
  queues its own order, is outside.
\<close>

inductive sale_step :: "pay_db \<Rightarrow> pay_db \<Rightarrow> bool" where
  sale_pay: "pay_step db db' \<Longrightarrow> sale_step db db'"
| sale_void: "sale_step (ad_pay a) (ad_pay (snd (void_payment env tid slug oid pid by reason a)))"
| sale_edit: "sale_step (ad_pay a) (ad_pay (snd (update_payment tenders save_ok event_ok tid oid pid inp a)))"
| sale_reopen: "sale_step db (update_order oid (\<lambda>po. po\<lparr>po_status := st_pending_payment\<rparr>) db)"
| sale_elsewhere: "pd_dispatched db' = pd_dispatched db \<Longrightarrow> (db_keyed db \<longrightarrow> db_keyed db') \<Longrightarrow> sale_step db db'"

definition awaits_payment :: "uuid \<Rightarrow> pay_db \<Rightarrow> bool" where
  "awaits_payment oid db \<longleftrightarrow> (case order_status oid db of Some s \<Rightarrow> settleable s | None \<Rightarrow> False)"

text \<open>
  \<open>sale_history oid n db db'\<close>: a run of steps in which the order entered a status that awaits
  payment n times (was created in one, or reopened).
\<close>

inductive sale_history :: "uuid \<Rightarrow> nat \<Rightarrow> pay_db \<Rightarrow> pay_db \<Rightarrow> bool" for oid where
  history_nil: "sale_history oid 0 db db"
| history_step: "sale_history oid n db db1 \<Longrightarrow> sale_step db1 db2 \<Longrightarrow>
    sale_history oid (n + of_bool (\<not> awaits_payment oid db1 \<and> awaits_payment oid db2)) db db2"

lemma frame_dispatches:
  "pd_dispatched (ad_pay (snd (void_payment env tid slug oid pid by reason a))) = pd_dispatched (ad_pay a)"
  "pd_dispatched (ad_pay (snd (update_payment tenders save_ok event_ok tid oid pid inp a))) = pd_dispatched (ad_pay a)"
  by (auto simp: void_payment_def update_payment_def Let_def split: sum.split prod.split)

lemma update_order_keyed: "db_keyed db \<Longrightarrow> (\<And>po. po_id (f po) = po_id po) \<Longrightarrow> db_keyed (update_order oid f db)"
  by (auto simp: db_keyed_def split: if_splits)

lemma reopen_keyed: "db_keyed db \<Longrightarrow> db_keyed (reopen_uncovered env tid oid s db)"
  by (auto simp: reopen_uncovered_def split: option.split intro: update_order_keyed)

lemma recompute_keyed: "db_keyed db \<Longrightarrow> db_keyed (snd (recompute_paid_total f oid db))"
  by (auto simp: recompute_paid_total_def Let_def intro: update_order_keyed)

lemma frame_keyed:
  assumes "db_keyed (ad_pay a)"
  shows "db_keyed (ad_pay (snd (void_payment env tid slug oid pid by reason a)))"
    "db_keyed (ad_pay (snd (update_payment tenders save_ok event_ok tid oid pid inp a)))"
proof -
  have put: "db_keyed (put_payment p (ad_pay a))" for p
    using assms by (simp add: db_keyed_def)
  have rev: "db_keyed db \<Longrightarrow> db_keyed (reverse_in_treasury env slug p db)" for p db
    by (simp add: db_keyed_def)
  show "db_keyed (ad_pay (snd (void_payment env tid slug oid pid by reason a)))"
    using assms put by (auto simp: void_payment_def Let_def split: sum.split prod.split
      intro!: rev reopen_keyed recompute_keyed)
  show "db_keyed (ad_pay (snd (update_payment tenders save_ok event_ok tid oid pid inp a)))"
    using assms put by (auto simp: update_payment_def Let_def split: sum.split prod.split)
qed

text \<open>One step uses up a waiting order for every dispatch.\<close>

lemma quiet_step:
  assumes "pd_dispatched db' = pd_dispatched db"
  shows "dispatches oid db' + of_bool (awaits_payment oid db') \<le>
    dispatches oid db + of_bool (awaits_payment oid db) + of_bool (\<not> awaits_payment oid db \<and> awaits_payment oid db')"
  using assms by (simp add: dispatches_def)

lemma winner_dispatch:
  assumes "one_winner oid db db'" "db_keyed db"
  shows "db_keyed db' \<and> dispatches oid db' + of_bool (awaits_payment oid db') \<le>
    dispatches oid db + of_bool (awaits_payment oid db) + of_bool (\<not> awaits_payment oid db \<and> awaits_payment oid db')"
proof -
  have aw: "awaits_payment oid b \<longleftrightarrow> (\<exists>s. order_status oid b = Some s \<and> settleable s)" for b
    by (simp add: awaits_payment_def split: option.split)
  from assms have k: "db_keyed db'"
    and d: "order_status oid db' = order_status oid db \<and> dispatches oid db' = dispatches oid db \<or>
      awaits_payment oid db \<and> order_status oid db' = Some st_completed \<and> dispatches oid db' = Suc (dispatches oid db)"
    unfolding one_winner_def aw by blast+
  from d show ?thesis
  proof
    assume "order_status oid db' = order_status oid db \<and> dispatches oid db' = dispatches oid db"
    then show ?thesis using k by (simp add: awaits_payment_def)
  next
    assume c: "awaits_payment oid db \<and> order_status oid db' = Some st_completed \<and> dispatches oid db' = Suc (dispatches oid db)"
    then have "\<not> awaits_payment oid db'" by (simp add: aw)
    then show ?thesis using k c by simp
  qed
qed

lemma sale_step_dispatch:
  assumes "sale_step db db'" "db_keyed db"
  shows "db_keyed db' \<and> dispatches oid db' + of_bool (awaits_payment oid db') \<le>
    dispatches oid db + of_bool (awaits_payment oid db) + of_bool (\<not> awaits_payment oid db \<and> awaits_payment oid db')"
  using assms
proof cases
  case sale_pay
  show ?thesis by (rule winner_dispatch [OF one_winner_step [OF sale_pay] assms(2)])
next
  case sale_void
  then show ?thesis using quiet_step frame_dispatches(1) frame_keyed(1) assms(2) by blast
next
  case sale_edit
  then show ?thesis using quiet_step frame_dispatches(2) frame_keyed(2) assms(2) by blast
next
  case (sale_reopen o')
  have "db_keyed db'" unfolding sale_reopen by (rule update_order_keyed [OF assms(2)]) simp
  then show ?thesis using quiet_step [of db' db oid] sale_reopen by simp
next
  case sale_elsewhere
  then show ?thesis using quiet_step assms(2) by blast
qed

lemma sale_history_dispatch:
  assumes "sale_history oid n db db'" "db_keyed db"
  shows "db_keyed db' \<and> dispatches oid db' + of_bool (awaits_payment oid db') \<le>
    dispatches oid db + of_bool (awaits_payment oid db) + n"
  using assms
proof induction
  case (history_step n db db1 db2)
  then show ?case using sale_step_dispatch [of db1 db2 oid] by linarith
qed simp

text \<open>
  C1. A sale is finalized at most once each time it becomes open for payment. Whatever payments,
  confirmations, failures, retries, rechecks, voids, edits and other requests run, in any order and
  with stale snapshots: the number of times an order is handed to the post-settlement work (ledger,
  stock, fiscal receipt) grows by at most the number of times it was created in, or reopened to, a
  status that awaits payment, plus one if it was in one at the start and is in none at the end. So
  an order that no void reopens is dispatched at most once, and one void of a payment allows one
  more dispatch, which does happen (\<open>void_then_repay_dispatches_twice\<close>).
\<close>

theorem finalized_once:
  assumes "sale_history oid n db db'" "db_keyed db"
  shows "dispatches oid db' + of_bool (awaits_payment oid db') \<le>
    dispatches oid db + of_bool (awaits_payment oid db) + n"
  using sale_history_dispatch [OF assms] by simp

definition repaid_db :: pay_db where
  "repaid_db = snd (record_payment (sample_pay_env\<lparr>pe_payment_id := 902\<rparr>) (cash_request 0) (ad_pay till_voided))"

theorem finalized_once_witness:
  "sale_history 50 1 (ad_pay till_db) repaid_db \<and> dispatches 50 (ad_pay till_db) = 1 \<and> dispatches 50 repaid_db = 2 \<and>
   dispatches 50 repaid_db + of_bool (awaits_payment 50 repaid_db) \<le>
     dispatches 50 (ad_pay till_db) + of_bool (awaits_payment 50 (ad_pay till_db)) + 1"
proof -
  have a: "\<not> awaits_payment 50 (ad_pay till_db)" "awaits_payment 50 (ad_pay till_voided)" "\<not> awaits_payment 50 repaid_db"
    by code_simp+
  have "sale_history 50 (0 + of_bool (\<not> awaits_payment 50 (ad_pay till_db) \<and> awaits_payment 50 (ad_pay till_voided)))
      (ad_pay till_db) (ad_pay till_voided)"
    unfolding till_voided_def by (intro history_step [OF history_nil] sale_void)
  then have "sale_history 50 1 (ad_pay till_db) (ad_pay till_voided)" using a by simp
  then have "sale_history 50 (1 + of_bool (\<not> awaits_payment 50 (ad_pay till_voided) \<and> awaits_payment 50 repaid_db))
      (ad_pay till_db) repaid_db"
    by (rule history_step) (unfold repaid_db_def, intro sale_pay step_record)
  then have run: "sale_history 50 1 (ad_pay till_db) repaid_db" using a by simp
  moreover have "db_keyed (ad_pay till_db)"
    by (auto simp: db_keyed_def till_db_def till_order_def kitchen_order_def)
  moreover have "dispatches 50 (ad_pay till_db) = 1" "dispatches 50 repaid_db = 2" by code_simp+
  ultimately show ?thesis using finalized_once [OF run] by blast
qed

end
