(* ===== verification/Line_Changes.thy ===== *)
theory Line_Changes
  imports Payment_Admin
begin

text \<open>
  The two handlers that change a line of an open bill (\<open>internal/http/handlers/orders_line_void.go\<close>
  and \<open>orders_line_edit.go\<close>): the change itself and its recomputed totals are \<open>Order_Totals\<close>, and
  afterwards \<open>recheckCompletionAfterTotalsChange\<close> runs the completion of the payment service, since a
  smaller total may be covered by what was already paid. The lemmas show exactly when a line change
  completes the order. A request is one step here: other requests on the same order do not run
  between its statements.
\<close>

section \<open>The handlers\<close>

text \<open>\<open>None\<close> is a handler without a payment service.\<close>

definition recheck_after_totals_change :: "completion_fault option \<Rightarrow> uuid \<Rightarrow> uuid \<Rightarrow> pay_db \<Rightarrow> pay_db" where
  "recheck_after_totals_change service tid oid db =
     (case service of None \<Rightarrow> db | Some f \<Rightarrow> recheck_completion f tid oid db)"

datatype line_void_error = Void_Order_Not_Found | Void_Refused void_error

definition void_line_request ::
  "dec_lib \<Rightarrow> approvers \<Rightarrow> bool \<Rightarrow> void_fault \<Rightarrow> completion_fault option \<Rightarrow> uuid \<Rightarrow> uuid \<Rightarrow> uuid \<Rightarrow> void_request \<Rightarrow> pay_db
     \<Rightarrow> (line_void_error + f64) \<times> pay_db" where
  "void_line_request L A caller_is_manager fault service tid oid line_id r db =
     (if vr_reason r = [] then (Inl (Void_Refused Reason_Required), db)
      else case find_pay_order tid oid db of
        None \<Rightarrow> (Inl Void_Order_Not_Found, db)
      | Some po \<Rightarrow>
          (case void_order_line L A caller_is_manager fault line_id r po of
             (Inl e, po') \<Rightarrow> (Inl (Void_Refused e), update_order oid (\<lambda>_. po') db)
           | (Inr v, po') \<Rightarrow>
               (Inr v, recheck_after_totals_change service tid oid (update_order oid (\<lambda>_. po') db))))"

datatype edit_error = Edit_Reason_Required | Nothing_To_Edit | Edit_Refused order_error

definition edit_line_request ::
  "dec_lib \<Rightarrow> bool \<Rightarrow> completion_fault option \<Rightarrow> uuid \<Rightarrow> uuid \<Rightarrow> uuid \<Rightarrow> string \<Rightarrow> edit_input \<Rightarrow> pay_db
     \<Rightarrow> (edit_error + unit) \<times> pay_db" where
  "edit_line_request L ok service tid oid line_id reason inp db =
     (if reason = [] then (Inl Edit_Reason_Required, db)
      else if ei_unit_price inp = None \<and> ei_quantity inp = None then (Inl Nothing_To_Edit, db)
      else case find_pay_order tid oid db of
        None \<Rightarrow> (Inl (Edit_Refused Order_Not_Found), db)
      | Some po \<Rightarrow>
          (case edit_order_line L ok line_id inp po of
             Inl e \<Rightarrow> (Inl (Edit_Refused e), db)
           | Inr po' \<Rightarrow>
               (Inr (), recheck_after_totals_change service tid oid (update_order oid (\<lambda>_. po') db))))"

section \<open>When a line change completes the order\<close>

definition covered_by_payments :: "uuid \<Rightarrow> pos_order \<Rightarrow> pay_db \<Rightarrow> bool" where
  "covered_by_payments oid po db \<longleftrightarrow> settleable (po_status po) \<and>
     po_total_amount po \<le> fl (settled_of oid (pd_payments db) + cent)"

lemma recheck_outcome:
  assumes "find_pay_order tid oid db = Some row" "po_id row = oid"
  shows "order_status oid (recheck_completion no_completion_fault tid oid db) =
      Some (if covered_by_payments oid row db then st_completed else po_status row)"
    "dispatches oid (recheck_completion no_completion_fault tid oid db) =
      dispatches oid db + of_bool (covered_by_payments oid row db)"
proof -
  have r: "pd_orders db oid = Some row" using assms(1) by (simp add: find_pay_order_def split: option.splits if_splits)
  have "order_status oid (recheck_completion no_completion_fault tid oid db) =
      Some (if covered_by_payments oid row db then st_completed else po_status row) \<and>
    dispatches oid (recheck_completion no_completion_fault tid oid db) =
      dispatches oid db + of_bool (covered_by_payments oid row db)"
    using r assms
    by (auto simp: recheck_completion_def complete_order_if_fully_paid_def no_completion_fault_def recompute_simps
        claim_completion_def covered_by_payments_def order_status_def dispatches_def Let_def)
  then show "order_status oid (recheck_completion no_completion_fault tid oid db) =
      Some (if covered_by_payments oid row db then st_completed else po_status row)"
    "dispatches oid (recheck_completion no_completion_fault tid oid db) =
      dispatches oid db + of_bool (covered_by_payments oid row db)" by blast+
qed

lemma recompute_totals_frame [simp]:
  "po_id (recompute_totals L po) = po_id po" "po_status (recompute_totals L po) = po_status po"
  "po_tenant (recompute_totals L po) = po_tenant po"
  by (simp_all add: recompute_totals_def store_totals_def Let_def)

lemma void_line_frame:
  assumes "void_order_line L A caller_is_manager fault line_id r po = (Inr v, po')"
  shows "po_id po' = po_id po" "po_status po' = po_status po" "po_tenant po' = po_tenant po"
  using assms by (auto simp: void_order_line_def Let_def split: if_splits sum.splits option.splits)

lemma edit_line_frame:
  assumes "edit_order_line L ok line_id inp po = Inr po'"
  shows "po_id po' = po_id po" "po_status po' = po_status po" "po_tenant po' = po_tenant po"
  using assms by (auto simp: edit_order_line_def store_totals_def Let_def split: if_splits option.splits)

lemma stored_row:
  assumes "find_pay_order tid oid db = Some po" "po_tenant po' = po_tenant po"
  shows "find_pay_order tid oid (update_order oid (\<lambda>_. po') db) = Some po'"
  using assms by (auto simp: find_pay_order_def split: option.splits if_splits)

text \<open>
  C35. Voiding a line settles the bill when it closes the gap: after a successful void, with a payment
  service that answers, the order is completed and handed to finalization exactly when it was waiting
  for payment and its completed payments cover the reduced total; otherwise its status stays and
  nothing is handed over.
\<close>

theorem line_void_completes:
  assumes "find_pay_order tid oid db = Some po" "po_id po = oid"
    "void_order_line L A caller_is_manager fault line_id r po = (Inr v, po')"
    "void_line_request L A caller_is_manager fault (Some no_completion_fault) tid oid line_id r db = (Inr v, db')"
  shows "order_status oid db' = Some (if covered_by_payments oid po' db then st_completed else po_status po) \<and>
    dispatches oid db' = dispatches oid db + of_bool (covered_by_payments oid po' db)"
proof -
  have "db' = recheck_completion no_completion_fault tid oid (update_order oid (\<lambda>_. po') db)"
    using assms(1,3,4) by (simp add: void_line_request_def recheck_after_totals_change_def split: if_splits)
  then show ?thesis
    using recheck_outcome [OF stored_row [OF assms(1) void_line_frame(3) [OF assms(3)]]] void_line_frame [OF assms(3)] assms(2)
    by (simp add: covered_by_payments_def dispatches_def)
qed

text \<open>The same for the edit of a line's price or quantity.\<close>

theorem line_edit_completes:
  assumes "find_pay_order tid oid db = Some po" "po_id po = oid"
    "edit_order_line L ok line_id inp po = Inr po'"
    "edit_line_request L ok (Some no_completion_fault) tid oid line_id reason inp db = (Inr (), db')"
  shows "order_status oid db' = Some (if covered_by_payments oid po' db then st_completed else po_status po) \<and>
    dispatches oid db' = dispatches oid db + of_bool (covered_by_payments oid po' db)"
proof -
  have "db' = recheck_completion no_completion_fault tid oid (update_order oid (\<lambda>_. po') db)"
    using assms(1,3,4) by (simp add: edit_line_request_def recheck_after_totals_change_def split: if_splits)
  then show ?thesis
    using recheck_outcome [OF stored_row [OF assms(1) edit_line_frame(3) [OF assms(3)]]] edit_line_frame [OF assms(3)] assms(2)
    by (simp add: covered_by_payments_def dispatches_def)
qed

section \<open>A bill half paid\<close>

text \<open>An order of two dishes at 100; one was paid for, and the other is taken off the bill.\<close>

definition half_paid_db :: pay_db where
  "half_paid_db = snd (record_payment sample_pay_env (cash_request 100) open_db)"

definition half_paid_order :: pos_order where
  "half_paid_order = kitchen_order\<lparr>po_paid_total := 100\<rparr>"

theorem line_void_completes_witness:
  "order_status 50 half_paid_db = Some st_open \<and> dispatches 50 half_paid_db = 0 \<and>
   (let db' = snd (void_line_request shop_decimal sample_approvers False No_Fault (Some no_completion_fault) 2 50 11 (sample_void 0) half_paid_db)
    in order_status 50 db' = Some st_completed \<and> dispatches 50 db' = 1)"
proof -
  let ?v = "void_order_line shop_decimal sample_approvers False No_Fault 11 (sample_void 0) half_paid_order"
  let ?r = "void_line_request shop_decimal sample_approvers False No_Fault (Some no_completion_fault) 2 50 11 (sample_void 0) half_paid_db"
  have f: "find_pay_order 2 50 half_paid_db = Some half_paid_order" "po_id half_paid_order = 50" by code_simp+
  have "fst ?v = Inr 100" "fst ?r = Inr 100" by code_simp+
  then have vr: "?v = (Inr 100, snd ?v)" "?r = (Inr 100, snd ?r)" by (simp_all add: prod_eq_iff)
  have "covered_by_payments 50 (snd ?v) half_paid_db" by code_simp
  moreover have "order_status 50 half_paid_db = Some st_open" "dispatches 50 half_paid_db = 0" by code_simp+
  ultimately show ?thesis using line_void_completes [OF f vr] by simp
qed

theorem line_edit_completes_witness:
  "let inp = \<lparr>ei_unit_price = Some 0, ei_quantity = None\<rparr>;
       db' = snd (edit_line_request shop_decimal True (Some no_completion_fault) 2 50 11 ''stale price'' inp half_paid_db)
   in order_status 50 db' = Some st_completed \<and> dispatches 50 db' = 1"
proof -
  let ?inp = "\<lparr>ei_unit_price = Some 0, ei_quantity = None\<rparr>"
  let ?r = "edit_line_request shop_decimal True (Some no_completion_fault) 2 50 11 ''stale price'' ?inp half_paid_db"
  have f: "find_pay_order 2 50 half_paid_db = Some half_paid_order" "po_id half_paid_order = 50" by code_simp+
  have "case edit_order_line shop_decimal True 11 ?inp half_paid_order of
      Inr po' \<Rightarrow> covered_by_payments 50 po' half_paid_db | Inl e \<Rightarrow> False" by code_simp
  then obtain po' where e: "edit_order_line shop_decimal True 11 ?inp half_paid_order = Inr po'"
    "covered_by_payments 50 po' half_paid_db" by (auto split: sum.splits)
  have "fst ?r = Inr ()" by code_simp
  then have "?r = (Inr (), snd ?r)" by (simp add: prod_eq_iff)
  moreover have "dispatches 50 half_paid_db = 0" by code_simp
  ultimately show ?thesis using line_edit_completes [OF f e(1)] e(2) by simp
qed

end
