(* ===== verification/Ar_Reconcile.thy ===== *)
theory Ar_Reconcile
  imports Payment_Completion
begin

text \<open>
  Bringing the credit orders of a customer down to treasury's balance
  (\<open>internal/modules/payments/ar_reconcile.go\<close>) and the choice of that balance
  (\<open>resolveReconcileTarget\<close> of \<open>treasury_balance_subscriber.go\<close>). \<open>money.Round2\<close> is a third-party
  function and \<open>sort.Slice\<close> may return any sorted permutation: both are arguments, the sort under the
  contract of the locale \<open>created_sort\<close>.
\<close>

section \<open>The sort\<close>

type_synonym open_order = "pos_order \<times> f64"

locale created_sort =
  fixes srt :: "open_order list \<Rightarrow> open_order list"
  assumes srt_mset: "mset (srt xs) = mset xs"
    and srt_sorted: "sorted (map (\<lambda>x. po_created_at (fst x)) (srt xs))"
begin

lemma srt_set [simp]: "set (srt xs) = set xs"
  using srt_mset by (metis set_mset_mset)

lemma srt_length [simp]: "length (srt xs) = length xs"
  using srt_mset by (metis size_mset)

lemma srt_distinct: "distinct (map (\<lambda>x. po_id (fst x)) (srt xs)) = distinct (map (\<lambda>x. po_id (fst x)) xs)"
  by (rule mset_eq_imp_distinct_iff) (simp add: srt_mset)

lemma srt_sum: "sum_list (map f (srt xs)) = (sum_list (map f xs) :: f64)"
proof -
  have "sum_mset (image_mset f (mset (srt xs))) = sum_mset (image_mset f (mset xs))" by (simp only: srt_mset)
  then show ?thesis by (simp only: mset_map [symmetric] sum_mset_sum_list)
qed

end

definition oldest_first :: "open_order list \<Rightarrow> open_order list" where
  "oldest_first xs = sort_key (\<lambda>x. po_created_at (fst x)) xs"

interpretation oldest: created_sort oldest_first
  by unfold_locales (simp_all add: oldest_first_def)

section \<open>Inputs and reports\<close>

record recon_params =
  rp_tenant :: uuid
  rp_crm :: string
  rp_identifier :: string
  rp_target :: f64
  rp_method :: string
  rp_reference :: string
  rp_dry_run :: bool

record reconciled_order =
  ro_order :: uuid
  ro_number :: string
  ro_due_before :: f64
  ro_applied :: f64
  ro_due_after :: f64

record recon_report =
  rr_key :: string
  rr_target :: f64
  rr_open_before :: f64
  rr_open_after :: f64
  rr_settled :: f64
  rr_touched :: "reconciled_order list"
  rr_dry_run :: bool

text \<open>
  \<open>ra_ids\<close> is the order in which the query returns the rows; the outcomes of the statements on an
  order or a payment are functions of its id.
\<close>

record recon_env =
  ra_pay :: pay_env
  ra_round :: "f64 \<Rightarrow> f64"
  ra_ids :: "uuid list"
  ra_query_ok :: bool
  ra_returns_ok :: "uuid \<Rightarrow> bool"
  ra_insert_ok :: "uuid \<Rightarrow> bool"
  ra_first_sum :: "uuid \<Rightarrow> recompute_fault"
  ra_second_sum :: "uuid \<Rightarrow> recompute_fault"
  ra_returns2_ok :: "uuid \<Rightarrow> bool"
  ra_stamp_ok :: "uuid \<Rightarrow> bool"
  ra_pays_ok :: "uuid \<Rightarrow> bool"
  ra_update_ok :: "uuid \<Rightarrow> bool"
  ra_new_id :: "uuid \<Rightarrow> uuid"
  ra_now :: time
  ra_now_text :: string

section \<open>Finding the customer's orders\<close>

definition recon_candidates :: "uuid list \<Rightarrow> uuid \<Rightarrow> pay_db \<Rightarrow> pos_order list" where
  "recon_candidates ids tid db =
     filter (\<lambda>po. po_tenant po = tid \<and> po_status po \<notin> {st_voided, st_cancelled, st_refunded, st_draft})
       (List.map_filter (pd_orders db) ids)"

text \<open>The cache remembers the CRM contact of every phone resolved in this pass.\<close>

definition order_matches_customer ::
  "pay_env \<Rightarrow> string \<Rightarrow> string \<Rightarrow> pos_order \<Rightarrow> (string \<rightharpoonup> string) \<Rightarrow> bool \<times> (string \<rightharpoonup> string)" where
  "order_matches_customer env crm ident po cache =
     (let phone = trim_space (opt_str (po_customer_phone po))
      in if phone = []
         then ((case staff_credit_party env (po_metadata po) of
                  Some party \<Rightarrow> ident \<noteq> [] \<and> ident = pe_staff_key env (fst party)
                | None \<Rightarrow> False), cache)
         else if ident \<noteq> [] \<and> equal_fold ident phone then (True, cache)
         else if crm = [] then (False, cache)
         else (let c = (case cache phone of Some c \<Rightarrow> c | None \<Rightarrow> resolve_crm_contact_id env phone)
               in (c \<noteq> [] \<and> c = crm, cache(phone \<mapsto> c))))"

definition order_due :: "recon_env \<Rightarrow> pay_db \<Rightarrow> pos_order \<Rightarrow> f64" where
  "order_due env db po =
     sl_amount_due (compute_settlement (ra_now env) po
       (fst (completed_returns_total (ra_returns_ok env (po_id po)) (po_id po) db)))"

fun match_loop ::
  "recon_env \<Rightarrow> recon_params \<Rightarrow> pay_db \<Rightarrow> (string \<rightharpoonup> string) \<Rightarrow> pos_order list \<Rightarrow> f64
     \<Rightarrow> pos_order list \<times> open_order list \<times> f64" where
  "match_loop env p db cache [] acc = ([], [], acc)"
| "match_loop env p db cache (po # pos) acc =
     (if \<not> is_on_account (po_metadata po) then match_loop env p db cache pos acc
      else (let m = order_matches_customer (ra_pay env) (rp_crm p) (rp_identifier p) po cache
            in if \<not> fst m then match_loop env p db (snd m) pos acc
               else (let due = order_due env db po
                     in if due \<le> cent
                        then (let r = match_loop env p db (snd m) pos acc in (po # fst r, fst (snd r), snd (snd r)))
                        else (let r = match_loop env p db (snd m) pos (fl (acc + due))
                              in (po # fst r, (po, due) # fst (snd r), snd (snd r))))))"

section \<open>Settling\<close>

definition credit_settled_key :: string where
  "credit_settled_key = ''credit_settled_at''"

definition recon_payment :: "recon_env \<Rightarrow> pos_order \<Rightarrow> f64 \<Rightarrow> string \<Rightarrow> string \<Rightarrow> pos_payment" where
  "recon_payment env po amount method ref =
     \<lparr>pp_id = ra_new_id env (po_id po), pp_order = po_id po, pp_tender = uuid_nil, pp_amount = amount,
      pp_currency = (if po_currency po = [] then pe_default_currency (ra_pay env) else po_currency po),
      pp_status = ps_completed, pp_reference = nil_if_empty ref,
      pp_data = [(''method'', JStr method), (''ar_reconciled'', JBool True), (''treasury_reference'', JStr ref),
                 (''reconcile_source'', JStr ''treasury_balance_updated'')],
      pp_occurred = ra_now env\<rparr>"

text \<open>The first component is false when the operation returns an error.\<close>

definition apply_reconcile_settlement ::
  "recon_env \<Rightarrow> pos_order \<Rightarrow> f64 \<Rightarrow> string \<Rightarrow> string \<Rightarrow> pay_db \<Rightarrow> bool \<times> pay_db" where
  "apply_reconcile_settlement env po amount method ref db =
     (let oid = po_id po
      in if \<not> ra_insert_ok env oid then (False, db)
         else
           (let db = add_payment (recon_payment env po amount method ref) db;
                r1 = recompute_paid_total (ra_first_sum env oid) oid db
            in if \<not> snd (snd (fst r1)) then (False, snd r1)
               else
                 (let r2 = recompute_paid_total (ra_second_sum env oid) oid (snd r1);
                      cr = fst (completed_returns_total (ra_returns2_ok env oid) oid (snd r2))
                  in if fl (fl (po_total_amount po - fst (fst r2)) - cr) \<le> cent
                        \<and> meta_get (po_metadata po) credit_settled_key = None \<and> ra_stamp_ok env oid
                     then (True, update_order oid (\<lambda>row. row\<lparr>po_metadata :=
                             meta_set credit_settled_key (JStr (ra_now_text env)) (po_metadata po)\<rparr>) (snd r2))
                     else (True, snd r2))))"

definition recon_entry :: "(f64 \<Rightarrow> f64) \<Rightarrow> pos_order \<Rightarrow> f64 \<Rightarrow> f64 \<Rightarrow> reconciled_order" where
  "recon_entry rnd po due applied =
     \<lparr>ro_order = po_id po, ro_number = po_number po, ro_due_before = rnd due, ro_applied = rnd applied,
      ro_due_after = rnd (fl (due - applied))\<rparr>"

text \<open>The result is the amount settled, the orders touched and the state.\<close>

fun settle_loop ::
  "recon_env \<Rightarrow> bool \<Rightarrow> string \<Rightarrow> string \<Rightarrow> open_order list \<Rightarrow> f64 \<Rightarrow> f64 \<Rightarrow> pay_db
     \<Rightarrow> f64 \<times> reconciled_order list \<times> pay_db" where
  "settle_loop env dry method ref [] remaining settled db = (settled, [], db)"
| "settle_loop env dry method ref (oo # oos) remaining settled db =
     (if remaining \<le> cent then (settled, [], db)
      else
        (let due = snd oo;
             amount = (if due > remaining then remaining else due);
             r = (if dry then (True, db) else apply_reconcile_settlement env (fst oo) amount method ref db)
         in if \<not> fst r then settle_loop env dry method ref oos remaining settled (snd r)
            else (let rest = settle_loop env dry method ref oos (fl (remaining - amount)) (fl (settled + amount)) (snd r)
                  in (fst rest, recon_entry (ra_round env) (fst oo) due amount # fst (snd rest), snd (snd rest)))))"

section \<open>Undoing a settlement whose receipt was voided\<close>

definition undone_payment :: "(f64 \<Rightarrow> f64) \<Rightarrow> f64 \<Rightarrow> pos_payment \<Rightarrow> pos_payment" where
  "undone_payment rnd amt p =
     p\<lparr>pp_amount := rnd (fl (pp_amount p - amt)),
       pp_data := meta_set ''unreconciled_reason'' (JStr ''source ar_receipt voided in treasury'')
         (meta_set ''unreconciled_amount'' (JNum amt) (meta_set ''unreconciled'' (JBool True) (pp_data p)))\<rparr>"

definition undo_wanted :: "string \<Rightarrow> pos_payment \<Rightarrow> bool" where
  "undo_wanted ref p \<longleftrightarrow> as_bool (meta_get (pp_data p) ''ar_reconciled'')
     \<and> \<not> as_bool (meta_get (pp_data p) ''unreconciled'')
     \<and> as_str (meta_get (pp_data p) ''treasury_reference'') = ref"

definition undo_write :: "recon_env \<Rightarrow> pos_order \<Rightarrow> f64 \<Rightarrow> pos_payment \<Rightarrow> pay_db \<Rightarrow> pay_db" where
  "undo_write env po amt p db =
     (let oid = po_id po;
          r = recompute_paid_total (ra_first_sum env oid) oid (replace_payment (pp_id p) (\<lambda>_. undone_payment (ra_round env) amt p) db);
          cr = fst (completed_returns_total (ra_returns2_ok env oid) oid (snd r))
      in if meta_get (po_metadata po) credit_settled_key \<noteq> None
            \<and> fl (fl (po_total_amount po - fst (fst r)) - cr) > cent \<and> ra_stamp_ok env oid
         then update_order oid (\<lambda>row. row\<lparr>po_metadata := meta_del credit_settled_key (po_metadata po)\<rparr>) (snd r)
         else snd r)"

text \<open>The payments of one order; false when a write failed, which ends the whole pass.\<close>

fun undo_rows ::
  "recon_env \<Rightarrow> bool \<Rightarrow> string \<Rightarrow> pos_order \<Rightarrow> pos_payment list \<Rightarrow> f64 \<Rightarrow> pay_db
     \<Rightarrow> bool \<times> f64 \<times> reconciled_order list \<times> pay_db" where
  "undo_rows env dry ref po [] remaining db = (True, remaining, [], db)"
| "undo_rows env dry ref po (p # ps) remaining db =
     (if remaining \<le> cent then (True, remaining, [], db)
      else if \<not> undo_wanted ref p then undo_rows env dry ref po ps remaining db
      else
        (let amt = (if pp_amount p > remaining then remaining else pp_amount p);
             due_before = ra_round env (sl_amount_due (compute_settlement (ra_now env) po 0))
         in if \<not> dry \<and> \<not> ra_update_ok env (pp_id p) then (False, remaining, [], db)
            else
              (let db = (if dry then db else undo_write env po amt p db);
                   rest = undo_rows env dry ref po ps (ra_round env (fl (remaining - amt))) db
               in (fst rest, fst (snd rest),
                   \<lparr>ro_order = po_id po, ro_number = po_number po, ro_due_before = due_before, ro_applied = - amt,
                    ro_due_after = ra_round env (fl (due_before + amt))\<rparr> # fst (snd (snd rest)), snd (snd (snd rest))))))"

fun undo_orders ::
  "recon_env \<Rightarrow> bool \<Rightarrow> string \<Rightarrow> pos_order list \<Rightarrow> f64 \<Rightarrow> pay_db \<Rightarrow> bool \<times> f64 \<times> reconciled_order list \<times> pay_db" where
  "undo_orders env dry ref [] remaining db = (True, remaining, [], db)"
| "undo_orders env dry ref (po # pos) remaining db =
     (if remaining \<le> cent then (True, remaining, [], db)
      else if \<not> ra_pays_ok env (po_id po) then undo_orders env dry ref pos remaining db
      else
        (let r = undo_rows env dry ref po (completed_rows (po_id po) (pd_payments db)) remaining db
         in if \<not> fst r then r
            else (let rest = undo_orders env dry ref pos (fst (snd r)) (snd (snd (snd r)))
                  in (fst rest, fst (snd rest), fst (snd (snd r)) @ fst (snd (snd rest)), snd (snd (snd rest))))))"

definition void_prefix :: string where
  "void_prefix = ''VOID-''"

definition unreconcile_phantom_payments ::
  "recon_env \<Rightarrow> bool \<Rightarrow> string \<Rightarrow> pos_order list \<Rightarrow> f64 \<Rightarrow> recon_report \<Rightarrow> pay_db \<Rightarrow> recon_report \<times> pay_db" where
  "unreconcile_phantom_payments env dry ref matched increase report db =
     (if \<not> prefix void_prefix ref \<or> drop 5 ref = [] then (report, db)
      else
        (let r = undo_orders env dry (drop 5 ref) matched increase db;
             report = report\<lparr>rr_touched := rr_touched report @ fst (snd (snd r))\<rparr>;
             undone = fl (increase - fst (snd r))
         in if \<not> fst r then (report, snd (snd (snd r)))
            else (report\<lparr>rr_settled := ra_round env (fl (rr_settled report - undone)),
                         rr_open_after := ra_round env (fl (rr_open_after report + undone))\<rparr>, snd (snd (snd r)))))"

section \<open>A reconciliation pass\<close>

definition reconcile_method :: "string \<Rightarrow> string" where
  "reconcile_method m =
     (let c = canonical_tender_method m in if c = [] \<or> equal_fold c tender_on_account then ''ar_receipt'' else c)"

definition empty_report :: "recon_env \<Rightarrow> recon_params \<Rightarrow> recon_report" where
  "empty_report env p =
     \<lparr>rr_key = (if rp_crm p = [] then rp_identifier p else rp_crm p), rr_target = ra_round env (rp_target p),
      rr_open_before = 0, rr_open_after = 0, rr_settled = 0, rr_touched = [], rr_dry_run = rp_dry_run p\<rparr>"

definition reconcile_customer_orders ::
  "(open_order list \<Rightarrow> open_order list) \<Rightarrow> recon_env \<Rightarrow> recon_params \<Rightarrow> pay_db \<Rightarrow> (pay_error + recon_report) \<times> pay_db" where
  "reconcile_customer_orders srt env p db =
     (let report = empty_report env p
      in if rp_crm p = [] \<and> trim_space (rp_identifier p) = [] then (Inr report, db)
         else if \<not> ra_query_ok env then (Inl Pay_Db_Error, db)
         else
           (let m = match_loop env p db Map.empty (recon_candidates (ra_ids env) (rp_tenant p) db) 0;
                opens = fst (snd m); pos_open = snd (snd m);
                report = report\<lparr>rr_open_before := ra_round env pos_open, rr_open_after := ra_round env pos_open\<rparr>;
                reduce = fl (pos_open - rp_target p)
            in if reduce \<le> cent \<or> opens = []
               then (let increase = fl (rp_target p - pos_open)
                     in if increase > cent
                        then (let u = unreconcile_phantom_payments env (rp_dry_run p) (rp_reference p) (fst m) increase report db
                              in (Inr (fst u), snd u))
                        else (Inr report, db))
               else
                 (let s = settle_loop env (rp_dry_run p) (reconcile_method (rp_method p)) (rp_reference p) (srt opens) reduce 0 db
                  in (Inr (report\<lparr>rr_touched := fst (snd s), rr_settled := ra_round env (fst s),
                             rr_open_after := ra_round env (fl (pos_open - fst s))\<rparr>), snd (snd s)))))"

section \<open>The target\<close>

text \<open>
  \<open>parse\<close> is \<open>strconv.ParseFloat\<close> on the amounts treasury sends; \<open>terms\<close> is treasury's answer on the
  customer's outstanding debt, by key and fallback identifier.
\<close>

definition resolve_reconcile_target ::
  "(string \<Rightarrow> f64 option) \<Rightarrow> (string \<Rightarrow> string \<Rightarrow> string option) option \<Rightarrow> string \<Rightarrow> string \<Rightarrow> string \<Rightarrow> f64 option" where
  "resolve_reconcile_target parse terms crm ident event_debit =
     (let fallback = (case parse event_debit of Some v \<Rightarrow> v | None \<Rightarrow> 0)
      in case terms of
        None \<Rightarrow> Some fallback
      | Some get_terms \<Rightarrow>
          (case get_terms (if crm = [] then ident else crm) (if crm = [] then [] else ident) of
             None \<Rightarrow> None
           | Some debit \<Rightarrow> (case parse debit of Some live \<Rightarrow> Some live | None \<Rightarrow> Some fallback)))"

end
