(* ===== verification/Ar_Safety.thy ===== *)
theory Ar_Safety
  imports Ar_Reconcile
begin

text \<open>
  What a reconciliation pass guarantees: the cache changes no match, a dry run predicts the real run,
  orders are settled oldest first as an abstract allocation, a fault-free pass reaches treasury's
  figure and a repeated one changes nothing; and what a failed sum does to the pass.
\<close>

section \<open>The matching loop without its cache\<close>

definition customer_match :: "recon_env \<Rightarrow> recon_params \<Rightarrow> pos_order \<Rightarrow> bool" where
  "customer_match env p po \<longleftrightarrow> is_on_account (po_metadata po) \<and>
     fst (order_matches_customer (ra_pay env) (rp_crm p) (rp_identifier p) po Map.empty)"

definition good_cache :: "pay_env \<Rightarrow> (string \<rightharpoonup> string) \<Rightarrow> bool" where
  "good_cache env cache \<longleftrightarrow> (\<forall>phone c. cache phone = Some c \<longrightarrow> c = resolve_crm_contact_id env phone)"

lemma match_cached:
  assumes "good_cache env cache"
  shows "fst (order_matches_customer env crm ident po cache) = fst (order_matches_customer env crm ident po Map.empty)"
    "good_cache env (snd (order_matches_customer env crm ident po cache))"
  using assms by (auto simp: order_matches_customer_def good_cache_def Let_def split: option.splits)

definition opens_of :: "recon_env \<Rightarrow> recon_params \<Rightarrow> pay_db \<Rightarrow> pos_order list \<Rightarrow> open_order list" where
  "opens_of env p db pos = map (\<lambda>po. (po, order_due env db po))
     (filter (\<lambda>po. customer_match env p po \<and> cent < order_due env db po) pos)"

lemma match_loop_pure:
  assumes "good_cache (ra_pay env) cache"
  shows "match_loop env p db cache pos acc =
    (filter (customer_match env p) pos, opens_of env p db pos, sum_fl acc (map snd (opens_of env p db pos)))"
  using assms
proof (induction pos arbitrary: cache acc)
  case (Cons po pos)
  note m = match_cached [OF Cons.prems, of "rp_crm p" "rp_identifier p" po]
  show ?case
    using Cons.IH [OF Cons.prems] Cons.IH [OF m(2)] m(1)
    by (auto simp: customer_match_def opens_of_def Let_def not_le)
qed (simp add: opens_of_def)

lemma match_empty:
  "match_loop env p db Map.empty pos acc =
    (filter (customer_match env p) pos, opens_of env p db pos, sum_fl acc (map snd (opens_of env p db pos)))"
  by (rule match_loop_pure) (simp add: good_cache_def)

section \<open>A dry run predicts the run\<close>

lemma settle_dry_db: "snd (snd (settle_loop env True method ref oos r s db)) = db"
  by (induction oos arbitrary: r s) (auto simp: Let_def)

lemma undo_rows_dry_db: "snd (snd (snd (undo_rows env True ref po ps r db))) = db"
  by (induction ps arbitrary: r) (auto simp: Let_def)

lemma undo_orders_dry_db: "snd (snd (snd (undo_orders env True ref pos r db))) = db"
  by (induction pos arbitrary: r) (auto simp: Let_def undo_rows_dry_db)

lemma settle_ignores_db:
  assumes "\<And>po a db. fst (apply_reconcile_settlement env po a method ref db)"
  shows "fst (settle_loop env dry method ref oos r s db) = fst (settle_loop env True method ref oos r s db2) \<and>
    fst (snd (settle_loop env dry method ref oos r s db)) = fst (snd (settle_loop env True method ref oos r s db2))"
proof (induction oos arbitrary: r s db db2)
  case (Cons oo oos)
  show ?case using assms Cons.IH by (cases dry) (simp_all add: Let_def)
qed simp

definition faultless :: "recon_env \<Rightarrow> bool" where
  "faultless env \<longleftrightarrow> ra_query_ok env \<and> (\<forall>i. ra_returns_ok env i \<and> ra_insert_ok env i \<and> ra_returns2_ok env i \<and> ra_stamp_ok env i \<and>
     ra_first_sum env i = no_recompute_fault \<and> ra_second_sum env i = no_recompute_fault)"

lemma faultless_apply: "faultless env \<Longrightarrow> fst (apply_reconcile_settlement env po a method ref db)"
  by (simp add: apply_reconcile_settlement_def faultless_def recompute_simps Let_def)

definition open_total :: "recon_env \<Rightarrow> recon_params \<Rightarrow> pay_db \<Rightarrow> f64" where
  "open_total env p db = snd (snd (match_loop env p db Map.empty (recon_candidates (ra_ids env) (rp_tenant p) db) 0))"

text \<open>
  A dry run writes nothing and, when treasury's figure is not above what is open, reports exactly
  the orders and amounts that the same pass settles for real when no statement fails.
\<close>

theorem dry_run_predicts:
  assumes "faultless env" "rp_target p \<le> open_total env p db"
  shows "snd (reconcile_customer_orders srt env (p\<lparr>rp_dry_run := True\<rparr>) db) = db \<and>
    map_sum id (\<lambda>r. r\<lparr>rr_dry_run := False\<rparr>) (fst (reconcile_customer_orders srt env (p\<lparr>rp_dry_run := True\<rparr>) db)) =
    map_sum id (\<lambda>r. r\<lparr>rr_dry_run := False\<rparr>) (fst (reconcile_customer_orders srt env (p\<lparr>rp_dry_run := False\<rparr>) db))"
proof -
  let ?c = "recon_candidates (ra_ids env) (rp_tenant p) db"
  have m: "match_loop env (p\<lparr>rp_dry_run := b\<rparr>) db Map.empty ?c 0 = match_loop env p db Map.empty ?c 0" for b
    by (simp add: match_empty opens_of_def customer_match_def cong: filter_cong)
  have "fl (rp_target p - open_total env p db) \<le> fl 0" using assms(2) by (intro fl_mono) simp
  then have "\<not> cent < fl (rp_target p - open_total env p db)" using cent_pos by simp
  then show ?thesis
    using settle_ignores_db [OF faultless_apply [OF assms(1)], of False "reconcile_method (rp_method p)" "rp_reference p" _ _ _ db db]
    by (auto simp: reconcile_customer_orders_def Let_def m settle_dry_db open_total_def empty_report_def)
qed

section \<open>Oldest debts first\<close>

text \<open>The allocation of an amount to debts in order.\<close>

fun fifo :: "f64 \<Rightarrow> f64 list \<Rightarrow> f64 list" where
  "fifo r [] = []"
| "fifo r (d # ds) = min d r # fifo (r - min d r) ds"

lemma fifo_length [simp]: "length (fifo r ds) = length ds"
  by (induction ds arbitrary: r) auto

lemma fifo_zero: "\<forall>d \<in> set ds. 0 \<le> d \<Longrightarrow> fifo 0 ds = replicate (length ds) 0"
  by (induction ds) (auto simp: min_def)

lemma fifo_sum: "0 \<le> r \<Longrightarrow> \<forall>d \<in> set ds. 0 \<le> d \<Longrightarrow> sum_list (fifo r ds) = min r (sum_list ds)"
proof (induction ds arbitrary: r)
  case (Cons d ds)
  have "0 \<le> sum_list ds" using Cons.prems by (intro sum_list_nonneg) auto
  then show ?case using Cons by (auto simp: min_def)
qed simp

lemma fifo_bounds: "0 \<le> r \<Longrightarrow> \<forall>d \<in> set ds. 0 \<le> d \<Longrightarrow> list_all2 (\<lambda>a d. 0 \<le> a \<and> a \<le> d) (fifo r ds) ds"
  by (induction ds arbitrary: r) (auto simp: min_def)

text \<open>The rows an order's settlement may leave: another paid total, and possibly the settlement stamp.\<close>

definition same_view :: "pos_order \<Rightarrow> pos_order \<Rightarrow> bool" where
  "same_view po r \<longleftrightarrow> r = po\<lparr>po_paid_total := po_paid_total r, po_metadata := po_metadata r\<rparr> \<and>
     (po_metadata r = po_metadata po \<or> (\<exists>s. po_metadata r = meta_set credit_settled_key s (po_metadata po)))"

lemma same_view_refl [simp]: "same_view po po"
  by (simp add: same_view_def)

lemma same_view_paid: "same_view po (po\<lparr>po_paid_total := x\<rparr>)"
  "same_view po (po\<lparr>po_paid_total := x, po_metadata := meta_set credit_settled_key s (po_metadata po)\<rparr>)"
  by (cases po; auto simp: same_view_def)+

lemma same_view_simps:
  assumes "same_view po r"
  shows "po_id r = po_id po" "po_tenant r = po_tenant po" "po_status r = po_status po" "po_total_amount r = po_total_amount po"
    "customer_match env p r = customer_match env p po"
proof -
  have r: "r = po\<lparr>po_paid_total := po_paid_total r, po_metadata := po_metadata r\<rparr>"
    and m: "po_metadata r = po_metadata po \<or> (\<exists>s. po_metadata r = meta_set credit_settled_key s (po_metadata po))"
    using assms by (simp_all add: same_view_def)
  show "po_id r = po_id po" "po_tenant r = po_tenant po" "po_status r = po_status po" "po_total_amount r = po_total_amount po"
    by (subst r, simp)+
  have phone: "po_customer_phone r = po_customer_phone po" by (subst r) simp
  have get: "k \<noteq> credit_settled_key \<Longrightarrow> meta_get (po_metadata r) k = meta_get (po_metadata po) k" for k
    using m by auto
  have "staff_credit_party e (po_metadata r) = staff_credit_party e (po_metadata po)" for e
    by (simp add: staff_credit_party_def get credit_settled_key_def Let_def)
  moreover have "is_on_account (po_metadata r) = is_on_account (po_metadata po)"
    by (simp add: is_on_account_def get credit_settled_key_def)
  ultimately show "customer_match env p r = customer_match env p po"
    by (simp add: customer_match_def order_matches_customer_def phone Let_def)
qed

text \<open>Whole figures, and a paid total that agrees with the payments.\<close>

definition ledger_ok :: "pay_db \<Rightarrow> pos_order \<Rightarrow> bool" where
  "ledger_ok db po \<longleftrightarrow> whole (po_total_amount po) \<and>
     whole (fst (completed_returns_total True (po_id po) db)) \<and> 0 \<le> fst (completed_returns_total True (po_id po) db) \<and>
     whole_rows (po_id po) (pd_payments db) \<and> exact_sum (cash_rows (po_id po) (pd_payments db)) \<le> 2 ^ 50 \<and>
     po_paid_total po = exact_sum (cash_rows (po_id po) (pd_payments db))"

definition exact_due :: "pay_db \<Rightarrow> pos_order \<Rightarrow> f64" where
  "exact_due db po = max 0 (po_total_amount po - po_paid_total po - fst (completed_returns_total True (po_id po) db))"

lemma ledger_paid: "ledger_ok db po \<Longrightarrow> whole (po_paid_total po) \<and> 0 \<le> po_paid_total po"
  using sum_exact(2,3) [OF cash_rows_whole] by (simp add: ledger_ok_def)

definition figures_ok :: "pay_db \<Rightarrow> pos_order \<Rightarrow> bool" where
  "figures_ok db po \<longleftrightarrow> whole (po_total_amount po) \<and> whole (po_paid_total po) \<and>
     whole (fst (completed_returns_total True (po_id po) db))"

lemma ledger_figures: "ledger_ok db po \<Longrightarrow> figures_ok db po"
  using ledger_paid by (simp add: ledger_ok_def figures_ok_def)

lemma order_due_exact:
  assumes "faultless env" "figures_ok db po" "po_status po \<notin> {st_voided, st_cancelled, st_refunded, st_draft}"
  shows "order_due env db po = exact_due db po"
proof -
  have "\<not> non_committed_status (po_status po)"
    using assms(3) by (auto simp: non_committed_status_def st_voided_def st_cancelled_def st_draft_def)
  moreover have "fl (fl (po_total_amount po - po_paid_total po) - fst (completed_returns_total True (po_id po) db)) =
      po_total_amount po - po_paid_total po - fst (completed_returns_total True (po_id po) db)"
    using assms(2) by (intro whole_diff2) (auto simp: figures_ok_def)
  ultimately show ?thesis using assms(1) by (simp add: order_due_def compute_settlement_due exact_due_def faultless_def)
qed

lemma reconcile_method_not_credit: "\<not> equal_fold (reconcile_method m) tender_on_account"
  by (auto simp: reconcile_method_def Let_def equal_fold_def tender_on_account_def to_lower_def to_lower_char_def)

lemma recon_payment_simps [simp]:
  "pp_order (recon_payment env po a method ref) = po_id po" "pp_status (recon_payment env po a method ref) = ps_completed"
  "pp_amount (recon_payment env po a method ref) = a" "payment_method (recon_payment env po a method ref) = method"
  by (simp_all add: recon_payment_def payment_method_def)

lemma returns_update [simp]:
  "completed_returns_total ok oid (update_order i f db) = completed_returns_total ok oid db"
  "completed_returns_total ok oid (add_payment q db) = completed_returns_total ok oid db"
  by (simp_all add: completed_returns_total_def update_order_def add_payment_def)

text \<open>One settled order.\<close>

lemma apply_spec:
  fixes ref :: string
  assumes "faultless env" "ledger_ok db po" "pd_orders db (po_id po) = Some po"
    and a: "whole a" "0 < a" "a \<le> exact_due db po" and m: "\<not> equal_fold method tender_on_account"
  defines "db' \<equiv> snd (apply_reconcile_settlement env po a method ref db)"
  shows "pd_payments db' = pd_payments db @ [recon_payment env po a method ref]"
    "pd_returns db' = pd_returns db"
    "i \<noteq> po_id po \<Longrightarrow> pd_orders db' i = pd_orders db i"
    "\<exists>r. pd_orders db' (po_id po) = Some r \<and> same_view po r \<and> po_paid_total r = po_paid_total po + a"
proof -
  let ?p = "recon_payment env po a method ref"
  let ?db1 = "add_payment ?p db"
  have col: "collected_of (po_id po) (pd_payments ?db1) = po_paid_total po + a"
  proof -
    have "a \<le> po_total_amount po - po_paid_total po" using assms(2) a by (auto simp: exact_due_def ledger_ok_def max_def split: if_splits)
    then have le: "po_paid_total po + a \<le> 2 ^ 50" using whole_bound [of "po_total_amount po"] assms(2) by (simp add: ledger_ok_def)
    have rows: "cash_rows (po_id po) (pd_payments ?db1) = cash_rows (po_id po) (pd_payments db) @ [?p]"
      using m by (intro cash_rows_add) (simp_all add: is_credit_row_def)
    obtain n where "a = of_int n" "0 \<le> n" using a(1,2) by (auto simp: whole_def)
    then have "whole_rows (po_id po) (pd_payments ?db1)"
      using assms(2) by (auto simp: ledger_ok_def whole_rows_def completed_rows_def add_payment_def)
    moreover have "exact_sum (cash_rows (po_id po) (pd_payments ?db1)) = po_paid_total po + a"
      using assms(2) by (simp add: rows exact_sum_append ledger_ok_def) (simp add: exact_sum_def)
    ultimately show ?thesis using collected_exact le by simp
  qed
  note defs = db'_def apply_reconcile_settlement_def
  have ok: "ra_insert_ok env i" "ra_first_sum env i = no_recompute_fault" "ra_second_sum env i = no_recompute_fault" for i
    using assms(1) by (simp_all add: faultless_def)
  show "pd_payments db' = pd_payments db @ [?p]" "pd_returns db' = pd_returns db"
    by (simp_all add: defs ok recompute_simps Let_def add_payment_def)
  show "i \<noteq> po_id po \<Longrightarrow> pd_orders db' i = pd_orders db i"
    by (simp add: defs ok recompute_simps Let_def add_payment_def)
  have row: "pd_orders ?db1 (po_id po) = Some po" using assms(3) by (simp add: add_payment_def)
  show "\<exists>r. pd_orders db' (po_id po) = Some r \<and> same_view po r \<and> po_paid_total r = po_paid_total po + a"
    unfolding defs using col row same_view_paid by (auto simp: ok recompute_simps Let_def)
qed

section \<open>A pass reaches treasury's figure\<close>

lemma ledger_frame:
  assumes "ledger_ok db po" "pd_payments db' = pd_payments db @ [q]" "pp_order q \<noteq> po_id po" "pd_returns db' = pd_returns db"
  shows "ledger_ok db' po" "exact_due db' po = exact_due db po"
proof -
  have "completed_rows (po_id po) (pd_payments db') = completed_rows (po_id po) (pd_payments db)"
    using assms(2,3) by (simp add: completed_rows_def)
  then show "ledger_ok db' po" "exact_due db' po = exact_due db po"
    using assms(1,4) by (simp_all add: ledger_ok_def exact_due_def completed_returns_total_def whole_rows_def cash_rows_def)
qed

lemma exact_due_whole: "ledger_ok db po \<Longrightarrow> whole (exact_due db po) \<and> 0 \<le> exact_due db po"
proof -
  assume l: "ledger_ok db po"
  let ?r = "fst (completed_returns_total True (po_id po) db)"
  obtain a b c where i: "po_total_amount po = of_int a" "po_paid_total po = of_int b" "?r = of_int c"
    using l ledger_paid [OF l] by (auto simp: ledger_ok_def whole_def)
  have "exact_due db po = of_int (max 0 (a - b - c))" unfolding exact_due_def i by (simp add: max_def)
  moreover have "exact_due db po \<le> 2 ^ 50"
    using l ledger_paid [OF l] whole_bound [of "po_total_amount po"] by (auto simp: exact_due_def ledger_ok_def)
  ultimately show ?thesis using whole_ofI [of "exact_due db po" "max 0 (a - b - c)"] by (simp add: exact_due_def)
qed

lemma whole_min_diff:
  assumes "whole x" "whole y" "0 \<le> x" "0 \<le> y"
  shows "whole (min x y)" "whole (x - min y x)" "fl (x - min y x) = x - min y x"
proof -
  show "whole (min x y)" using assms by (simp add: min_def)
  have "whole (min y x)" using assms by (simp add: min_def)
  then show "fl (x - min y x) = x - min y x" using whole_diff [OF assms(1)] by simp
  obtain n where n: "x - min y x = of_int n" using whole_minus [OF assms(1) \<open>whole (min y x)\<close>] by blast
  show "whole (x - min y x)"
    by (rule whole_ofI [OF n]) (use assms whole_bound [OF assms(1)] in \<open>simp_all add: min_def\<close>)
qed

text \<open>A positive whole number is at least one, hence above a cent.\<close>

lemma whole_le_cent: "whole x \<Longrightarrow> 0 \<le> x \<Longrightarrow> x \<le> cent \<longleftrightarrow> x = 0"
proof -
  assume w: "whole x" "0 \<le> x"
  then obtain n where n: "x = of_int n" by (auto simp: whole_def)
  show ?thesis
  proof
    assume "x \<le> cent"
    then have "(of_int n :: f64) < 1" using cent_lt_1 n by linarith
    then show "x = 0" using w(2) n by simp
  qed (use cent_pos in simp)
qed

definition settled_rows :: "pay_db \<Rightarrow> open_order list \<Rightarrow> f64 list \<Rightarrow> bool" where
  "settled_rows db' oos as \<longleftrightarrow> list_all2 (\<lambda>oo a. \<exists>r. pd_orders db' (po_id (fst oo)) = Some r \<and> same_view (fst oo) r \<and>
     po_paid_total r = po_paid_total (fst oo) + a) oos as"

lemma settle_loop_spec:
  fixes ref :: string and settled :: f64
  assumes f: "faultless env" and m: "\<not> equal_fold method tender_on_account"
    and rem: "whole remaining" "0 \<le> remaining"
    and oos: "\<forall>oo \<in> set oos. pd_orders db (po_id (fst oo)) = Some (fst oo) \<and> ledger_ok db (fst oo) \<and>
      snd oo = exact_due db (fst oo) \<and> 0 < snd oo" "distinct (map (\<lambda>oo. po_id (fst oo)) oos)"
  defines "res \<equiv> settle_loop env False method ref oos remaining settled db"
  shows "settled_rows (snd (snd res)) oos (fifo remaining (map snd oos)) \<and>
    (\<forall>i. i \<notin> (\<lambda>oo. po_id (fst oo)) ` set oos \<longrightarrow> pd_orders (snd (snd res)) i = pd_orders db i) \<and>
    pd_returns (snd (snd res)) = pd_returns db"
  using rem oos unfolding res_def
proof (induction oos arbitrary: remaining settled db)
  case (Cons oo oos)
  obtain po due where oo: "oo = (po, due)" by (cases oo)
  have po: "pd_orders db (po_id po) = Some po" "ledger_ok db po" "due = exact_due db po" "0 < due"
    using Cons.prems(3) oo by auto
  have wd: "whole due" using exact_due_whole [OF po(2)] po(3) by simp
  show ?case
  proof (cases "remaining \<le> cent")
    case True
    then have z: "remaining = 0" using whole_le_cent Cons.prems(1,2) by blast
    have "\<forall>d \<in> set (map snd (oo # oos)). 0 \<le> d" using Cons.prems(3) by force
    then have "fifo remaining (map snd (oo # oos)) = replicate (length (oo # oos)) 0" unfolding z by (subst fifo_zero) simp_all
    then have "settled_rows db (oo # oos) (fifo remaining (map snd (oo # oos)))"
      using Cons.prems(3) by (auto simp: settled_rows_def list_all2_conv_all_nth nth_Cons split: nat.split)
    then show ?thesis using True by simp
  next
    case False
    define a where "a = min due remaining"
    define db1 where "db1 = snd (apply_reconcile_settlement env po a method ref db)"
    have a: "whole a" "0 < a" "a \<le> due"
      using whole_min_diff(1) [OF wd Cons.prems(1)] po(4) Cons.prems(2) False cent_pos by (auto simp: a_def min_def)
    note ap = apply_spec [OF f po(2,1) a(1,2) _ m, where ref = ref, folded db1_def, unfolded po(3) [symmetric], OF a(3)]
    have step: "settle_loop env False method ref (oo # oos) remaining settled db =
       (let rest = settle_loop env False method ref oos (fl (remaining - a)) (fl (settled + a)) db1
        in (fst rest, recon_entry (ra_round env) po due a # fst (snd rest), snd (snd rest)))"
      using False faultless_apply [OF f] by (simp add: oo Let_def a_def min_def db1_def not_le)
    have rem': "fl (remaining - a) = remaining - min due remaining" "whole (remaining - min due remaining)" "0 \<le> remaining - min due remaining"
      using whole_min_diff(2,3) [OF Cons.prems(1) wd] Cons.prems(2) po(4) by (auto simp: a_def)
    have fresh: "po_id po \<notin> (\<lambda>oo. po_id (fst oo)) ` set oos" using Cons.prems(4) by (simp add: oo)
    have oos': "\<forall>oo \<in> set oos. pd_orders db1 (po_id (fst oo)) = Some (fst oo) \<and> ledger_ok db1 (fst oo) \<and>
      snd oo = exact_due db1 (fst oo) \<and> 0 < snd oo"
    proof
      fix x assume x: "x \<in> set oos"
      then have "po_id (fst x) \<in> (\<lambda>oo. po_id (fst oo)) ` set oos" by (rule imageI)
      then have ne: "po_id (fst x) \<noteq> po_id po" using fresh by metis
      have "pd_orders db (po_id (fst x)) = Some (fst x) \<and> ledger_ok db (fst x) \<and> snd x = exact_due db (fst x) \<and> 0 < snd x"
        using Cons.prems(3) x by (meson list.set_intros(2))
      then show "pd_orders db1 (po_id (fst x)) = Some (fst x) \<and> ledger_ok db1 (fst x) \<and> snd x = exact_due db1 (fst x) \<and> 0 < snd x"
        using ap(3) [OF ne] ledger_frame [of db "fst x" db1, OF _ ap(1) _ ap(2)] ne by simp
    qed
    define rest where "rest = settle_loop env False method ref oos (remaining - min due remaining) (fl (settled + a)) db1"
    have ih: "settled_rows (snd (snd rest)) oos (fifo (remaining - min due remaining) (map snd oos)) \<and>
      (\<forall>i. i \<notin> (\<lambda>oo. po_id (fst oo)) ` set oos \<longrightarrow> pd_orders (snd (snd rest)) i = pd_orders db1 i) \<and>
      pd_returns (snd (snd rest)) = pd_returns db1"
      unfolding rest_def by (rule Cons.IH [OF rem'(2,3) oos']) (use Cons.prems(4) in simp)
    have res: "snd (snd (settle_loop env False method ref (oo # oos) remaining settled db)) = snd (snd rest)"
      unfolding step by (simp add: Let_def rest_def rem'(1))
    have "\<exists>r. pd_orders (snd (snd rest)) (po_id po) = Some r \<and> same_view po r \<and> po_paid_total r = po_paid_total po + a"
      using ih ap(4) fresh by simp
    then show ?thesis
      unfolding res using ih ap(2,3) by (auto simp: settled_rows_def oo a_def)
  qed
qed (simp add: settled_rows_def)

lemma candidates_row:
  assumes "db_keyed db" "po \<in> set (recon_candidates ids tid db)"
  shows "pd_orders db (po_id po) = Some po" "po_id po \<in> set ids" "po_status po \<notin> {st_voided, st_cancelled, st_refunded, st_draft}"
  using assms by (auto simp: recon_candidates_def List.map_filter_def db_keyed_def)

lemma candidates_distinct:
  assumes "db_keyed db" "distinct ids"
  shows "distinct (map po_id (recon_candidates ids tid db))"
proof -
  have "map po_id (List.map_filter (pd_orders db) ids) = filter (\<lambda>i. pd_orders db i \<noteq> None) ids"
    using assms(1) by (induction ids) (auto simp: List.map_filter_def db_keyed_def)
  then have "distinct (map po_id (List.map_filter (pd_orders db) ids))" using assms(2) by simp
  then show ?thesis by (simp add: recon_candidates_def distinct_map_filter)
qed

lemma candidates_view:
  assumes "\<And>i. rel_option same_view (pd_orders db i) (pd_orders db' i)"
  shows "list_all2 same_view (filter (customer_match env p) (recon_candidates ids tid db))
    (filter (customer_match env p) (recon_candidates ids tid db'))"
proof (induction ids)
  case (Cons i ids)
  show ?case
  proof (cases "pd_orders db i")
    case None
    then have "pd_orders db' i = None" using assms [of i] by simp
    then show ?thesis using Cons None by (simp add: recon_candidates_def List.map_filter_simps)
  next
    case (Some po)
    then obtain r where r: "pd_orders db' i = Some r" "same_view po r" using assms [of i] by (auto simp: option_rel_Some1)
    note v = same_view_simps [OF r(2)]
    show ?thesis using Cons r(2) by (simp add: recon_candidates_def List.map_filter_simps Some r(1) v)
  qed
qed (simp add: recon_candidates_def List.map_filter_simps)

lemma whole_list_sum:
  assumes "\<forall>x \<in> set xs. whole x \<and> 0 \<le> x" "sum_list xs \<le> 2 ^ 50"
  shows "sum_fl 0 xs = sum_list xs" "whole (sum_list xs)" "0 \<le> sum_list xs"
proof -
  have "\<exists>ns. xs = map of_int ns \<and> (\<forall>n \<in> set ns. 0 \<le> n)" using assms(1)
  proof (induction xs)
    case (Cons x xs)
    then obtain ns n where "xs = map of_int ns" "\<forall>n \<in> set ns. 0 \<le> n" "x = of_int n" by (auto simp: whole_def)
    then show ?case using Cons.prems by (intro exI [of _ "n # ns"]) simp
  qed simp
  then obtain ns where ns: "xs = map of_int ns" "\<forall>n \<in> set ns. 0 \<le> n" by blast
  have "sum_list (map of_int ms) = (of_int (sum_list ms) :: f64)" for ms by (induction ms) simp_all
  then have s: "sum_list xs = of_int (sum_list ns)" by (simp add: ns(1))
  show "0 \<le> sum_list xs" using assms(1) by (intro sum_list_nonneg) auto
  have "(of_int (sum_list ns) :: f64) \<le> of_int (2 ^ 50)" using assms(2) s by simp
  then have "sum_list ns \<le> 2 ^ 50" by (simp only: of_int_le_iff)
  then show "sum_fl 0 xs = sum_list xs" using sum_fl_int [OF ns(2), of 0] by (simp add: ns(1) s [unfolded ns(1)])
  show "whole (sum_list xs)" by (rule whole_ofI [OF s]) (use assms(2) \<open>0 \<le> sum_list xs\<close> in simp_all)
qed

lemma sum_list_filter_zero: "(\<And>x. x \<in> set xs \<Longrightarrow> \<not> P x \<Longrightarrow> f x = (0 :: f64)) \<Longrightarrow> sum_list (map f (filter P xs)) = sum_list (map f xs)"
  by (induction xs) auto

lemma list_all2_sum: "list_all2 R xs ys \<Longrightarrow> (\<And>x y. x \<in> set xs \<Longrightarrow> R x y \<Longrightarrow> f y = (g x :: f64)) \<Longrightarrow> sum_list (map f ys) = sum_list (map g xs)"
  by (induction xs ys rule: list_all2_induct) auto

definition customer_orders :: "recon_env \<Rightarrow> recon_params \<Rightarrow> pay_db \<Rightarrow> pos_order list" where
  "customer_orders env p db = filter (customer_match env p) (recon_candidates (ra_ids env) (rp_tenant p) db)"

lemma open_total_exact:
  assumes "faultless env" "db_keyed db" "\<forall>po \<in> set (customer_orders env p db). figures_ok db po \<and> whole (exact_due db po)"
    "sum_list (map (exact_due db) (customer_orders env p db)) \<le> 2 ^ 50"
  shows "opens_of env p db (recon_candidates (ra_ids env) (rp_tenant p) db) =
      map (\<lambda>po. (po, exact_due db po)) (filter (\<lambda>po. exact_due db po \<noteq> 0) (customer_orders env p db))"
    "open_total env p db = sum_list (map (exact_due db) (customer_orders env p db))"
proof -
  let ?C = "customer_orders env p db" and ?c = "recon_candidates (ra_ids env) (rp_tenant p) db"
  have nn: "0 \<le> exact_due db po" for po by (simp add: exact_due_def)
  have due: "order_due env db po = exact_due db po" "cent < order_due env db po \<longleftrightarrow> exact_due db po \<noteq> 0" if "po \<in> set ?C" for po
  proof -
    have "po \<in> set ?c" using that by (simp add: customer_orders_def)
    then show d: "order_due env db po = exact_due db po"
      using order_due_exact [OF assms(1)] assms(3) that candidates_row(3) [OF assms(2)] by blast
    show "cent < order_due env db po \<longleftrightarrow> exact_due db po \<noteq> 0"
      using whole_le_cent [of "exact_due db po"] assms(3) that nn by (simp add: d not_le [symmetric])
  qed
  have "opens_of env p db ?c = map (\<lambda>po. (po, order_due env db po)) (filter (\<lambda>po. cent < order_due env db po) ?C)"
    by (simp add: opens_of_def customer_orders_def conj_commute)
  also have "\<dots> = map (\<lambda>po. (po, exact_due db po)) (filter (\<lambda>po. cent < order_due env db po) ?C)"
    by (rule map_cong [OF refl]) (simp add: due(1))
  also have "\<dots> = map (\<lambda>po. (po, exact_due db po)) (filter (\<lambda>po. exact_due db po \<noteq> 0) ?C)"
    by (simp only: filter_cong [OF refl due(2)])
  finally show o: "opens_of env p db ?c = \<dots>" .
  let ?ds = "map (exact_due db) (filter (\<lambda>po. exact_due db po \<noteq> 0) ?C)"
  have sum: "sum_list ?ds = sum_list (map (exact_due db) ?C)" by (rule sum_list_filter_zero) simp
  have "sum_fl 0 ?ds = sum_list ?ds" by (rule whole_list_sum(1)) (use assms(3,4) nn in \<open>auto simp: sum\<close>)
  then show "open_total env p db = sum_list (map (exact_due db) ?C)"
    by (simp add: open_total_def match_empty o sum comp_def)
qed

definition recon_ready :: "recon_env \<Rightarrow> recon_params \<Rightarrow> pay_db \<Rightarrow> bool" where
  "recon_ready env p db \<longleftrightarrow> faultless env \<and> distinct (ra_ids env) \<and> db_keyed db \<and>
     (\<forall>po \<in> set (customer_orders env p db). ledger_ok db po) \<and>
     sum_list (map (exact_due db) (customer_orders env p db)) \<le> 2 ^ 50 \<and> whole (rp_target p) \<and> 0 \<le> rp_target p \<and>
     \<not> rp_dry_run p \<and> \<not> (rp_crm p = [] \<and> trim_space (rp_identifier p) = [])"

abbreviation open_orders :: "recon_env \<Rightarrow> recon_params \<Rightarrow> pay_db \<Rightarrow> open_order list" where
  "open_orders env p db \<equiv> opens_of env p db (recon_candidates (ra_ids env) (rp_tenant p) db)"

lemma ready_total:
  assumes "recon_ready env p db"
  shows "open_orders env p db = map (\<lambda>po. (po, exact_due db po)) (filter (\<lambda>po. exact_due db po \<noteq> 0) (customer_orders env p db))"
    "open_total env p db = sum_list (map (exact_due db) (customer_orders env p db))" "whole (open_total env p db)"
proof -
  have f: "faultless env" "db_keyed db" "\<forall>po \<in> set (customer_orders env p db). figures_ok db po \<and> whole (exact_due db po)"
    and b: "sum_list (map (exact_due db) (customer_orders env p db)) \<le> 2 ^ 50"
    using assms ledger_figures exact_due_whole by (auto simp: recon_ready_def)
  note o = open_total_exact [OF f b]
  show "open_orders env p db = map (\<lambda>po. (po, exact_due db po)) (filter (\<lambda>po. exact_due db po \<noteq> 0) (customer_orders env p db))"
    by (rule o(1))
  show "open_total env p db = sum_list (map (exact_due db) (customer_orders env p db))" by (rule o(2))
  then show "whole (open_total env p db)"
    using whole_list_sum(2) [of "map (exact_due db) (customer_orders env p db)"] f(3) b by (auto simp: exact_due_def)
qed

text \<open>The state after a pass that settles.\<close>

lemma reconcile_settles:
  fixes srt :: "open_order list \<Rightarrow> open_order list"
  assumes "created_sort srt" and ready: "recon_ready env p db" and lt: "rp_target p < open_total env p db"
  defines "db' \<equiv> snd (reconcile_customer_orders srt env p db)"
  defines "due \<equiv> open_total env p db - rp_target p"
  shows "settled_rows db' (srt (open_orders env p db)) (fifo due (map snd (srt (open_orders env p db))))"
    "i \<notin> (\<lambda>oo. po_id (fst oo)) ` set (open_orders env p db) \<Longrightarrow> pd_orders db' i = pd_orders db i"
    "pd_returns db' = pd_returns db"
proof -
  let ?O = "open_orders env p db"
  have f: "faultless env" and keyed: "db_keyed db" using ready by (simp_all add: recon_ready_def)
  note o = ready_total [OF ready]
  have red: "fl (open_total env p db - rp_target p) = due" "whole due" "0 < due"
  proof -
    have w: "whole (rp_target p)" "0 \<le> rp_target p" using ready by (simp_all add: recon_ready_def)
    show "fl (open_total env p db - rp_target p) = due" unfolding due_def by (rule whole_diff [OF o(3) w(1)])
    show "0 < due" using lt by (simp add: due_def)
    obtain n where "due = of_int n" using whole_minus [OF o(3) w(1)] by (auto simp: due_def)
    then show "whole due" by (rule whole_ofI) (use lt w(2) whole_bound [OF o(3)] in \<open>simp_all add: due_def\<close>)
  qed
  then have "\<not> due \<le> cent" using whole_le_cent [of due] by auto
  moreover have "?O \<noteq> []"
  proof
    assume "?O = []"
    then have "open_total env p db = 0" by (simp add: open_total_def match_empty)
    then show False using lt ready by (simp add: recon_ready_def)
  qed
  ultimately have db': "db' = snd (snd (settle_loop env False (reconcile_method (rp_method p)) (rp_reference p) (srt ?O) due 0 db))"
    using f red(1) ready unfolding db'_def
    by (auto simp: reconcile_customer_orders_def Let_def match_empty recon_ready_def faultless_def open_total_def)
  have rows: "\<forall>oo \<in> set ?O. pd_orders db (po_id (fst oo)) = Some (fst oo) \<and> ledger_ok db (fst oo) \<and>
      snd oo = exact_due db (fst oo) \<and> 0 < snd oo"
  proof
    fix oo assume oo: "oo \<in> set ?O"
    then obtain po where po: "oo = (po, exact_due db po)" "po \<in> set (customer_orders env p db)" "exact_due db po \<noteq> 0"
      by (auto simp: o(1))
    then have "po \<in> set (recon_candidates (ra_ids env) (rp_tenant p) db)" by (simp add: customer_orders_def)
    then show "pd_orders db (po_id (fst oo)) = Some (fst oo) \<and> ledger_ok db (fst oo) \<and> snd oo = exact_due db (fst oo) \<and> 0 < snd oo"
      using candidates_row(1) [OF keyed] po ready by (auto simp: recon_ready_def exact_due_def)
  qed
  have "distinct (map (\<lambda>oo. po_id (fst oo)) ?O)"
    using candidates_distinct [OF keyed, of "ra_ids env" "rp_tenant p"] ready
    by (simp add: opens_of_def comp_def recon_ready_def distinct_map_filter)
  then have dist: "distinct (map (\<lambda>oo. po_id (fst oo)) (srt ?O))" by (simp add: created_sort.srt_distinct [OF assms(1)])
  have "\<forall>oo \<in> set (srt ?O). pd_orders db (po_id (fst oo)) = Some (fst oo) \<and> ledger_ok db (fst oo) \<and>
      snd oo = exact_due db (fst oo) \<and> 0 < snd oo" using rows unfolding created_sort.srt_set [OF assms(1)] .
  from settle_loop_spec [OF f reconcile_method_not_credit red(2) less_imp_le [OF red(3)] this dist, where ref = "rp_reference p" and settled = 0]
  show "settled_rows db' (srt ?O) (fifo due (map snd (srt ?O)))" "pd_returns db' = pd_returns db"
    "i \<notin> (\<lambda>oo. po_id (fst oo)) ` set ?O \<Longrightarrow> pd_orders db' i = pd_orders db i"
    unfolding db' by (simp_all add: created_sort.srt_set [OF assms(1)])
qed

lemma fifo_nonneg_sum:
  assumes "0 \<le> due" "\<forall>d \<in> set ds. 0 \<le> d" "due \<le> sum_list ds"
  shows "sum_list (fifo due ds) = due"
  using fifo_sum [OF assms(1,2)] assms(3) by simp

text \<open>What each row of the customer collected in the pass.\<close>

definition gained :: "pay_db \<Rightarrow> pos_order \<Rightarrow> f64" where
  "gained db' po = po_paid_total (the (pd_orders db' (po_id po))) - po_paid_total po"

lemma settled_rows_gained:
  assumes "settled_rows db' oos as"
  shows "map (\<lambda>oo. gained db' (fst oo)) oos = as"
  using assms unfolding settled_rows_def by (induction rule: list_all2_induct) (auto simp: gained_def)

lemma settled_rows_view:
  assumes "settled_rows db' oos as" "oo \<in> set oos"
  shows "\<exists>r. pd_orders db' (po_id (fst oo)) = Some r \<and> same_view (fst oo) r"
  using assms unfolding settled_rows_def by (induction rule: list_all2_induct) auto

lemma fifo_whole:
  "whole r \<Longrightarrow> 0 \<le> r \<Longrightarrow> \<forall>d \<in> set ds. whole d \<and> 0 \<le> d \<Longrightarrow> \<forall>a \<in> set (fifo r ds). whole a"
proof (induction ds arbitrary: r)
  case (Cons d ds)
  then have w: "whole d" "0 \<le> d" by simp_all
  have "0 \<le> r - min d r" by simp
  then show ?case
    using Cons.IH [OF whole_min_diff(2) [OF Cons.prems(1) w(1) Cons.prems(2) w(2)]] whole_min_diff(1) [OF w(1) Cons.prems(1) w(2) Cons.prems(2)]
      Cons.prems(3) by simp
qed simp

lemma map_bounds: "list_all2 P (map f xs) (map g xs) \<Longrightarrow> x \<in> set xs \<Longrightarrow> P (f x) (g x)"
  by (simp add: list_all2_map1 list_all2_map2 list_all2_same)

text \<open>Every order of the customer gains between nothing and its debt, and all together the surplus.\<close>

lemma reconcile_gains:
  fixes srt :: "open_order list \<Rightarrow> open_order list"
  assumes "created_sort srt" "recon_ready env p db" "rp_target p < open_total env p db"
  defines "db' \<equiv> snd (reconcile_customer_orders srt env p db)"
  shows "rel_option same_view (pd_orders db i) (pd_orders db' i)"
    "po \<in> set (customer_orders env p db) \<Longrightarrow> 0 \<le> gained db' po \<and> gained db' po \<le> exact_due db po \<and> whole (gained db' po)"
    "sum_list (map (gained db') (customer_orders env p db)) = open_total env p db - rp_target p"
proof -
  let ?O = "open_orders env p db" and ?C = "customer_orders env p db"
  define due where "due = open_total env p db - rp_target p"
  note rs = reconcile_settles [OF assms(1-3), folded db'_def due_def]
  note o = ready_total [OF assms(2)]
  have keyed: "db_keyed db" and led: "\<forall>po \<in> set ?C. ledger_ok db po" and tw: "whole (rp_target p)" "0 \<le> rp_target p"
    using assms(2) by (simp_all add: recon_ready_def)
  have srt: "set (srt ?O) = set ?O" by (rule created_sort.srt_set [OF assms(1)])
  have row: "pd_orders db (po_id po) = Some po" if "po \<in> set ?C" for po
    using candidates_row(1) [OF keyed, of po "ra_ids env" "rp_tenant p"] that by (simp add: customer_orders_def)
  have O: "oo \<in> set ?O \<longleftrightarrow> (\<exists>po \<in> set ?C. oo = (po, exact_due db po) \<and> exact_due db po \<noteq> 0)" for oo
    by (auto simp: o(1))
  show "rel_option same_view (pd_orders db i) (pd_orders db' i)"
  proof (cases "i \<in> (\<lambda>oo. po_id (fst oo)) ` set ?O")
    case True
    then obtain oo where oo: "oo \<in> set ?O" "i = po_id (fst oo)" by blast
    then have "pd_orders db i = Some (fst oo)" using row O [of oo] by auto
    then show ?thesis using settled_rows_view [OF rs(1), of oo] oo by (auto simp: srt)
  qed (simp add: rs(2) option.rel_refl)
  have zero: "gained db' po = 0" if "po \<in> set ?C" "exact_due db po = 0" for po
  proof -
    have "po_id po \<notin> (\<lambda>oo. po_id (fst oo)) ` set ?O"
    proof
      assume "po_id po \<in> (\<lambda>oo. po_id (fst oo)) ` set ?O"
      then obtain oo where "oo \<in> set ?O" "po_id (fst oo) = po_id po" by (metis imageE)
      then obtain q where q: "q \<in> set ?C" "po_id q = po_id po" "exact_due db q \<noteq> 0" unfolding O by (metis fst_conv)
      have "Some q = Some po" using row [OF q(1)] row [OF that(1)] unfolding q(2) by (rule trans [OF sym])
      then show False using q(3) that(2) by simp
    qed
    then show ?thesis using rs(2) row [OF that(1)] by (simp add: gained_def)
  qed
  have ds: "\<forall>d \<in> set (map snd (srt ?O)). whole d \<and> 0 \<le> d" unfolding set_map srt
  proof
    fix d assume "d \<in> snd ` set ?O"
    then obtain po where "po \<in> set ?C" "d = exact_due db po" using O by auto
    then show "whole d \<and> 0 \<le> d" using exact_due_whole led by blast
  qed
  have dw: "whole due" "0 \<le> due"
  proof -
    show "0 \<le> due" using assms(3) by (simp add: due_def)
    obtain n where "due = of_int n" using whole_minus [OF o(3) tw(1)] by (auto simp: due_def)
    then show "whole due" by (rule whole_ofI) (use assms(3) tw(2) whole_bound [OF o(3)] in \<open>simp_all add: due_def\<close>)
  qed
  note g = settled_rows_gained [OF rs(1)]
  have gb: "0 \<le> gained db' (fst oo) \<and> gained db' (fst oo) \<le> snd oo \<and> whole (gained db' (fst oo))" if "oo \<in> set ?O" for oo
  proof -
    have "list_all2 (\<lambda>a d. 0 \<le> a \<and> a \<le> d) (map (\<lambda>oo. gained db' (fst oo)) (srt ?O)) (map snd (srt ?O))"
      unfolding g by (rule fifo_bounds) (use dw ds in auto)
    from map_bounds [OF this] that srt have "0 \<le> gained db' (fst oo) \<and> gained db' (fst oo) \<le> snd oo" by simp
    moreover have "gained db' (fst oo) \<in> set (fifo due (map snd (srt ?O)))" using that unfolding g [symmetric] by (simp add: srt)
    ultimately show ?thesis using fifo_whole [OF dw ds] by blast
  qed
  show "po \<in> set ?C \<Longrightarrow> 0 \<le> gained db' po \<and> gained db' po \<le> exact_due db po \<and> whole (gained db' po)"
    using gb [of "(po, exact_due db po)"] zero [of po] O [of "(po, exact_due db po)"]
    by (cases "exact_due db po = 0") (auto simp: whole_def intro: exI [of _ "0 :: int"])
  have "sum_list (map (gained db') ?C) = sum_list (map (gained db') (filter (\<lambda>po. exact_due db po \<noteq> 0) ?C))"
    by (rule sum_list_filter_zero [symmetric]) (use zero in simp)
  also have "\<dots> = sum_list (map (\<lambda>oo. gained db' (fst oo)) ?O)" by (simp add: o(1) comp_def)
  also have "\<dots> = sum_list (fifo due (map snd (srt ?O)))"
    unfolding g [symmetric] by (rule created_sort.srt_sum [OF assms(1), symmetric])
  also have "\<dots> = due"
  proof (rule fifo_nonneg_sum [OF dw(2)])
    have "sum_list (map snd (srt ?O)) = sum_list (map snd ?O)" by (rule created_sort.srt_sum [OF assms(1)])
    also have "\<dots> = open_total env p db" unfolding o(2) o(1)
      using sum_list_filter_zero [of ?C "\<lambda>po. exact_due db po \<noteq> 0" "exact_due db"] by (simp add: comp_def)
    finally show "due \<le> sum_list (map snd (srt ?O))" using tw(2) by (simp add: due_def)
  qed (use ds in auto)
  finally show "sum_list (map (gained db') ?C) = open_total env p db - rp_target p" by (simp add: due_def)
qed


section \<open>A customer with two credit orders\<close>

definition credit_row :: "uuid \<Rightarrow> time \<Rightarrow> pos_order" where
  "credit_row i t = kitchen_order\<lparr>po_id := i, po_created_at := t, po_status := st_completed,
     po_customer_phone := Some ''0700000001'', po_metadata := [(''on_account'', JBool True)]\<rparr>"

definition two_credit_db :: pay_db where
  "two_credit_db = \<lparr>pd_orders = [50 \<mapsto> credit_row 50 5, 51 \<mapsto> credit_row 51 3], pd_payments = [], pd_returns = [],
     pd_tickets = [], pd_dispatched = [], pd_calls = []\<rparr>"

definition sample_recon_env :: recon_env where
  "sample_recon_env = \<lparr>ra_pay = sample_pay_env, ra_round = (\<lambda>x. x), ra_ids = [50, 51], ra_query_ok = True,
     ra_returns_ok = (\<lambda>_. True), ra_insert_ok = (\<lambda>_. True), ra_first_sum = (\<lambda>_. no_recompute_fault),
     ra_second_sum = (\<lambda>_. no_recompute_fault), ra_returns2_ok = (\<lambda>_. True), ra_stamp_ok = (\<lambda>_. True),
     ra_pays_ok = (\<lambda>_. True), ra_update_ok = (\<lambda>_. True), ra_new_id = (\<lambda>i. 1000 + i), ra_now = 10, ra_now_text = ''now''\<rparr>"

definition sample_recon :: recon_params where
  "sample_recon = \<lparr>rp_tenant = 2, rp_crm = [], rp_identifier = ''0700000001'', rp_target = 100, rp_method = ''Cash'',
     rp_reference = ''R-7'', rp_dry_run = False\<rparr>"

lemma sample_faultless: "faultless sample_recon_env"
  by (simp add: faultless_def sample_recon_env_def)

lemma sample_customer:
  "customer_orders sample_recon_env sample_recon two_credit_db = [credit_row 50 5, credit_row 51 3]"
proof -
  have "customer_match sample_recon_env sample_recon (credit_row 50 5)" by code_simp
  moreover have "customer_match sample_recon_env sample_recon (credit_row 51 3)" by code_simp
  moreover have "recon_candidates [50, 51] 2 two_credit_db = [credit_row 50 5, credit_row 51 3]"
    by (simp add: recon_candidates_def List.map_filter_def two_credit_db_def credit_row_def kitchen_order_def
        st_completed_def st_voided_def st_cancelled_def st_refunded_def st_draft_def)
  ultimately show ?thesis by (simp add: customer_orders_def sample_recon_env_def sample_recon_def)
qed

lemma sample_exact: "exact_due two_credit_db (credit_row i t) = 200" "ledger_ok two_credit_db (credit_row i t)"
  by (auto simp: exact_due_def ledger_ok_def completed_returns_total_def two_credit_db_def credit_row_def kitchen_order_def
      whole_def whole_rows_def completed_rows_def cash_rows_def exact_sum_def intro: exI [of _ "200 :: int"] exI [of _ "0 :: int"])

lemma sample_ready: "recon_ready sample_recon_env sample_recon two_credit_db"
  unfolding recon_ready_def sample_customer
proof (intro conjI)
  show "\<not> (rp_crm sample_recon = [] \<and> trim_space (rp_identifier sample_recon) = [])"
    by code_simp
  show "whole (rp_target sample_recon)" by (auto simp: sample_recon_def whole_def intro: exI [of _ "100 :: int"])
  show "db_keyed two_credit_db" by (auto simp: db_keyed_def two_credit_db_def credit_row_def)
qed (simp_all add: sample_faultless sample_exact, simp_all add: sample_recon_env_def sample_recon_def)

lemma sample_total: "open_total sample_recon_env sample_recon two_credit_db = 400"
  using ready_total(2) [OF sample_ready] by (simp add: sample_customer sample_exact)


theorem dry_run_predicts_witness:
  "snd (reconcile_customer_orders oldest_first sample_recon_env (sample_recon\<lparr>rp_dry_run := True\<rparr>) two_credit_db) = two_credit_db"
  using dry_run_predicts [OF sample_faultless, of sample_recon two_credit_db oldest_first]
  by (simp add: sample_total) (simp add: sample_recon_def)

text \<open>
  C30. The settlement loop implements the first-in-first-out allocation: each open order of the
  customer, oldest first, collects what that allocation of the surplus gives it, and no other order's
  row changes.
\<close>

theorem reconcile_refines_fifo:
  assumes "created_sort srt" "recon_ready env p db" "rp_target p < open_total env p db"
  shows "let db' = snd (reconcile_customer_orders srt env p db); oos = srt (open_orders env p db) in
    map (\<lambda>oo. gained db' (fst oo)) oos = fifo (open_total env p db - rp_target p) (map snd oos) \<and>
    sorted (map (\<lambda>oo. po_created_at (fst oo)) oos) \<and>
    (\<forall>i. i \<notin> (\<lambda>oo. po_id (fst oo)) ` set oos \<longrightarrow>
       pd_orders db' i = pd_orders db i)"
  using settled_rows_gained [OF reconcile_settles(1) [OF assms]] reconcile_settles(2) [OF assms]
    created_sort.srt_sorted [OF assms(1)] created_sort.srt_set [OF assms(1)]
  by (simp add: Let_def)

theorem reconcile_refines_fifo_witness:
  "let db' = snd (reconcile_customer_orders oldest_first sample_recon_env sample_recon two_credit_db) in
   gained db' (credit_row 51 3) = 200 \<and> gained db' (credit_row 50 5) = 100"
proof -
  let ?oos = "oldest_first (open_orders sample_recon_env sample_recon two_credit_db)"
  have "?oos = [(credit_row 51 3, 200), (credit_row 50 5, 200)]"
    by (simp add: ready_total(1) [OF sample_ready] sample_customer sample_exact oldest_first_def) (simp add: credit_row_def)
  then show ?thesis
    using reconcile_refines_fifo [OF oldest.created_sort_axioms sample_ready]
    by (simp add: Let_def sample_total) (simp add: sample_recon_def)
qed

text \<open>
  When the sum of an order's payments fails right after its row was stored, the pass counts
  nothing as settled and takes the same amount from the next order: the customer's orders lose more
  debt than treasury's figure allows.
\<close>

theorem failed_sum_settles_twice:
  "let env = sample_recon_env\<lparr>ra_first_sum := (\<lambda>i. if i = 51 then \<lparr>rf_sum_ok = True, rf_store_ok = False\<rparr> else no_recompute_fault)\<rparr>;
       r = reconcile_customer_orders oldest_first env (sample_recon\<lparr>rp_target := 200\<rparr>) two_credit_db
   in map pp_amount (pd_payments (snd r)) = [200, 200] \<and>
      (case fst r of Inr report \<Rightarrow> rr_settled report = 200 | Inl e \<Rightarrow> False)"
  by code_simp

end
