(* ===== verification/Order_Tax.thy ===== *)
theory Order_Tax
  imports Order_Model
begin

text \<open>
  The tax of an order line: \<open>internal/modules/orders/tax_resolver.go\<close> (the treasury lookups behind
  their Redis cache, and the invalidations of \<open>tax_subscriber.go\<close>), and \<open>ResolveLineTaxes\<close> with
  \<open>OutletFallbackTax\<close> of \<open>service.go\<close>. The cache is explicit state. Treasury's answers, the VAT split
  of \<open>httpware/tax\<close>, Redis's key patterns and which Redis calls fail are arguments (\<open>tax_env\<close>); the
  locales \<open>vat_lib\<close> and \<open>glob_lib\<close> state what the code relies on of the split and of the patterns. The
  lemmas show that a coherent cache never shows, that an invalidation does its work whatever the
  cache held, and which lines are never taxed.
\<close>

section \<open>The resolver\<close>

record tax_code_info =
  ti_code :: string
  ti_rate :: f64
  ti_kra_code :: string
  ti_type :: string

record tax_profile =
  tp_vat_active :: bool
  tp_etims_activated :: bool
  tp_kra_pin :: string

text \<open>An answer of treasury: an error, or the object, or nothing (a 404).\<close>

type_synonym 'a reply = "string + 'a option"

text \<open>
  The keys are disjoint by their prefix, so the cache is one map per prefix. A cached rate is the
  \<open>TaxCodeInfo\<close> its JSON text decodes to.
\<close>

record tax_cache =
  tc_codes :: "string \<rightharpoonup> tax_code_info"
  tc_vat :: "string \<rightharpoonup> string"
  tc_pins :: "string \<rightharpoonup> string"

record tax_env =
  te_resolver :: bool
  te_treasury :: bool
  te_redis :: bool
  te_get_ok :: "string \<Rightarrow> bool"
  te_set_ok :: "string \<Rightarrow> bool"
  te_del_ok :: "string \<Rightarrow> bool"
  te_matches :: "string \<Rightarrow> string \<Rightarrow> bool"
  te_code :: "string \<Rightarrow> string \<Rightarrow> tax_code_info reply"
  te_profile :: "string \<Rightarrow> tax_profile reply"
  te_split :: "f64 \<Rightarrow> f64 \<Rightarrow> bool \<Rightarrow> f64 \<times> f64"
  te_band_non_vat :: string

definition code_key :: "string \<Rightarrow> string \<Rightarrow> string" where
  "code_key slug code = ''pos:tax:'' @ slug @ '':'' @ code"

definition vat_key :: "string \<Rightarrow> string" where
  "vat_key slug = ''pos:vatactive:'' @ slug"

definition pin_key :: "string \<Rightarrow> string" where
  "pin_key slug = ''pos:fiscalpin:'' @ slug"

definition redis_get :: "tax_env \<Rightarrow> (string \<rightharpoonup> 'a) \<Rightarrow> string \<Rightarrow> 'a option" where
  "redis_get env m k = (if te_redis env \<and> te_get_ok env k then m k else None)"

definition redis_set :: "tax_env \<Rightarrow> string \<Rightarrow> 'a \<Rightarrow> (string \<rightharpoonup> 'a) \<Rightarrow> (string \<rightharpoonup> 'a)" where
  "redis_set env k v m = (if te_redis env \<and> te_set_ok env k then m(k \<mapsto> v) else m)"

definition redis_del :: "tax_env \<Rightarrow> string \<Rightarrow> (string \<rightharpoonup> 'a) \<Rightarrow> (string \<rightharpoonup> 'a)" where
  "redis_del env k m = (if te_redis env \<and> te_del_ok env k then m(k := None) else m)"

definition resolve_code ::
  "tax_env \<Rightarrow> string \<Rightarrow> string \<Rightarrow> tax_cache \<Rightarrow> tax_cache \<times> tax_code_info option" where
  "resolve_code env slug code c =
     (let k = code_key slug code
      in case redis_get env (tc_codes c) k of
           Some info \<Rightarrow> (c, Some info)
         | None \<Rightarrow>
             (case te_code env slug code of
                Inl e \<Rightarrow> (c, None)
              | Inr None \<Rightarrow> (c, None)
              | Inr (Some info) \<Rightarrow> (c\<lparr>tc_codes := redis_set env k info (tc_codes c)\<rparr>, Some info)))"

definition vat_active :: "tax_env \<Rightarrow> string \<Rightarrow> tax_cache \<Rightarrow> tax_cache \<times> bool" where
  "vat_active env slug c =
     (let k = vat_key slug
      in case redis_get env (tc_vat c) k of
           Some v \<Rightarrow> (c, v = ''1'')
         | None \<Rightarrow>
             (case te_profile env slug of
                Inr (Some p) \<Rightarrow>
                  (c\<lparr>tc_vat := redis_set env k (if tp_vat_active p then ''1'' else ''0'') (tc_vat c)\<rparr>, tp_vat_active p)
              | _ \<Rightarrow> (c, True)))"

definition resolve ::
  "tax_env \<Rightarrow> string \<Rightarrow> string \<Rightarrow> tax_cache \<Rightarrow> tax_cache \<times> tax_code_info option" where
  "resolve env slug code c =
     (if \<not> te_treasury env \<or> code = [] then (c, None)
      else
        (let r = resolve_code env slug code c
         in case snd r of
              None \<Rightarrow> r
            | Some info \<Rightarrow>
                if ti_type info = ''vat'' \<and> ti_rate info > 0 then
                  (let v = vat_active env slug (fst r)
                   in (fst v, Some (if snd v then info
                                    else info\<lparr>ti_rate := 0, ti_kra_code := te_band_non_vat env\<rparr>)))
                else r))"

definition fiscal_pin :: "tax_env \<Rightarrow> string \<Rightarrow> tax_cache \<Rightarrow> tax_cache \<times> string" where
  "fiscal_pin env slug c =
     (if \<not> te_treasury env \<or> slug = [] then (c, [])
      else
        (let k = pin_key slug
         in case redis_get env (tc_pins c) k of
              Some v \<Rightarrow> (c, v)
            | None \<Rightarrow>
                (let pin = (case te_profile env slug of
                       Inr (Some p) \<Rightarrow> if tp_etims_activated p then tp_kra_pin p else []
                     | _ \<Rightarrow> [])
                 in (c\<lparr>tc_pins := redis_set env k pin (tc_pins c)\<rparr>, pin))))"

section \<open>Invalidation\<close>

text \<open>
  A full SCAN returns every key present throughout. \<open>te_del_ok\<close> is false of the keys whose DEL
  fails and of those an interrupted SCAN never reached.
\<close>

definition delete_by_pattern :: "tax_env \<Rightarrow> string \<Rightarrow> (string \<rightharpoonup> 'a) \<Rightarrow> (string \<rightharpoonup> 'a)" where
  "delete_by_pattern env pat m = (\<lambda>k. if te_redis env \<and> te_matches env pat k \<and> te_del_ok env k then None else m k)"

definition invalidate_tenant :: "tax_env \<Rightarrow> string \<Rightarrow> tax_cache \<Rightarrow> tax_cache" where
  "invalidate_tenant env slug c =
     (if \<not> te_redis env \<or> slug = [] then c
      else c\<lparr>tc_codes := delete_by_pattern env (code_key slug ''*'') (tc_codes c),
             tc_pins := redis_del env (pin_key slug) (tc_pins c),
             tc_vat := redis_del env (vat_key slug) (tc_vat c)\<rparr>)"

definition invalidate_code :: "tax_env \<Rightarrow> string \<Rightarrow> string \<Rightarrow> tax_cache \<Rightarrow> tax_cache" where
  "invalidate_code env slug code c =
     (if \<not> te_redis env \<or> slug = [] then c
      else (let c = (if code \<noteq> [] then c\<lparr>tc_codes := redis_del env (code_key slug code) (tc_codes c)\<rparr> else c)
            in c\<lparr>tc_vat := redis_del env (vat_key slug) (tc_vat c)\<rparr>))"

definition invalidate_code_all_tenants :: "tax_env \<Rightarrow> string \<Rightarrow> tax_cache \<Rightarrow> tax_cache" where
  "invalidate_code_all_tenants env code c =
     (if \<not> te_redis env \<or> code = [] then c
      else c\<lparr>tc_codes := delete_by_pattern env (code_key ''*'' code) (tc_codes c),
             tc_vat := delete_by_pattern env (vat_key ''*'') (tc_vat c),
             tc_pins := delete_by_pattern env (pin_key ''*'') (tc_pins c)\<rparr>)"

text \<open>
  The subscriber of \<open>treasury.tax.code_updated\<close>: the tenant of the payload, else of the envelope,
  mapped to a slug by the local projection (\<open>slugs\<close>; the empty string when it is unknown).
\<close>

record tax_event =
  tv_tenant :: string
  tv_payload_tenant :: string
  tv_payload_code :: string

definition event_tenant :: "tax_event \<Rightarrow> string" where
  "event_tenant e = (if tv_payload_tenant e = [] then tv_tenant e else tv_payload_tenant e)"

definition slug_for_tenant :: "(string \<rightharpoonup> string) \<Rightarrow> string \<Rightarrow> string" where
  "slug_for_tenant slugs tid = (if tid = [] then [] else case slugs tid of Some s \<Rightarrow> s | None \<Rightarrow> [])"

definition on_tax_code_updated ::
  "tax_env \<Rightarrow> (string \<rightharpoonup> string) \<Rightarrow> tax_event option \<Rightarrow> tax_cache \<Rightarrow> tax_cache" where
  "on_tax_code_updated env slugs msg c =
     (case msg of
        None \<Rightarrow> c
      | Some e \<Rightarrow>
          (let slug = slug_for_tenant slugs (event_tenant e)
           in if slug \<noteq> [] then invalidate_code env slug (tv_payload_code e) c
              else invalidate_code_all_tenants env (tv_payload_code e) c))"

definition on_tenant_tax_changed ::
  "tax_env \<Rightarrow> (string \<rightharpoonup> string) \<Rightarrow> tax_event option \<Rightarrow> tax_cache \<Rightarrow> tax_cache" where
  "on_tenant_tax_changed env slugs msg c =
     (case msg of
        None \<Rightarrow> c
      | Some e \<Rightarrow>
          (let slug = slug_for_tenant slugs (event_tenant e)
           in if slug \<noteq> [] then invalidate_tenant env slug c else c))"

section \<open>Line taxes\<close>

definition compute_line_tax :: "tax_env \<Rightarrow> f64 \<Rightarrow> f64 \<Rightarrow> bool \<Rightarrow> f64 \<times> f64" where
  "compute_line_tax env amount rate incl =
     (if rate \<le> 0 \<or> amount \<le> 0 then (0, amount)
      else (snd (te_split env amount rate incl), fst (te_split env amount rate incl)))"

record line_modifier_input =
  lm_group_id :: string
  lm_group_name :: string
  lm_option_id :: uuid
  lm_option_name :: string
  lm_price_adjustment :: f64

record order_line_input =
  li_catalog_item :: uuid
  li_sku :: string
  li_name :: string
  li_category :: string
  li_quantity :: f64
  li_unit_price :: f64
  li_total_price :: f64
  li_tax_status :: string
  li_tax_code :: string
  li_inclusive :: bool
  li_tax_rate :: "f64 option"
  li_course :: int
  li_metadata :: meta
  li_modifiers :: "line_modifier_input list"

record resolved_line_tax =
  rt_code_id :: string
  rt_kra_code :: string
  rt_rate :: f64
  rt_amount :: f64
  rt_inclusive :: bool
  rt_has_info :: bool

record outlet_setting =
  os_vat_enabled :: bool
  os_vat_rate :: f64
  os_metadata :: meta
  os_currency :: string
  os_warehouse :: "uuid option"

record outlet_tax_fallback =
  fb_code :: string
  fb_rate :: rat

record catalog_override =
  co_tenant :: uuid
  co_sku :: string
  co_tax_code :: string
  co_inclusive :: bool
  co_station :: "uuid option"

text \<open>\<open>set\<close> is the outlet's settings row, \<open>None\<close> when there is none or the read fails.\<close>

definition outlet_fallback_tax :: "dec_lib \<Rightarrow> outlet_setting option \<Rightarrow> outlet_tax_fallback" where
  "outlet_fallback_tax L st =
     (case st of
        Some s \<Rightarrow>
          if \<not> os_vat_enabled s then \<lparr>fb_code = [], fb_rate = 0\<rparr>
          else \<lparr>fb_code = trim_space (as_str (meta_get (os_metadata s) ''fallback_tax_code'')),
                fb_rate = dec_div L (of_float L (os_vat_rate s)) 100\<rparr>
      | None \<Rightarrow> \<lparr>fb_code = [], fb_rate = 0\<rparr>)"

definition outlet_currency :: "string \<Rightarrow> outlet_setting option \<Rightarrow> string" where
  "outlet_currency def_cur st =
     (case st of Some s \<Rightarrow> if os_currency s \<noteq> [] then os_currency s else def_cur | None \<Rightarrow> def_cur)"

definition resolve_outlet_warehouse_id :: "outlet_setting option \<Rightarrow> uuid option" where
  "resolve_outlet_warehouse_id st = (case st of Some s \<Rightarrow> os_warehouse s | None \<Rightarrow> None)"

text \<open>The overrides of the tenant's rows for the lines' SKUs; a later row replaces an earlier one.\<close>

definition line_overrides :: "catalog_override list \<Rightarrow> uuid \<Rightarrow> order_line_input list \<Rightarrow> catalog_override list" where
  "line_overrides rows tid lines =
     filter (\<lambda>r. co_tenant r = tid \<and> co_sku r \<noteq> [] \<and> co_sku r \<in> set (map li_sku lines)) rows"

definition tax_by_sku :: "catalog_override list \<Rightarrow> (string \<rightharpoonup> string \<times> bool)" where
  "tax_by_sku rows =
     fold (\<lambda>r m. if co_tax_code r \<noteq> [] then m(co_sku r \<mapsto> (co_tax_code r, co_inclusive r)) else m) rows Map.empty"

definition line_amount :: "order_line_input \<Rightarrow> f64" where
  "line_amount l = (if li_total_price l = 0 then fl (li_unit_price l * li_quantity l) else li_total_price l)"

text \<open>The tiers of \<open>ResolveLineTaxes\<close> for one line, in their order.\<close>

definition try_code ::
  "tax_env \<Rightarrow> string \<Rightarrow> string \<Rightarrow> bool \<Rightarrow> f64 \<Rightarrow> resolved_line_tax \<Rightarrow> tax_cache \<Rightarrow> tax_cache \<times> resolved_line_tax" where
  "try_code env slug code incl amount r c =
     (let res = resolve env slug code c
      in case snd res of
           Some tc \<Rightarrow>
             (fst res, r\<lparr>rt_code_id := code, rt_rate := ti_rate tc, rt_kra_code := ti_kra_code tc,
                rt_amount := fst (compute_line_tax env amount (ti_rate tc) incl), rt_has_info := True\<rparr>)
         | None \<Rightarrow> (fst res, r))"

definition till_rate :: "tax_env \<Rightarrow> order_line_input \<Rightarrow> resolved_line_tax \<Rightarrow> resolved_line_tax" where
  "till_rate env l r =
     (case li_tax_rate l of
        Some rate \<Rightarrow>
          if rt_has_info r then r
          else r\<lparr>rt_rate := rate, rt_amount := fst (compute_line_tax env (line_amount l) rate (rt_inclusive r)),
                 rt_has_info := True\<rparr>
      | None \<Rightarrow> r)"

definition fallback_rate ::
  "dec_lib \<Rightarrow> tax_env \<Rightarrow> outlet_tax_fallback \<Rightarrow> order_line_input \<Rightarrow> resolved_line_tax \<Rightarrow> resolved_line_tax" where
  "fallback_rate L env fb l r =
     (if \<not> rt_has_info r \<and> \<not> rt_inclusive r \<and> fb_rate fb > 0 then
        (let rate = to_float L (fb_rate fb * 100);
             amt = fst (compute_line_tax env (line_amount l) rate False)
         in if amt > 0 then r\<lparr>rt_rate := rate, rt_amount := amt, rt_has_info := True\<rparr> else r)
      else r)"

definition line_tax_code :: "(string \<rightharpoonup> string \<times> bool) \<Rightarrow> order_line_input \<Rightarrow> string" where
  "line_tax_code by_sku l =
     (if li_tax_code l \<noteq> [] then li_tax_code l
      else case by_sku (li_sku l) of Some d \<Rightarrow> fst d | None \<Rightarrow> [])"

definition line_inclusive :: "(string \<rightharpoonup> string \<times> bool) \<Rightarrow> order_line_input \<Rightarrow> bool" where
  "line_inclusive by_sku l =
     (li_inclusive l \<or>
      li_tax_code l = [] \<and> (case by_sku (li_sku l) of Some d \<Rightarrow> snd d | None \<Rightarrow> False))"

definition no_tax :: resolved_line_tax where
  "no_tax = \<lparr>rt_code_id = [], rt_kra_code = [], rt_rate = 0, rt_amount = 0, rt_inclusive = False, rt_has_info = False\<rparr>"

definition resolve_line_tax ::
  "dec_lib \<Rightarrow> tax_env \<Rightarrow> string \<Rightarrow> (string \<rightharpoonup> string \<times> bool) \<Rightarrow> outlet_tax_fallback \<Rightarrow> order_line_input
     \<Rightarrow> tax_cache \<Rightarrow> tax_cache \<times> resolved_line_tax" where
  "resolve_line_tax L env slug by_sku fb l c =
     (if li_tax_status l = ''tax_exempt'' \<or> li_tax_status l = ''zero_rated''
      then (c, no_tax\<lparr>rt_inclusive := li_inclusive l, rt_has_info := True\<rparr>)
      else
        (let code = line_tax_code by_sku l;
             incl = line_inclusive by_sku l;
             r = no_tax\<lparr>rt_inclusive := incl\<rparr>;
             coded = (if te_resolver env \<and> code \<noteq> []
                      then try_code env slug code incl (line_amount l) (r\<lparr>rt_code_id := code\<rparr>) c
                      else (c, r));
             r = till_rate env l (snd coded);
             fallen = (if \<not> rt_has_info r \<and> \<not> rt_inclusive r \<and> fb_code fb \<noteq> [] \<and> te_resolver env
                       then try_code env slug (fb_code fb) False (line_amount l) r (fst coded)
                       else (fst coded, r))
         in (fst fallen, fallback_rate L env fb l (snd fallen))))"

fun resolve_lines ::
  "dec_lib \<Rightarrow> tax_env \<Rightarrow> string \<Rightarrow> (string \<rightharpoonup> string \<times> bool) \<Rightarrow> outlet_tax_fallback \<Rightarrow> order_line_input list
     \<Rightarrow> tax_cache \<Rightarrow> tax_cache \<times> resolved_line_tax list" where
  "resolve_lines L env slug by_sku fb [] c = (c, [])"
| "resolve_lines L env slug by_sku fb (l # ls) c =
     (let one = resolve_line_tax L env slug by_sku fb l c;
          rest = resolve_lines L env slug by_sku fb ls (fst one)
      in (fst rest, snd one # snd rest))"

definition resolve_line_taxes ::
  "dec_lib \<Rightarrow> tax_env \<Rightarrow> catalog_override list \<Rightarrow> uuid \<Rightarrow> string \<Rightarrow> order_line_input list \<Rightarrow> outlet_tax_fallback
     \<Rightarrow> tax_cache \<Rightarrow> tax_cache \<times> resolved_line_tax list" where
  "resolve_line_taxes L env rows tid slug lines fb c =
     resolve_lines L env slug (tax_by_sku (line_overrides rows tid lines)) fb lines c"

section \<open>What the code relies on\<close>

locale vat_lib =
  fixes split :: "f64 \<Rightarrow> f64 \<Rightarrow> bool \<Rightarrow> f64 \<times> f64"
  assumes tax_nonneg: "0 < amount \<Longrightarrow> 0 < rate \<Longrightarrow> 0 \<le> snd (split amount rate incl)"
    and tax_float: "0 < amount \<Longrightarrow> 0 < rate \<Longrightarrow> is_f64 (snd (split amount rate incl))"

text \<open>A pattern with one star matches what starts and ends with its two literal parts.\<close>

definition literal :: "string \<Rightarrow> bool" where
  "literal s \<longleftrightarrow> list_all (\<lambda>c. c \<notin> {CHR ''*'', CHR ''?'', CHR ''['', CHR 0x5C}) s"

locale glob_lib =
  fixes matches :: "string \<Rightarrow> string \<Rightarrow> bool"
  assumes star: "literal p \<Longrightarrow> literal s \<Longrightarrow> matches (p @ ''*'' @ s) k \<longleftrightarrow> (\<exists>m. k = p @ m @ s)"
begin

lemma star_end: "literal p \<Longrightarrow> matches (p @ ''*'') k \<longleftrightarrow> prefix p k"
  using star [of p "[]" k] by (auto simp: literal_def prefix_def)

end

definition percent_split :: "f64 \<Rightarrow> f64 \<Rightarrow> bool \<Rightarrow> f64 \<times> f64" where
  "percent_split amount rate incl =
     (let tax = dec_round shop_decimal 2 (if incl then amount * rate / (100 + rate) else amount * rate / 100)
      in (fl (if incl then amount - tax else amount), fl tax))"

interpretation percent: vat_lib percent_split
  by unfold_locales (simp_all add: percent_split_def Let_def is_f64_def shop.round_nonneg)

fun star_match :: "string \<Rightarrow> string \<Rightarrow> bool" where
  "star_match [] k = (k = [])"
| "star_match (c # p) k =
     (if c = CHR ''*'' then list_ex (star_match p) (suffixes k)
      else case k of [] \<Rightarrow> False | x # xs \<Rightarrow> (c = CHR ''?'' \<or> c = x) \<and> star_match p xs)"

lemma star_match_literal: "literal p \<Longrightarrow> star_match p k \<longleftrightarrow> k = p"
  by (induction p arbitrary: k) (auto simp: literal_def split: list.splits)

lemma star_match_prefix: "literal p \<Longrightarrow> star_match (p @ q) k \<longleftrightarrow> (\<exists>m. k = p @ m \<and> star_match q m)"
proof (induction p arbitrary: k)
  case (Cons c p)
  then show ?case by (cases k) (auto simp: literal_def)
qed simp

interpretation star: glob_lib star_match
proof
  fix p s k
  assume "literal p" "literal s"
  then show "star_match (p @ ''*'' @ s) k \<longleftrightarrow> (\<exists>m. k = p @ m @ s)"
    by (auto simp: star_match_prefix star_match_literal list_ex_iff suffix_def)
qed

section \<open>The cache never shows\<close>

text \<open>
  A cache is coherent with treasury when each entry it holds for a slug is what treasury answers
  now. A slug has no colon (it is a URL path segment), so the keys of two tenants differ.
\<close>

definition slug_ok :: "string \<Rightarrow> bool" where
  "slug_ok slug \<longleftrightarrow> slug \<noteq> [] \<and> CHR '':'' \<notin> set slug"

definition coherent_codes :: "tax_env \<Rightarrow> (string \<rightharpoonup> tax_code_info) \<Rightarrow> bool" where
  "coherent_codes env m \<longleftrightarrow>
     (\<forall>slug code info. slug_ok slug \<longrightarrow> m (code_key slug code) = Some info \<longrightarrow> te_code env slug code = Inr (Some info))"

definition coherent_vat :: "tax_env \<Rightarrow> (string \<rightharpoonup> string) \<Rightarrow> bool" where
  "coherent_vat env m \<longleftrightarrow>
     (\<forall>slug v. m (vat_key slug) = Some v \<longrightarrow>
        (case te_profile env slug of Inr (Some p) \<Rightarrow> v = (if tp_vat_active p then ''1'' else ''0'') | _ \<Rightarrow> False))"

definition coherent :: "tax_env \<Rightarrow> tax_cache \<Rightarrow> bool" where
  "coherent env c \<longleftrightarrow> coherent_codes env (tc_codes c) \<and> coherent_vat env (tc_vat c)"

text \<open>What treasury says, asked directly.\<close>

definition treasury_code :: "tax_env \<Rightarrow> string \<Rightarrow> string \<Rightarrow> tax_code_info option" where
  "treasury_code env slug code = (case te_code env slug code of Inr r \<Rightarrow> r | Inl e \<Rightarrow> None)"

definition treasury_vat :: "tax_env \<Rightarrow> string \<Rightarrow> bool" where
  "treasury_vat env slug = (case te_profile env slug of Inr (Some p) \<Rightarrow> tp_vat_active p | _ \<Rightarrow> True)"

definition treasury_tax :: "tax_env \<Rightarrow> string \<Rightarrow> string \<Rightarrow> tax_code_info option" where
  "treasury_tax env slug code =
     (if \<not> te_treasury env \<or> code = [] then None
      else map_option (\<lambda>info. if ti_type info = ''vat'' \<and> ti_rate info > 0 \<and> \<not> treasury_vat env slug
             then info\<lparr>ti_rate := 0, ti_kra_code := te_band_non_vat env\<rparr> else info) (treasury_code env slug code))"

lemma append_sep_inj:
  assumes "x \<notin> set a" "x \<notin> set b" "a @ x # c = b @ x # d"
  shows "a = b \<and> c = d"
  using assms
proof (induction a arbitrary: b)
  case Nil
  then show ?case by (cases b) auto
next
  case (Cons y a)
  then show ?case by (cases b) auto
qed

lemma code_key_inj:
  assumes "slug_ok slug" "slug_ok slug'"
  shows "code_key slug code = code_key slug' code' \<longleftrightarrow> slug = slug' \<and> code = code'"
proof
  assume "code_key slug code = code_key slug' code'"
  then have "slug @ CHR '':'' # code = slug' @ CHR '':'' # code'" by (simp add: code_key_def)
  moreover have "CHR '':'' \<notin> set slug" "CHR '':'' \<notin> set slug'" using assms by (auto simp: slug_ok_def)
  ultimately show "slug = slug' \<and> code = code'" by (intro append_sep_inj)
qed simp

lemma vat_key_inj [simp]: "vat_key s = vat_key s' \<longleftrightarrow> s = s'"
  by (simp add: vat_key_def)

lemma coherent_codes_get:
  "coherent_codes env m \<Longrightarrow> slug_ok slug \<Longrightarrow> redis_get env m (code_key slug code) = Some info
     \<Longrightarrow> te_code env slug code = Inr (Some info)"
  by (auto simp: coherent_codes_def redis_get_def split: if_splits)

lemma coherent_codes_set:
  assumes "coherent_codes env m" "slug_ok slug" "te_code env slug code = Inr (Some info)"
  shows "coherent_codes env (redis_set env (code_key slug code) info m)"
  using assms by (auto simp: coherent_codes_def redis_set_def code_key_inj)

lemma resolve_code_coherent:
  assumes "coherent env c" "slug_ok slug"
  shows "snd (resolve_code env slug code c) = treasury_code env slug code"
    and "coherent env (fst (resolve_code env slug code c))"
proof -
  have c: "coherent_codes env (tc_codes c)" "coherent_vat env (tc_vat c)" using assms by (auto simp: coherent_def)
  show "snd (resolve_code env slug code c) = treasury_code env slug code"
    using coherent_codes_get [OF c(1) assms(2), of code]
    by (auto simp: resolve_code_def treasury_code_def Let_def split: option.split sum.split)
  show "coherent env (fst (resolve_code env slug code c))"
    using c coherent_codes_set [OF c(1) assms(2), of code]
    by (auto simp: resolve_code_def coherent_def Let_def split: option.split sum.split)
qed

lemma vat_active_coherent:
  assumes "coherent env c"
  shows "snd (vat_active env slug c) = treasury_vat env slug" and "coherent env (fst (vat_active env slug c))"
proof -
  have c: "coherent_codes env (tc_codes c)" "coherent_vat env (tc_vat c)" using assms by (auto simp: coherent_def)
  have get: "case te_profile env slug of Inr (Some p) \<Rightarrow> v = (if tp_vat_active p then ''1'' else ''0'') | _ \<Rightarrow> False"
    if "redis_get env (tc_vat c) (vat_key slug) = Some v" for v
  proof -
    have "tc_vat c (vat_key slug) = Some v" using that by (simp add: redis_get_def split: if_splits)
    then show ?thesis using c(2) unfolding coherent_vat_def by blast
  qed
  have put: "coherent_vat env (redis_set env (vat_key slug) (if tp_vat_active p then ''1'' else ''0'') (tc_vat c))"
    if "te_profile env slug = Inr (Some p)" for p
    using that c(2) by (simp add: coherent_vat_def redis_set_def)
  show "snd (vat_active env slug c) = treasury_vat env slug"
  proof (cases "redis_get env (tc_vat c) (vat_key slug)")
    case None
    then show ?thesis by (simp add: vat_active_def treasury_vat_def Let_def split: option.split sum.split)
  next
    case (Some v)
    obtain p where "te_profile env slug = Inr (Some p)" "v = (if tp_vat_active p then ''1'' else ''0'')"
      using get [OF Some] by (cases "te_profile env slug") (auto split: option.splits)
    then show ?thesis using Some by (simp add: vat_active_def treasury_vat_def Let_def)
  qed
  show "coherent env (fst (vat_active env slug c))"
    using c put by (auto simp: vat_active_def coherent_def Let_def split: option.split sum.split)
qed

lemma resolve_coherent:
  assumes "coherent env c" "slug_ok slug"
  shows "snd (resolve env slug code c) = treasury_tax env slug code"
    and "coherent env (fst (resolve env slug code c))"
  using resolve_code_coherent [OF assms, of code] vat_active_coherent [of env "fst (resolve_code env slug code c)" slug]
  by (auto simp: resolve_def treasury_tax_def Let_def assms split: option.split)

lemma resolve_uncached:
  assumes "\<not> te_redis env"
  shows "snd (resolve env slug code c) = treasury_tax env slug code"
  using assms
  by (auto simp: resolve_def resolve_code_def vat_active_def treasury_tax_def treasury_code_def treasury_vat_def
      redis_get_def Let_def split: option.split sum.split)

text \<open>The reference: the tiers of one line over treasury's own answers, with no cache and no state.\<close>

definition coded_tax :: "tax_env \<Rightarrow> string \<Rightarrow> string \<Rightarrow> bool \<Rightarrow> f64 \<Rightarrow> resolved_line_tax \<Rightarrow> resolved_line_tax" where
  "coded_tax env slug code incl amount r =
     (case treasury_tax env slug code of
        Some tc \<Rightarrow> r\<lparr>rt_code_id := code, rt_rate := ti_rate tc, rt_kra_code := ti_kra_code tc,
             rt_amount := fst (compute_line_tax env amount (ti_rate tc) incl), rt_has_info := True\<rparr>
      | None \<Rightarrow> r)"

definition direct_line_tax ::
  "dec_lib \<Rightarrow> tax_env \<Rightarrow> string \<Rightarrow> (string \<rightharpoonup> string \<times> bool) \<Rightarrow> outlet_tax_fallback \<Rightarrow> order_line_input \<Rightarrow> resolved_line_tax" where
  "direct_line_tax L env slug by_sku fb l =
     (if li_tax_status l = ''tax_exempt'' \<or> li_tax_status l = ''zero_rated''
      then no_tax\<lparr>rt_inclusive := li_inclusive l, rt_has_info := True\<rparr>
      else
        (let code = line_tax_code by_sku l;
             incl = line_inclusive by_sku l;
             r = no_tax\<lparr>rt_inclusive := incl\<rparr>;
             r = (if te_resolver env \<and> code \<noteq> []
                  then coded_tax env slug code incl (line_amount l) (r\<lparr>rt_code_id := code\<rparr>) else r);
             r = till_rate env l r;
             r = (if \<not> rt_has_info r \<and> \<not> rt_inclusive r \<and> fb_code fb \<noteq> [] \<and> te_resolver env
                  then coded_tax env slug (fb_code fb) False (line_amount l) r else r)
         in fallback_rate L env fb l r))"

lemma try_code_coherent:
  assumes "coherent env c" "slug_ok slug"
  shows "snd (try_code env slug code incl amount r c) = coded_tax env slug code incl amount r"
    and "coherent env (fst (try_code env slug code incl amount r c))"
  using resolve_coherent [OF assms, of code]
  by (auto simp: try_code_def coded_tax_def Let_def split: option.split)

lemma try_code_uncached:
  "\<not> te_redis env \<Longrightarrow> snd (try_code env slug code incl amount r c) = coded_tax env slug code incl amount r"
  using resolve_uncached [of env slug code c]
  by (auto simp: try_code_def coded_tax_def Let_def split: option.split)

lemma resolve_line_coherent:
  assumes "coherent env c" "slug_ok slug"
  shows "snd (resolve_line_tax L env slug by_sku fb l c) = direct_line_tax L env slug by_sku fb l"
    and "coherent env (fst (resolve_line_tax L env slug by_sku fb l c))"
proof -
  note t = try_code_coherent [OF _ assms(2)]
  show "snd (resolve_line_tax L env slug by_sku fb l c) = direct_line_tax L env slug by_sku fb l"
    by (simp add: resolve_line_tax_def direct_line_tax_def Let_def t assms)
  show "coherent env (fst (resolve_line_tax L env slug by_sku fb l c))"
    by (simp add: resolve_line_tax_def Let_def t assms)
qed

lemma resolve_line_uncached:
  "\<not> te_redis env \<Longrightarrow> snd (resolve_line_tax L env slug by_sku fb l c) = direct_line_tax L env slug by_sku fb l"
  by (simp add: resolve_line_tax_def direct_line_tax_def Let_def try_code_uncached)

lemma resolve_lines_coherent:
  assumes "coherent env c" "slug_ok slug"
  shows "snd (resolve_lines L env slug by_sku fb ls c) = map (direct_line_tax L env slug by_sku fb) ls \<and>
    coherent env (fst (resolve_lines L env slug by_sku fb ls c))"
  using assms(1)
  by (induction ls arbitrary: c) (simp_all add: Let_def resolve_line_coherent assms(2))

lemma resolve_lines_uncached:
  "\<not> te_redis env \<Longrightarrow> snd (resolve_lines L env slug by_sku fb ls c) = map (direct_line_tax L env slug by_sku fb) ls"
  by (induction ls arbitrary: c) (simp_all add: Let_def resolve_line_uncached)

lemma length_resolve_lines [simp]: "length (snd (resolve_lines L env slug by_sku fb ls c)) = length ls"
  by (induction ls arbitrary: c) (simp_all add: Let_def)

lemma no_redis_tax:
  "treasury_code (env\<lparr>te_redis := r\<rparr>) = treasury_code env" "treasury_vat (env\<lparr>te_redis := r\<rparr>) = treasury_vat env"
  "compute_line_tax (env\<lparr>te_redis := r\<rparr>) = compute_line_tax env"
  "te_band_non_vat (env\<lparr>te_redis := r\<rparr>) = te_band_non_vat env" "te_treasury (env\<lparr>te_redis := r\<rparr>) = te_treasury env"
  "te_resolver (env\<lparr>te_redis := r\<rparr>) = te_resolver env"
  by (simp_all add: fun_eq_iff treasury_code_def treasury_vat_def compute_line_tax_def)

lemma no_redis_tiers:
  "coded_tax (env\<lparr>te_redis := r\<rparr>) = coded_tax env" "till_rate (env\<lparr>te_redis := r\<rparr>) = till_rate env"
  "fallback_rate L (env\<lparr>te_redis := r\<rparr>) = fallback_rate L env"
  by (intro ext; unfold coded_tax_def till_rate_def fallback_rate_def treasury_tax_def no_redis_tax; rule refl)+

lemma direct_no_redis: "direct_line_tax L (env\<lparr>te_redis := r\<rparr>) = direct_line_tax L env"
  by (intro ext; unfold direct_line_tax_def no_redis_tiers no_redis_tax; rule refl)

definition sample_tax_env :: tax_env where
  "sample_tax_env = \<lparr>te_resolver = True, te_treasury = True, te_redis = True, te_get_ok = (\<lambda>_. True),
     te_set_ok = (\<lambda>_. True), te_del_ok = (\<lambda>_. True), te_matches = star_match,
     te_code = (\<lambda>slug code. if code = ''VAT-16''
        then Inr (Some \<lparr>ti_code = ''VAT-16'', ti_rate = 16, ti_kra_code = ''B'', ti_type = ''vat''\<rparr>) else Inr None),
     te_profile = (\<lambda>slug. Inr (Some \<lparr>tp_vat_active = True, tp_etims_activated = True, tp_kra_pin = ''P051''\<rparr>)),
     te_split = percent_split, te_band_non_vat = ''D''\<rparr>"

definition empty_cache :: tax_cache where
  "empty_cache = \<lparr>tc_codes = Map.empty, tc_vat = Map.empty, tc_pins = Map.empty\<rparr>"

definition taxed_input :: order_line_input where
  "taxed_input = \<lparr>li_catalog_item = 3, li_sku = ''SODA'', li_name = ''Soda'', li_category = ''Drinks'',
     li_quantity = 2, li_unit_price = 50, li_total_price = 100, li_tax_status = ''taxable'', li_tax_code = ''VAT-16'',
     li_inclusive = False, li_tax_rate = None, li_course = 0, li_metadata = [], li_modifiers = []\<rparr>"

definition no_fallback :: outlet_tax_fallback where
  "no_fallback = \<lparr>fb_code = [], fb_rate = 0\<rparr>"

lemma coherent_empty [simp]: "coherent env empty_cache"
  by (simp add: coherent_def coherent_codes_def coherent_vat_def empty_cache_def)

text \<open>
  C27. The Redis cache never shows. With a cache that agrees with treasury, pricing the tax of a list of
  lines gives each line what treasury's own answers give it, whichever Redis reads and writes fail,
  exactly as when Redis is not configured; and the cache it leaves agrees with treasury again. So a
  line's tax depends neither on the other lines nor on their order.
\<close>

theorem tax_cache_transparent:
  assumes "coherent env c" "slug_ok slug"
  shows "snd (resolve_line_taxes L env rows tid slug lines fb c)
      = map (direct_line_tax L env slug (tax_by_sku (line_overrides rows tid lines)) fb) lines
    \<and> snd (resolve_line_taxes L env rows tid slug lines fb c)
      = snd (resolve_line_taxes L (env\<lparr>te_redis := False\<rparr>) rows tid slug lines fb c')
    \<and> coherent env (fst (resolve_line_taxes L env rows tid slug lines fb c))"
  using resolve_lines_coherent [OF assms] resolve_lines_uncached [of "env\<lparr>te_redis := False\<rparr>"]
  by (simp add: resolve_line_taxes_def direct_no_redis)

theorem tax_cache_transparent_witness:
  "map rt_amount (snd (resolve_line_taxes shop_decimal sample_tax_env [] 2 ''acme'' [taxed_input, taxed_input] no_fallback empty_cache))
     = [16, 16]
   \<and> snd (resolve_line_taxes shop_decimal sample_tax_env [] 2 ''acme'' [taxed_input] no_fallback empty_cache)
     = snd (resolve_line_taxes shop_decimal (sample_tax_env\<lparr>te_redis := False\<rparr>) [] 2 ''acme'' [taxed_input] no_fallback empty_cache)"
proof -
  have slug: "slug_ok ''acme''" by code_simp
  have direct: "map rt_amount (map (direct_line_tax shop_decimal sample_tax_env ''acme''
      (tax_by_sku (line_overrides [] 2 [taxed_input, taxed_input])) no_fallback) [taxed_input, taxed_input]) = [16, 16]"
    by code_simp
  note both = tax_cache_transparent [OF coherent_empty slug]
  show ?thesis
    using direct conjunct1 [OF both] conjunct1 [OF conjunct2 [OF both]] by metis
qed

section \<open>An invalidation does its work\<close>

lemma resolve_absent:
  assumes "tc_codes c (code_key slug code) = None" "tc_vat c (vat_key slug) = None"
  shows "snd (resolve env slug code c) = treasury_tax env slug code"
  using assms
  by (auto simp: resolve_def resolve_code_def vat_active_def treasury_tax_def treasury_code_def treasury_vat_def
      redis_get_def Let_def split: option.split sum.split)

lemma invalidate_code_absent:
  assumes "te_redis env" "\<And>k. te_del_ok env k" "slug \<noteq> []" "code \<noteq> []"
  shows "tc_codes (invalidate_code env slug code c) (code_key slug code) = None"
    "tc_vat (invalidate_code env slug code c) (vat_key slug) = None"
  using assms by (simp_all add: invalidate_code_def redis_del_def Let_def)

context glob_lib begin

lemma pattern_code_key:
  "literal slug \<Longrightarrow> matches (code_key slug ''*'') (code_key slug code)"
  using star_end [of "''pos:tax:'' @ slug @ '':''" "code_key slug code"]
  by (simp add: code_key_def literal_def)

lemma pattern_all_codes:
  assumes "literal code"
  shows "matches (code_key ''*'' code) (code_key slug code)"
proof -
  have "literal ''pos:tax:''" "literal ('':'' @ code)" using assms by (auto simp: literal_def)
  from star [OF this, of "code_key slug code"] show ?thesis by (auto simp: code_key_def)
qed

lemma pattern_vat: "matches (vat_key ''*'') (vat_key slug)"
  using star_end [of "''pos:vatactive:''" "vat_key slug"] by (simp add: vat_key_def literal_def)

end

lemma invalidate_tenant_absent:
  assumes "glob_lib (te_matches env)" "te_redis env" "\<And>k. te_del_ok env k" "slug \<noteq> []" "literal slug"
  shows "tc_codes (invalidate_tenant env slug c) (code_key slug code) = None"
    "tc_vat (invalidate_tenant env slug c) (vat_key slug) = None"
  using assms glob_lib.pattern_code_key [OF assms(1) assms(5), of code]
  by (simp_all add: invalidate_tenant_def delete_by_pattern_def redis_del_def)

lemma invalidate_all_absent:
  assumes "glob_lib (te_matches env)" "te_redis env" "\<And>k. te_del_ok env k" "code \<noteq> []" "literal code"
  shows "tc_codes (invalidate_code_all_tenants env code c) (code_key slug code) = None"
    "tc_vat (invalidate_code_all_tenants env code c) (vat_key slug) = None"
  using assms glob_lib.pattern_all_codes [OF assms(1) assms(5), of slug] glob_lib.pattern_vat [OF assms(1), of slug]
  by (simp_all add: invalidate_code_all_tenants_def delete_by_pattern_def)

text \<open>
  C28. An invalidation does its work. Whatever the cache held, once a \<open>tax.code_updated\<close> event for a code
  has been handled, with the event's tenant mapped to its slug or not known here at all, the next
  resolution of that code for the tenant is treasury's present answer; and once a tenant-wide tax
  event has been handled so is the resolution of every code of the tenant.
\<close>

theorem invalidation_is_fresh:
  assumes "glob_lib (te_matches env)" "te_redis env" "\<And>k. te_del_ok env k"
    "slug \<noteq> []" "literal slug" "tv_payload_code e \<noteq> []" "literal (tv_payload_code e)"
    "slug_for_tenant slugs (event_tenant e) = slug \<or> slug_for_tenant slugs (event_tenant e) = []"
    "slug_for_tenant slugs (event_tenant e') = slug"
  shows "snd (resolve env slug (tv_payload_code e) (on_tax_code_updated env slugs (Some e) c))
      = treasury_tax env slug (tv_payload_code e)
    \<and> snd (resolve env slug code (on_tenant_tax_changed env slugs (Some e') c)) = treasury_tax env slug code"
proof
  show "snd (resolve env slug (tv_payload_code e) (on_tax_code_updated env slugs (Some e) c))
      = treasury_tax env slug (tv_payload_code e)"
    using assms by (auto simp: on_tax_code_updated_def Let_def
        intro!: resolve_absent invalidate_code_absent invalidate_all_absent)
  show "snd (resolve env slug code (on_tenant_tax_changed env slugs (Some e') c)) = treasury_tax env slug code"
    using assms by (auto simp: on_tenant_tax_changed_def Let_def intro!: resolve_absent invalidate_tenant_absent)
qed

definition stale_cache :: tax_cache where
  "stale_cache = \<lparr>tc_codes = [''pos:tax:acme:VAT-16'' \<mapsto> \<lparr>ti_code = ''VAT-16'', ti_rate = 14, ti_kra_code = ''B'', ti_type = ''vat''\<rparr>],
     tc_vat = [''pos:vatactive:acme'' \<mapsto> ''0''], tc_pins = Map.empty\<rparr>"

theorem invalidation_is_fresh_witness:
  "snd (resolve sample_tax_env ''acme'' ''VAT-16'' stale_cache) = Some \<lparr>ti_code = ''VAT-16'', ti_rate = 0, ti_kra_code = ''D'', ti_type = ''vat''\<rparr>
   \<and> snd (resolve sample_tax_env ''acme'' ''VAT-16''
        (on_tax_code_updated sample_tax_env Map.empty (Some \<lparr>tv_tenant = ''t1'', tv_payload_tenant = [], tv_payload_code = ''VAT-16''\<rparr>) stale_cache))
     = Some \<lparr>ti_code = ''VAT-16'', ti_rate = 16, ti_kra_code = ''B'', ti_type = ''vat''\<rparr>"
proof -
  let ?e = "\<lparr>tv_tenant = ''t1'', tv_payload_tenant = [], tv_payload_code = ''VAT-16''\<rparr>"
  let ?slugs = "[''t2'' \<mapsto> ''acme'']"
  let ?e' = "\<lparr>tv_tenant = ''t2'', tv_payload_tenant = [], tv_payload_code = []\<rparr>"
  have "snd (resolve sample_tax_env ''acme'' (tv_payload_code ?e) (on_tax_code_updated sample_tax_env ?slugs (Some ?e) stale_cache))
      = treasury_tax sample_tax_env ''acme'' (tv_payload_code ?e)"
  proof (rule conjunct1 [OF invalidation_is_fresh [where e' = ?e' and code = "''VAT-16''"]])
    show "glob_lib (te_matches sample_tax_env)" by (simp add: sample_tax_env_def star.glob_lib_axioms)
    show "te_redis sample_tax_env" "te_del_ok sample_tax_env k" for k by (simp_all add: sample_tax_env_def)
    show "literal ''acme''" "literal (tv_payload_code ?e)" by code_simp+
    show "slug_for_tenant ?slugs (event_tenant ?e) = ''acme'' \<or> slug_for_tenant ?slugs (event_tenant ?e) = []"
      "slug_for_tenant ?slugs (event_tenant ?e') = ''acme''" by code_simp+
  qed simp_all
  moreover have "treasury_tax sample_tax_env ''acme'' ''VAT-16'' = Some \<lparr>ti_code = ''VAT-16'', ti_rate = 16, ti_kra_code = ''B'', ti_type = ''vat''\<rparr>"
    by code_simp
  moreover have "snd (resolve sample_tax_env ''acme'' ''VAT-16'' stale_cache) = Some \<lparr>ti_code = ''VAT-16'', ti_rate = 0, ti_kra_code = ''D'', ti_type = ''vat''\<rparr>"
    by code_simp
  moreover have "on_tax_code_updated sample_tax_env ?slugs (Some ?e) stale_cache = on_tax_code_updated sample_tax_env Map.empty (Some ?e) stale_cache"
    by (simp add: on_tax_code_updated_def slug_for_tenant_def event_tenant_def)
  ultimately show ?thesis by simp
qed

section \<open>What is never taxed\<close>

lemma compute_line_tax_nonneg:
  "vat_lib (te_split env) \<Longrightarrow> 0 \<le> fst (compute_line_tax env amount rate incl)"
  by (simp add: compute_line_tax_def vat_lib.tax_nonneg)

lemma compute_line_tax_float:
  "vat_lib (te_split env) \<Longrightarrow> is_f64 (fst (compute_line_tax env amount rate incl))"
proof -
  have "is_f64 0" by (simp add: is_f64_def)
  then show "vat_lib (te_split env) \<Longrightarrow> ?thesis" by (simp add: compute_line_tax_def vat_lib.tax_float)
qed

definition tax_sound :: "resolved_line_tax \<Rightarrow> bool" where
  "tax_sound r \<longleftrightarrow> 0 \<le> rt_amount r \<and> is_f64 (rt_amount r) \<and> (rt_has_info r \<or> rt_rate r = 0 \<and> rt_amount r = 0)"

lemma tax_sound_no_tax [simp]:
  "tax_sound (no_tax\<lparr>rt_inclusive := b\<rparr>)" "tax_sound (no_tax\<lparr>rt_inclusive := b, rt_code_id := s\<rparr>)"
  "tax_sound (no_tax\<lparr>rt_inclusive := b, rt_has_info := True\<rparr>)"
  by (simp_all add: tax_sound_def no_tax_def is_f64_def)

lemma tax_sound_tiers:
  assumes "vat_lib (te_split env)" "tax_sound r"
  shows "tax_sound (snd (try_code env slug code incl amount r c))" "tax_sound (till_rate env l r)"
    "tax_sound (fallback_rate L env fb l r)"
  using assms
  by (auto simp: try_code_def till_rate_def fallback_rate_def tax_sound_def Let_def compute_line_tax_nonneg
      compute_line_tax_float split: option.split)

lemma resolve_line_sound:
  "vat_lib (te_split env) \<Longrightarrow> tax_sound (snd (resolve_line_tax L env slug by_sku fb l c))"
  by (auto simp: resolve_line_tax_def Let_def intro!: tax_sound_tiers)

lemma resolve_lines_sound:
  "vat_lib (te_split env) \<Longrightarrow> list_all tax_sound (snd (resolve_lines L env slug by_sku fb ls c))"
  by (induction ls arbitrary: c) (simp_all add: Let_def resolve_line_sound)

text \<open>
  The lines \<open>ResolveLineTaxes\<close> never taxes. The statuses are the two strings the code compares with; a
  line that says \<open>exempt\<close>, the value the comment of \<open>OrderLineInput.TaxStatus\<close> documents, is none of them
  (\<open>exempt_status_is_taxed\<close>).
\<close>

definition untaxable :: "(string \<rightharpoonup> string \<times> bool) \<Rightarrow> order_line_input \<Rightarrow> bool" where
  "untaxable by_sku l \<longleftrightarrow>
     li_tax_status l = ''tax_exempt'' \<or> li_tax_status l = ''zero_rated'' \<or>
     li_inclusive l \<and> line_tax_code by_sku l = [] \<and> li_tax_rate l = None"

lemma untaxable_resolution:
  "untaxable by_sku l \<Longrightarrow> rt_amount (snd (resolve_line_tax L env slug by_sku fb l c)) = 0"
  by (auto simp: untaxable_def resolve_line_tax_def no_tax_def line_inclusive_def till_rate_def fallback_rate_def Let_def)

lemma resolve_lines_nth:
  "i < length ls \<Longrightarrow> \<exists>c'. snd (resolve_lines L env slug by_sku fb ls c) ! i = snd (resolve_line_tax L env slug by_sku fb (ls ! i) c')"
proof (induction ls arbitrary: c i)
  case (Cons l ls)
  then show ?case by (cases i) (auto simp: Let_def)
qed simp

text \<open>
  C38. What is never taxed. For every list of lines and any cache, each line gets exactly one resolution;
  its tax is a non-negative float64, and zero unless a rate was definitely resolved; a line marked
  \<open>tax_exempt\<close> or \<open>zero_rated\<close> is untaxed (not one marked \<open>exempt\<close>, the documented value); and an
  inclusive line with no code of its own or of its SKU and no rate from the till is never taxed by the
  outlet's fallback.
\<close>

theorem line_taxes_sound:
  assumes "vat_lib (te_split env)"
  shows "let taxes = snd (resolve_line_taxes L env rows tid slug lines fb c)
    in length taxes = length lines \<and> list_all tax_sound taxes \<and>
       (\<forall>i < length lines. untaxable (tax_by_sku (line_overrides rows tid lines)) (lines ! i) \<longrightarrow> rt_amount (taxes ! i) = 0)"
  using resolve_lines_sound [OF assms] resolve_lines_nth [of _ lines L env slug "tax_by_sku (line_overrides rows tid lines)" fb c]
    untaxable_resolution [of "tax_by_sku (line_overrides rows tid lines)" _ L env slug fb]
  by (fastforce simp: resolve_line_taxes_def Let_def)

lemma line_taxes_shape:
  assumes "vat_lib (te_split env)"
  shows "length (snd (resolve_line_taxes L env rows tid slug lines fb c)) = length lines"
    "list_all tax_sound (snd (resolve_line_taxes L env rows tid slug lines fb c))"
  using resolve_lines_sound [OF assms] by (simp_all add: resolve_line_taxes_def)

definition vat_fallback :: outlet_tax_fallback where
  "vat_fallback = \<lparr>fb_code = [], fb_rate = 16 / 100\<rparr>"

theorem line_taxes_sound_witness:
  "map rt_amount (snd (resolve_line_taxes shop_decimal sample_tax_env [] 2 ''acme''
     [taxed_input, taxed_input\<lparr>li_tax_code := [], li_inclusive := True\<rparr>, taxed_input\<lparr>li_tax_status := ''zero_rated''\<rparr>]
     vat_fallback empty_cache)) = [16, 0, 0]"
proof -
  let ?ls = "[taxed_input, taxed_input\<lparr>li_tax_code := [], li_inclusive := True\<rparr>, taxed_input\<lparr>li_tax_status := ''zero_rated''\<rparr>]"
  let ?ts = "snd (resolve_line_taxes shop_decimal sample_tax_env [] 2 ''acme'' ?ls vat_fallback empty_cache)"
  have v: "vat_lib (te_split sample_tax_env)" by (simp add: sample_tax_env_def percent.vat_lib_axioms)
  note s = line_taxes_sound [OF v, of shop_decimal "[]" 2 "''acme''" ?ls vat_fallback empty_cache, unfolded Let_def]
  have u: "untaxable (tax_by_sku (line_overrides [] 2 ?ls)) (?ls ! 1)" "untaxable (tax_by_sku (line_overrides [] 2 ?ls)) (?ls ! 2)"
    by code_simp+
  have "rt_amount (?ts ! 1) = 0" "rt_amount (?ts ! 2) = 0" "length ?ts = 3"
    using s u by simp_all
  moreover have "rt_amount (?ts ! 0) = 16" by code_simp
  ultimately show ?thesis by (auto simp: numeral_3_eq_3 length_Suc_conv)
qed

text \<open>
  A tenant that is not registered for VAT charges none: whenever the cache agrees with treasury and
  the tenant's profile says VAT is not active, a line whose own code is a VAT code of treasury is
  recorded with rate 0, no tax and the non-VAT band, whatever rate the till sent and whatever the
  outlet's fallback is.
\<close>

theorem unregistered_tenant_charges_no_vat:
  assumes "coherent env c" "slug_ok slug" "te_resolver env" "te_treasury env" "\<not> treasury_vat env slug"
    "treasury_code env slug (li_tax_code l) = Some info" "ti_type info = ''vat''" "0 < ti_rate info"
    "li_tax_code l \<noteq> []" "li_tax_status l \<notin> {''tax_exempt'', ''zero_rated''}"
  shows "snd (resolve_line_tax L env slug by_sku fb l c)
    = \<lparr>rt_code_id = li_tax_code l, rt_kra_code = te_band_non_vat env, rt_rate = 0, rt_amount = 0,
       rt_inclusive = li_inclusive l, rt_has_info = True\<rparr>"
proof -
  have "treasury_tax env slug (li_tax_code l) = Some (info\<lparr>ti_rate := 0, ti_kra_code := te_band_non_vat env\<rparr>)"
    using assms by (simp add: treasury_tax_def)
  then show ?thesis
    using assms
    by (simp add: resolve_line_coherent direct_line_tax_def coded_tax_def till_rate_def fallback_rate_def line_tax_code_def
        line_inclusive_def compute_line_tax_def no_tax_def Let_def split: option.split)
qed

definition unregistered_env :: tax_env where
  "unregistered_env = sample_tax_env\<lparr>te_profile := (\<lambda>slug. Inr (Some \<lparr>tp_vat_active = False, tp_etims_activated = False, tp_kra_pin = []\<rparr>))\<rparr>"

theorem unregistered_tenant_charges_no_vat_witness:
  "rt_amount (snd (resolve_line_tax shop_decimal unregistered_env ''acme'' Map.empty vat_fallback (taxed_input\<lparr>li_tax_rate := Some 16\<rparr>) empty_cache)) = 0"
proof -
  let ?l = "taxed_input\<lparr>li_tax_rate := Some 16\<rparr>"
  have "snd (resolve_line_tax shop_decimal unregistered_env ''acme'' Map.empty vat_fallback ?l empty_cache)
    = \<lparr>rt_code_id = li_tax_code ?l, rt_kra_code = te_band_non_vat unregistered_env, rt_rate = 0, rt_amount = 0,
       rt_inclusive = li_inclusive ?l, rt_has_info = True\<rparr>"
  proof (rule unregistered_tenant_charges_no_vat [where info = "\<lparr>ti_code = ''VAT-16'', ti_rate = 16, ti_kra_code = ''B'', ti_type = ''vat''\<rparr>"])
    show "slug_ok ''acme''" "te_resolver unregistered_env" "te_treasury unregistered_env"
      "\<not> treasury_vat unregistered_env ''acme''"
      "treasury_code unregistered_env ''acme'' (li_tax_code ?l) = Some \<lparr>ti_code = ''VAT-16'', ti_rate = 16, ti_kra_code = ''B'', ti_type = ''vat''\<rparr>"
      "li_tax_code ?l \<noteq> []" "li_tax_status ?l \<notin> {''tax_exempt'', ''zero_rated''}" by code_simp+
  qed simp_all
  then show ?thesis by simp
qed

section \<open>Where the code departs from its comments\<close>

text \<open>
  The comment of \<open>OrderLineInput.TaxStatus\<close> names the values taxable, exempt and zero_rated;
  \<open>ResolveLineTaxes\<close> tests for tax_exempt, so a line marked exempt is taxed by the outlet's fallback.
\<close>

lemma exempt_status_is_taxed:
  "rt_amount (snd (resolve_line_tax shop_decimal sample_tax_env ''acme'' Map.empty vat_fallback
     (taxed_input\<lparr>li_tax_code := [], li_tax_status := ''exempt''\<rparr>) empty_cache)) = 16"
  by code_simp

text \<open>
  \<open>FiscalPin\<close> caches the empty PIN also when treasury could not be asked: until the entry expires the
  receipts of an activated tenant carry no fiscal identity. \<open>vatActive\<close> caches no such answer.
\<close>

lemma failed_pin_lookup_is_cached:
  assumes "te_redis env" "te_treasury env" "te_set_ok env (pin_key slug)" "te_get_ok env (pin_key slug)" "slug \<noteq> []"
    "tc_pins c (pin_key slug) = None" "te_profile env slug = Inl err"
  shows "snd (fiscal_pin (env\<lparr>te_profile := \<lambda>_. Inr (Some \<lparr>tp_vat_active = True, tp_etims_activated = True, tp_kra_pin = ''P051''\<rparr>)\<rparr>)
     slug (fst (fiscal_pin env slug c))) = []"
    and "tc_vat c (vat_key slug) = None \<Longrightarrow> fst (vat_active env slug c) = c"
  using assms by (simp_all add: fiscal_pin_def vat_active_def redis_get_def redis_set_def Let_def)

end
