(* ===== verification/Order_Lines.thy ===== *)
theory Order_Lines
  imports Order_Tax Order_Totals Kds_Route
begin

text \<open>
  How a requested line becomes a stored one, from \<open>internal/modules/orders\<close>: the server's variant
  snapshot (\<open>line_variants.go\<close>), and of \<open>service.go\<close> the modifier rows with their local mirror
  (\<open>createLineModifiers\<close>, \<open>resolveLocalModifier\<close>), the happy-hour annotation of each line
  (\<open>CreateOrder\<close>, \<open>recomputeStackedHappyHour\<close>) and the row itself. The inventory lookup, Redis faults,
  \<open>uuid.Parse\<close> and the happy-hour evaluator (a function field the promotions service sets) are
  arguments. The lemmas show that a client never chooses the variant snapshot, and that the modifier
  mirror holds one row per inventory option.
\<close>

section \<open>Variants\<close>

record variant_child =
  vc_id :: string
  vc_sku :: string
  vc_name :: string
  vc_attributes :: "(string \<times> string) list"
  vc_parent_id :: string
  vc_parent_sku :: string
  vc_parent_name :: string

definition no_variant :: variant_child where
  "no_variant = \<lparr>vc_id = [], vc_sku = [], vc_name = [], vc_attributes = [], vc_parent_id = [],
     vc_parent_sku = [], vc_parent_name = []\<rparr>"

definition variant_snapshot :: "variant_child \<Rightarrow> meta" where
  "variant_snapshot v =
     [(''id'', JStr (vc_id v)), (''sku'', JStr (vc_sku v)), (''name'', JStr (vc_name v))]
     @ (if vc_attributes v \<noteq> [] then [(''attributes'', JObj (map (\<lambda>(k, x). (k, JStr x)) (vc_attributes v)))] else [])
     @ (if vc_parent_id v \<noteq> [] then [(''parent_id'', JStr (vc_parent_id v))] else [])
     @ (if vc_parent_sku v \<noteq> [] then [(''parent_sku'', JStr (vc_parent_sku v))] else [])
     @ (if vc_parent_name v \<noteq> [] then [(''parent_name'', JStr (vc_parent_name v))] else [])"

text \<open>\<open>vn_inv\<close>: a resolver with an inventory client is wired.\<close>

record variant_env =
  vn_inv :: bool
  vn_redis :: bool
  vn_get_ok :: "string \<Rightarrow> bool"
  vn_set_ok :: "string \<Rightarrow> bool"
  vn_lookup :: "string list \<Rightarrow> string + (string \<rightharpoonup> variant_child)"
  vn_show :: "uuid \<Rightarrow> string"
  vn_parse :: "string \<Rightarrow> uuid option"

type_synonym variant_cache = "string \<rightharpoonup> variant_child"

definition variant_cache_key :: "variant_env \<Rightarrow> uuid \<Rightarrow> string \<Rightarrow> string" where
  "variant_cache_key env tid sku = ''pos:variant:'' @ vn_show env tid @ '':'' @ sku"

definition cached_variant :: "variant_env \<Rightarrow> uuid \<Rightarrow> variant_cache \<Rightarrow> string \<Rightarrow> variant_child option" where
  "cached_variant env tid c sku =
     (let k = variant_cache_key env tid sku in if vn_redis env \<and> vn_get_ok env k then c k else None)"

definition cache_variant :: "variant_env \<Rightarrow> uuid \<Rightarrow> (string \<rightharpoonup> variant_child) \<Rightarrow> string \<Rightarrow> variant_cache \<Rightarrow> variant_cache" where
  "cache_variant env tid found sku c =
     (let k = variant_cache_key env tid sku
      in if vn_redis env \<and> vn_set_ok env k
         then c(k \<mapsto> (case found sku of Some v \<Rightarrow> v | None \<Rightarrow> no_variant)) else c)"

definition resolve_variants ::
  "variant_env \<Rightarrow> uuid \<Rightarrow> string list \<Rightarrow> variant_cache \<Rightarrow> variant_cache \<times> (string \<rightharpoonup> variant_child)" where
  "resolve_variants env tid skus c =
     (if \<not> vn_inv env \<or> skus = [] then (c, Map.empty)
      else
        (let hits = fold (\<lambda>sku m. case cached_variant env tid c sku of
                Some v \<Rightarrow> if vc_id v \<noteq> [] then m(sku \<mapsto> v) else m | None \<Rightarrow> m) skus Map.empty;
             missing = filter (\<lambda>sku. cached_variant env tid c sku = None) skus
         in if missing = [] then (c, hits)
            else case vn_lookup env missing of
              Inl e \<Rightarrow> (c, hits)
            | Inr found \<Rightarrow>
                (fold (cache_variant env tid found) missing c,
                 fold (\<lambda>sku m. case found sku of Some v \<Rightarrow> m(sku \<mapsto> v) | None \<Rightarrow> m) missing hits)))"

definition stamp_variant :: "variant_env \<Rightarrow> (string \<rightharpoonup> variant_child) \<Rightarrow> order_line_input \<Rightarrow> order_line_input" where
  "stamp_variant env found l =
     (case found (li_sku l) of
        Some v \<Rightarrow>
          l\<lparr>li_metadata := meta_set ''variant'' (JObj (variant_snapshot v)) (li_metadata l),
            li_catalog_item :=
              (if li_catalog_item l = uuid_nil
               then (case vn_parse env (vc_id v) of Some i \<Rightarrow> i | None \<Rightarrow> uuid_nil) else li_catalog_item l)\<rparr>
      | None \<Rightarrow> l)"

definition drop_variant :: "order_line_input \<Rightarrow> order_line_input" where
  "drop_variant l = l\<lparr>li_metadata := meta_del ''variant'' (li_metadata l)\<rparr>"

text \<open>The SKUs in the order of their first occurrence.\<close>

definition stamp_line_variants ::
  "variant_env \<Rightarrow> uuid \<Rightarrow> order_line_input list \<Rightarrow> variant_cache \<Rightarrow> variant_cache \<times> order_line_input list" where
  "stamp_line_variants env tid lines c =
     (let lines = map drop_variant lines;
          skus = rev (remdups (rev (filter (\<lambda>s. s \<noteq> []) (map li_sku lines))));
          r = resolve_variants env tid skus c
      in if \<not> vn_inv env \<or> skus = [] then (c, lines)
         else (fst r, map (stamp_variant env (snd r)) lines))"

section \<open>Modifiers\<close>

record modifier_group =
  mg_id :: uuid
  mg_tenant :: uuid
  mg_name :: string
  mg_inventory_id :: uuid

record modifier_row =
  mr_id :: uuid
  mr_group :: uuid
  mr_name :: string
  mr_price :: f64
  mr_option :: uuid

record line_modifier =
  lx_line :: uuid
  lx_modifier :: uuid
  lx_name :: string
  lx_price :: f64

record modifier_db =
  md_groups :: "modifier_group list"
  md_modifiers :: "modifier_row list"
  md_lines :: "line_modifier list"

text \<open>
  \<open>mf_group\<close> and \<open>mf_modifier\<close> are the ids new mirror rows get, \<open>mf_parse\<close> is \<open>uuid.Parse\<close>. A query by
  inventory id finds one row, none, or (\<open>ent\<close>'s \<open>Only\<close> on several) fails, which skips the selection.
\<close>

record modifier_env =
  mf_group :: "uuid \<Rightarrow> uuid"
  mf_modifier :: "uuid \<Rightarrow> uuid"
  mf_parse :: "string \<Rightarrow> uuid option"

definition resolve_local_modifier ::
  "modifier_env \<Rightarrow> uuid \<Rightarrow> line_modifier_input \<Rightarrow> modifier_db \<Rightarrow> uuid option \<times> modifier_db" where
  "resolve_local_modifier env tid m db =
     (case filter (\<lambda>r. mr_option r = lm_option_id m) (md_modifiers db) of
        [r] \<Rightarrow> (Some (mr_id r), db)
      | _ # _ # _ \<Rightarrow> (None, db)
      | [] \<Rightarrow>
          (case mf_parse env (lm_group_id m) of
             None \<Rightarrow> (None, db)
           | Some gid \<Rightarrow>
               (let add = (\<lambda>g db. (Some (mf_modifier env (lm_option_id m)),
                       db\<lparr>md_modifiers := md_modifiers db @ [\<lparr>mr_id = mf_modifier env (lm_option_id m), mr_group = g,
                            mr_name = lm_option_name m, mr_price = lm_price_adjustment m, mr_option = lm_option_id m\<rparr>]\<rparr>));
                    name = (if lm_group_name m = [] then ''Modifiers'' else lm_group_name m)
                in case filter (\<lambda>g. mg_inventory_id g = gid) (md_groups db) of
                     [g] \<Rightarrow> add (mg_id g) db
                   | _ # _ # _ \<Rightarrow> (None, db)
                   | [] \<Rightarrow> add (mf_group env gid)
                       (db\<lparr>md_groups := md_groups db @ [\<lparr>mg_id = mf_group env gid, mg_tenant = tid, mg_name = name,
                            mg_inventory_id = gid\<rparr>]\<rparr>))))"

text \<open>
  One selection of \<open>createLineModifiers\<close>: the rows to insert so far, and the mirror. The bulk insert
  follows; \<open>ok\<close> says whether it succeeds. A failed statement aborts the transaction, so a fault in
  the mirror's own inserts is one of this bulk insert.
\<close>

definition collect_modifier ::
  "modifier_env \<Rightarrow> uuid \<Rightarrow> uuid \<Rightarrow> line_modifier_input \<Rightarrow> line_modifier list \<times> modifier_db \<Rightarrow> line_modifier list \<times> modifier_db" where
  "collect_modifier env tid line m acc =
     (if lm_option_id m = uuid_nil then acc
      else (let r = resolve_local_modifier env tid m (snd acc)
            in case fst r of
                 None \<Rightarrow> (fst acc, snd r)
               | Some i \<Rightarrow>
                   (fst acc @ [\<lparr>lx_line = line, lx_modifier = i,
                        lx_name = (if lm_option_name m = [] then lm_group_name m else lm_option_name m),
                        lx_price = lm_price_adjustment m\<rparr>], snd r)))"

definition create_line_modifiers ::
  "modifier_env \<Rightarrow> bool \<Rightarrow> uuid \<Rightarrow> uuid \<Rightarrow> line_modifier_input list \<Rightarrow> modifier_db \<Rightarrow> modifier_db option" where
  "create_line_modifiers env ok tid line mods db =
     (let r = fold (collect_modifier env tid line) mods ([], db)
      in if fst r = [] then Some (snd r)
         else if ok then Some ((snd r)\<lparr>md_lines := md_lines (snd r) @ fst r\<rparr>)
         else None)"

section \<open>Happy hour\<close>

record hh_line =
  hl_amount :: f64
  hl_free_qty :: f64
  hl_type :: string
  hl_label :: string

record hh_outcome =
  ho_promo :: uuid
  ho_name :: string
  ho_discount :: rat
  ho_by_sku :: "string \<rightharpoonup> hh_line"
  ho_contributing :: "uuid list"
  ho_per_promo :: "(uuid \<rightharpoonup> rat) option"

type_synonym timed_line = "order_line_input \<times> time"

definition input_total :: "dec_lib \<Rightarrow> order_line_input \<Rightarrow> rat" where
  "input_total L l = line_total L (li_total_price l) (li_unit_price l) (li_quantity l)"

definition hh_sku_total :: "dec_lib \<Rightarrow> (string \<rightharpoonup> hh_line) \<Rightarrow> order_line_input list \<Rightarrow> string \<Rightarrow> rat" where
  "hh_sku_total L by lines =
     fold (\<lambda>l m. if by (li_sku l) \<noteq> None then m(li_sku l := m (li_sku l) + input_total L l) else m) lines (\<lambda>_. 0)"

definition hh_share :: "dec_lib \<Rightarrow> hh_line \<Rightarrow> rat \<Rightarrow> rat \<Rightarrow> rat" where
  "hh_share L hh amount sku_total =
     (if sku_total > 0 then dec_round L 2 (dec_div L (of_float L (hl_amount hh) * amount) sku_total)
      else of_float L (hl_amount hh))"

definition hh_stamp :: "dec_lib \<Rightarrow> string \<Rightarrow> hh_line \<Rightarrow> rat \<Rightarrow> meta \<Rightarrow> meta" where
  "hh_stamp L promo hh share m =
     meta_set ''discount_amount'' (JNum (to_float L share))
       (meta_set ''happy_hour''
         (JObj [(''promo'', JStr promo), (''type'', JStr (hl_type hh)), (''label'', JStr (hl_label hh)),
                (''discount_amount'', JNum (to_float L share)), (''free_qty'', JNum (hl_free_qty hh))]) m)"

definition create_line_meta ::
  "dec_lib \<Rightarrow> string \<Rightarrow> (string \<rightharpoonup> hh_line) \<Rightarrow> (string \<Rightarrow> rat) \<Rightarrow> order_line_input \<Rightarrow> meta" where
  "create_line_meta L promo by totals l =
     (case by (li_sku l) of
        Some hh \<Rightarrow> hh_stamp L promo hh (hh_share L hh (input_total L l) (totals (li_sku l))) (li_metadata l)
      | None \<Rightarrow> li_metadata l)"

definition active_qty :: "order_line \<Rightarrow> f64" where
  "active_qty ol = (case ol_voided_qty ol of Some v \<Rightarrow> fl (ol_quantity ol - v) | None \<Rightarrow> ol_quantity ol)"

definition qty_fraction :: "order_line \<Rightarrow> f64" where
  "qty_fraction ol = (if ol_quantity ol > 0 then fl (active_qty ol / ol_quantity ol) else 1)"

definition timed_lines_from_persisted :: "pos_order \<Rightarrow> order_line list \<Rightarrow> timed_line list" where
  "timed_lines_from_persisted po lines =
     map (\<lambda>ol. (\<lparr>li_catalog_item = uuid_nil, li_sku = ol_sku ol, li_name = [], li_category = ol_category ol,
           li_quantity = active_qty ol, li_unit_price = ol_unit_price ol,
           li_total_price = fl (ol_total_price ol * qty_fraction ol), li_tax_status = [], li_tax_code = [],
           li_inclusive = False, li_tax_rate = None, li_course = 0, li_metadata = [], li_modifiers = []\<rparr>,
         case ol_created_at ol of Some t \<Rightarrow> t | None \<Rightarrow> po_created_at po))
       (filter (\<lambda>ol. active_qty ol > 0) lines)"

definition sku_active_total :: "dec_lib \<Rightarrow> (string \<rightharpoonup> hh_line) \<Rightarrow> order_line list \<Rightarrow> string \<Rightarrow> rat" where
  "sku_active_total L by lines =
     fold (\<lambda>ol m. if by (ol_sku ol) \<noteq> None \<and> active_qty ol > 0
                   then m(ol_sku ol := m (ol_sku ol) + of_float L (fl (ol_total_price ol * qty_fraction ol))) else m)
       lines (\<lambda>_. 0)"

definition restamp_line :: "dec_lib \<Rightarrow> hh_outcome \<Rightarrow> (string \<Rightarrow> rat) \<Rightarrow> order_line \<Rightarrow> order_line" where
  "restamp_line L out totals ol =
     (case ho_by_sku out (ol_sku ol) of
        Some hh \<Rightarrow>
          ol\<lparr>ol_metadata := hh_stamp L (ho_name out) hh
               (hh_share L hh (of_float L (fl (ol_total_price ol * qty_fraction ol))) (totals (ol_sku ol))) (ol_metadata ol)\<rparr>
      | None \<Rightarrow>
          if meta_get (ol_metadata ol) ''happy_hour'' = None then ol
          else ol\<lparr>ol_metadata := meta_del ''discount_amount'' (meta_del ''happy_hour'' (ol_metadata ol))\<rparr>)"

definition hh_order_meta :: "dec_lib \<Rightarrow> hh_outcome \<Rightarrow> meta \<Rightarrow> meta" where
  "hh_order_meta L out m =
     (if ho_discount out > 0 then
        (let m = meta_set ''happy_hour_discount'' (JNum (to_float L (ho_discount out))) m
         in if ho_name out \<noteq> [] then meta_set ''happy_hour_promo'' (JStr (ho_name out)) m else m)
      else meta_del ''happy_hour_promo'' (meta_del ''happy_hour_discount'' m))"

text \<open>
  \<open>recomputeStackedHappyHour\<close>: the discount, the order's metadata and the re-stamped lines. \<open>eval\<close> is
  the evaluator (\<open>None\<close> when none is wired); a failed write of a line fails the caller's transaction.
\<close>

definition recompute_stacked_happy_hour ::
  "dec_lib \<Rightarrow> (timed_line list \<Rightarrow> hh_outcome) option \<Rightarrow> pos_order \<Rightarrow> order_line list \<Rightarrow> rat \<times> meta \<times> order_line list" where
  "recompute_stacked_happy_hour L eval po lines =
     (case eval of
        None \<Rightarrow> (hh_amount_from_meta L (po_metadata po), po_metadata po, lines)
      | Some f \<Rightarrow>
          (let out = f (timed_lines_from_persisted po lines);
               totals = sku_active_total L (ho_by_sku out) lines
           in (ho_discount out, hh_order_meta L out (po_metadata po), map (restamp_line L out totals) lines)))"

section \<open>The stored line\<close>

definition kds_override_by_sku :: "catalog_override list \<Rightarrow> (string \<rightharpoonup> uuid)" where
  "kds_override_by_sku rows =
     fold (\<lambda>r m. case co_station r of Some s \<Rightarrow> m(co_sku r \<mapsto> s) | None \<Rightarrow> m) rows Map.empty"

definition store_line ::
  "dec_lib \<Rightarrow> router \<Rightarrow> (string \<rightharpoonup> uuid) \<Rightarrow> time \<Rightarrow> uuid \<Rightarrow> meta \<Rightarrow> order_line_input \<Rightarrow> resolved_line_tax \<Rightarrow> order_line" where
  "store_line L r pins now i m l t =
     \<lparr>ol_id = i, ol_created_at = Some now, ol_catalog_item = li_catalog_item l, ol_sku = li_sku l, ol_name = li_name l,
      ol_category = li_category l, ol_quantity = li_quantity l, ol_unit_price = li_unit_price l,
      ol_total_price = to_float L (input_total L l), ol_tax_code = rt_code_id t, ol_kra_code = rt_kra_code t,
      ol_tax_rate = (if rt_rate t > 0 then Some (rt_rate t) else None),
      ol_tax_amount = (if rt_amount t > 0 then Some (rt_amount t) else None),
      ol_inclusive = rt_inclusive t, ol_course = li_course l,
      ol_station = owner_or_fallback r (li_name l) (li_category l) (pins (li_sku l)),
      ol_metadata = m, ol_voided_qty = None\<rparr>"

section \<open>The client never chooses the variant\<close>

lemma length_stamp_variants [simp]: "length (snd (stamp_line_variants env tid lines c)) = length lines"
  by (simp add: stamp_line_variants_def Let_def)

lemma stamp_variant_meta:
  "meta_get (li_metadata (stamp_variant env found (drop_variant l))) ''variant''
     = map_option (\<lambda>v. JObj (variant_snapshot v)) (found (li_sku l))"
  by (simp add: stamp_variant_def drop_variant_def split: option.split)

lemma stamp_variant_keeps:
  "li_sku (stamp_variant env found l) = li_sku l" "li_total_price (stamp_variant env found l) = li_total_price l"
  "li_unit_price (stamp_variant env found l) = li_unit_price l" "li_quantity (stamp_variant env found l) = li_quantity l"
  "k \<noteq> ''variant'' \<Longrightarrow> meta_get (li_metadata (stamp_variant env found l)) k = meta_get (li_metadata l) k"
  by (simp_all add: stamp_variant_def split: option.split)

lemma drop_variant_keeps:
  "li_sku (drop_variant l) = li_sku l" "li_total_price (drop_variant l) = li_total_price l"
  "li_unit_price (drop_variant l) = li_unit_price l" "li_quantity (drop_variant l) = li_quantity l"
  "k \<noteq> ''variant'' \<Longrightarrow> meta_get (li_metadata (drop_variant l)) k = meta_get (li_metadata l) k"
  by (simp_all add: drop_variant_def)

lemma stamp_variants_shape:
  "\<exists>found. snd (stamp_line_variants env tid lines c) = map (stamp_variant env found \<circ> drop_variant) lines"
proof (cases "\<not> vn_inv env \<or> rev (remdups (rev (filter (\<lambda>s. s \<noteq> []) (map li_sku (map drop_variant lines))))) = []")
  case True
  have "stamp_variant env Map.empty l = l" for l by (simp add: stamp_variant_def)
  then have "snd (stamp_line_variants env tid lines c) = map (stamp_variant env Map.empty \<circ> drop_variant) lines"
    using True by (simp only: stamp_line_variants_def Let_def if_True snd_conv) simp
  then show ?thesis by blast
next
  case False
  then show ?thesis by (simp only: stamp_line_variants_def Let_def if_False snd_conv map_map) blast
qed

lemma resolve_variants_source:
  assumes "snd (resolve_variants env tid skus c) sku = Some v"
  shows "cached_variant env tid c sku = Some v \<or> (\<exists>missing found. vn_lookup env missing = Inr found \<and> found sku = Some v)"
proof -
  have hits: "fold (\<lambda>s m. case cached_variant env tid c s of Some v \<Rightarrow> if vc_id v \<noteq> [] then m(s \<mapsto> v) else m | None \<Rightarrow> m) ss m0 sku = Some v
      \<Longrightarrow> cached_variant env tid c sku = Some v \<or> m0 sku = Some v" for ss m0
    by (induction ss arbitrary: m0) (fastforce split: option.splits if_splits)+
  have fresh: "fold (\<lambda>s m. case found s of Some v \<Rightarrow> m(s \<mapsto> v) | None \<Rightarrow> m) ss m0 sku = Some v
      \<Longrightarrow> found sku = Some v \<or> m0 sku = Some v" for ss m0 and found :: "string \<rightharpoonup> variant_child"
    by (induction ss arbitrary: m0) (fastforce split: option.splits if_splits)+
  show ?thesis
    using assms hits [of skus Map.empty] fresh
    by (fastforce simp: resolve_variants_def Let_def split: if_splits sum.splits)
qed

section \<open>The modifier mirror\<close>

definition mirror_ok :: "modifier_db \<Rightarrow> bool" where
  "mirror_ok db \<longleftrightarrow> distinct (map mr_option (md_modifiers db)) \<and> distinct (map mg_inventory_id (md_groups db))"

lemma filter_key_cases:
  assumes "distinct (map f xs)"
  shows "filter (\<lambda>x. f x = k) xs = [] \<and> k \<notin> f ` set xs \<or> (\<exists>x \<in> set xs. filter (\<lambda>x. f x = k) xs = [x] \<and> f x = k)"
  using assms
proof (induction xs)
  case (Cons y ys)
  then show ?case
  proof (cases "f y = k")
    case True
    then have "filter (\<lambda>x. f x = k) ys = []" using Cons.prems by (auto simp: filter_empty_conv image_iff)
    then show ?thesis using True by simp
  qed auto
qed simp

lemma resolve_local_modifier_ok:
  assumes "mirror_ok db"
  shows "mirror_ok (snd (resolve_local_modifier env tid m db))"
proof -
  have m: "distinct (map mr_option (md_modifiers db))" and g: "distinct (map mg_inventory_id (md_groups db))"
    using assms by (simp_all add: mirror_ok_def)
  note mc = filter_key_cases [OF m, of "lm_option_id m"]
  show ?thesis
  proof (cases "filter (\<lambda>r. mr_option r = lm_option_id m) (md_modifiers db) = []")
    case False
    then show ?thesis using mc assms by (auto simp: resolve_local_modifier_def)
  next
    case True
    then have o: "lm_option_id m \<notin> mr_option ` set (md_modifiers db)" using mc by auto
    show ?thesis
    proof (cases "mf_parse env (lm_group_id m)")
      case None
      then show ?thesis using True assms by (simp add: resolve_local_modifier_def)
    next
      case (Some gid)
      show ?thesis
        using filter_key_cases [OF g, of gid]
      proof
        assume "filter (\<lambda>x. mg_inventory_id x = gid) (md_groups db) = [] \<and> gid \<notin> mg_inventory_id ` set (md_groups db)"
        then show ?thesis using True Some o m g
          by (auto simp: resolve_local_modifier_def mirror_ok_def Let_def)
      next
        assume "\<exists>x \<in> set (md_groups db). filter (\<lambda>x. mg_inventory_id x = gid) (md_groups db) = [x] \<and> mg_inventory_id x = gid"
        then show ?thesis using True Some o m g
          by (auto simp: resolve_local_modifier_def mirror_ok_def Let_def)
      qed
    qed
  qed
qed

lemma collect_modifiers_ok:
  "mirror_ok (snd acc) \<Longrightarrow> mirror_ok (snd (fold (collect_modifier env tid line) ms acc))"
proof (induction ms arbitrary: acc)
  case (Cons m ms)
  have "mirror_ok (snd (collect_modifier env tid line m acc))"
    using Cons.prems resolve_local_modifier_ok [of "snd acc" env tid m]
    by (auto simp: collect_modifier_def Let_def split: option.split)
  then show ?case using Cons.IH by simp
qed simp

lemma create_line_modifiers_ok:
  assumes "create_line_modifiers env ok tid line ms db = Some db'" "mirror_ok db"
  shows "mirror_ok db'"
  using assms collect_modifiers_ok [of "([], db)" env tid line ms]
  by (auto simp: create_line_modifiers_def Let_def mirror_ok_def split: if_splits)

lemma resolve_again:
  assumes "mirror_ok db" "resolve_local_modifier env tid m db = (Some i, db')" "lm_option_id m' = lm_option_id m"
  shows "resolve_local_modifier env' tid' m' db' = (Some i, db')"
proof -
  have ok: "mirror_ok db'" using resolve_local_modifier_ok [OF assms(1), of env tid m] assms(2) by simp
  have "\<exists>r \<in> set (md_modifiers db'). mr_option r = lm_option_id m \<and> mr_id r = i"
    using assms(2) by (auto simp: resolve_local_modifier_def Let_def filter_eq_Cons_iff split: list.splits option.splits)
  then obtain r where r: "r \<in> set (md_modifiers db')" "mr_option r = lm_option_id m" "mr_id r = i" by blast
  have "distinct (map mr_option (md_modifiers db'))" using ok by (simp add: mirror_ok_def)
  from filter_key_cases [OF this, of "lm_option_id m"]
  obtain x where x: "filter (\<lambda>x. mr_option x = lm_option_id m) (md_modifiers db') = [x]"
    using rev_image_eqI [OF r(1), of "lm_option_id m" mr_option] r(2) by auto
  have "r \<in> set (filter (\<lambda>x. mr_option x = lm_option_id m) (md_modifiers db'))" using r by simp
  then have "filter (\<lambda>x. mr_option x = lm_option_id m) (md_modifiers db') = [r]" unfolding x by simp
  then show ?thesis using r(3) assms(3) by (simp add: resolve_local_modifier_def)
qed

text \<open>
  The modifier mirror holds each inventory option once. However many lines are saved, with whatever
  selections and faults, no two local rows mirror the same inventory option or the same group; and
  once an option has a local row every later selection of it uses that row and adds nothing.
\<close>

theorem modifier_mirror_unique:
  assumes "mirror_ok db" "create_line_modifiers env ok tid line ms db = Some db'"
    "resolve_local_modifier env tid m db' = (Some i, db'')" "lm_option_id m' = lm_option_id m"
  shows "mirror_ok db' \<and> mirror_ok db'' \<and> resolve_local_modifier env' tid' m' db'' = (Some i, db'')"
proof -
  have ok: "mirror_ok db'" using create_line_modifiers_ok [OF assms(2,1)] .
  then have "mirror_ok db''" using resolve_local_modifier_ok [OF ok, of env tid m] assms(3) by simp
  then show ?thesis using ok resolve_again [OF ok assms(3,4)] by blast
qed

definition sample_modifier_env :: modifier_env where
  "sample_modifier_env = \<lparr>mf_group = (\<lambda>g. g + 1000), mf_modifier = (\<lambda>x. x + 2000),
     mf_parse = (\<lambda>s. if s = ''g7'' then Some 7 else None)\<rparr>"

definition extra_shot :: line_modifier_input where
  "extra_shot = \<lparr>lm_group_id = ''g7'', lm_group_name = ''Extras'', lm_option_id = 70, lm_option_name = ''Extra shot'', lm_price_adjustment = 50\<rparr>"

definition no_mirror :: modifier_db where
  "no_mirror = \<lparr>md_groups = [], md_modifiers = [], md_lines = []\<rparr>"

theorem modifier_mirror_unique_witness:
  "\<exists>db' db''. create_line_modifiers sample_modifier_env True 2 11 [extra_shot, extra_shot\<lparr>lm_option_id := 71\<rparr>] no_mirror = Some db' \<and>
     length (md_modifiers db') = 2 \<and> length (md_groups db') = 1 \<and>
     resolve_local_modifier sample_modifier_env 2 (extra_shot\<lparr>lm_group_id := ''bad''\<rparr>) db'' = (Some 2070, db'')"
proof -
  let ?c = "create_line_modifiers sample_modifier_env True 2 11 [extra_shot, extra_shot\<lparr>lm_option_id := 71\<rparr>] no_mirror"
  have ok: "case ?c of Some db' \<Rightarrow> length (md_modifiers db') = 2 \<and> length (md_groups db') = 1 \<and>
      fst (resolve_local_modifier sample_modifier_env 2 extra_shot db') = Some 2070 | None \<Rightarrow> False" by code_simp
  then obtain db' where c: "?c = Some db'" by (cases ?c) auto
  have f: "fst (resolve_local_modifier sample_modifier_env 2 extra_shot db') = Some 2070" using ok c by simp
  define db'' where "db'' = snd (resolve_local_modifier sample_modifier_env 2 extra_shot db')"
  have r: "resolve_local_modifier sample_modifier_env 2 extra_shot db' = (Some 2070, db'')"
    unfolding db''_def by (rule prod_eqI) (simp_all add: f)
  have "mirror_ok no_mirror" by (simp add: mirror_ok_def no_mirror_def)
  then have "resolve_local_modifier sample_modifier_env 2 (extra_shot\<lparr>lm_group_id := ''bad''\<rparr>) db'' = (Some 2070, db'')"
    using modifier_mirror_unique [OF _ c r, of "extra_shot\<lparr>lm_group_id := ''bad''\<rparr>"] by simp
  moreover have "length (md_modifiers db') = 2" "length (md_groups db') = 1" using ok c by simp_all
  ultimately show ?thesis using c by blast
qed

text \<open>
  The client never chooses a line's variant. After the stamp, a line's \<open>metadata.variant\<close> is the
  server's snapshot of the variant the cache or inventory knows for its SKU, and absent when they know
  none, whatever the client sent; no price, quantity, SKU or other metadata of the line changes.
\<close>

theorem variant_is_servers:
  assumes "snd (stamp_line_variants env tid lines c) = lines'" "i < length lines"
  shows "\<exists>found. meta_get (li_metadata (lines' ! i)) ''variant'' = map_option (\<lambda>v. JObj (variant_snapshot v)) found \<and>
      (\<forall>v. found = Some v \<longrightarrow>
         cached_variant env tid c (li_sku (lines ! i)) = Some v \<or>
         (\<exists>missing r. vn_lookup env missing = Inr r \<and> r (li_sku (lines ! i)) = Some v)) \<and>
      li_sku (lines' ! i) = li_sku (lines ! i) \<and> li_total_price (lines' ! i) = li_total_price (lines ! i) \<and>
      li_unit_price (lines' ! i) = li_unit_price (lines ! i) \<and> li_quantity (lines' ! i) = li_quantity (lines ! i) \<and>
      (\<forall>k. k \<noteq> ''variant'' \<longrightarrow> meta_get (li_metadata (lines' ! i)) k = meta_get (li_metadata (lines ! i)) k)"
proof -
  let ?skus = "rev (remdups (rev (filter (\<lambda>s. s \<noteq> []) (map li_sku (map drop_variant lines)))))"
  define found where "found = (if \<not> vn_inv env \<or> ?skus = [] then Map.empty else snd (resolve_variants env tid ?skus c))"
  have "stamp_variant env Map.empty l = l" for l by (simp add: stamp_variant_def)
  then have "lines' = map (\<lambda>l. stamp_variant env found (drop_variant l)) lines"
    using assms(1) unfolding found_def stamp_line_variants_def Let_def by (auto simp: comp_def)
  then have l: "lines' ! i = stamp_variant env found (drop_variant (lines ! i))" using assms(2) by simp
  have "cached_variant env tid c (li_sku (lines ! i)) = Some v \<or>
      (\<exists>missing r. vn_lookup env missing = Inr r \<and> r (li_sku (lines ! i)) = Some v)"
    if "found (li_sku (lines ! i)) = Some v" for v
    using that resolve_variants_source by (auto simp: found_def split: if_splits)
  then show ?thesis
    unfolding l by (intro exI [of _ "found (li_sku (lines ! i))"]) (simp add: stamp_variant_meta stamp_variant_keeps drop_variant_keeps)
qed

definition sample_variant :: variant_child where
  "sample_variant = no_variant\<lparr>vc_id := ''31'', vc_sku := ''TEE-M'', vc_name := ''T-shirt M'', vc_parent_sku := ''TEE''\<rparr>"

definition sample_variant_env :: variant_env where
  "sample_variant_env = \<lparr>vn_inv = True, vn_redis = True, vn_get_ok = (\<lambda>_. True), vn_set_ok = (\<lambda>_. True),
     vn_lookup = (\<lambda>skus. Inr (\<lambda>s. if s = ''TEE-M'' \<and> s \<in> set skus then Some sample_variant else None)),
     vn_show = (\<lambda>_. ''t''), vn_parse = (\<lambda>s. if s = ''31'' then Some 31 else None)\<rparr>"

theorem variant_is_servers_witness:
  "let l = snd (stamp_line_variants sample_variant_env 2
       [taxed_input\<lparr>li_sku := ''PEN'', li_metadata := [(''variant'', JStr ''forged''), (''notes'', JStr ''blue'')]\<rparr>] Map.empty) ! 0
   in meta_get (li_metadata l) ''variant'' = None \<and> meta_get (li_metadata l) ''notes'' = Some (JStr ''blue'')"
proof -
  let ?ls = "[taxed_input\<lparr>li_sku := ''PEN'', li_metadata := [(''variant'', JStr ''forged''), (''notes'', JStr ''blue'')]\<rparr>]"
  obtain found where f: "meta_get (li_metadata (snd (stamp_line_variants sample_variant_env 2 ?ls Map.empty) ! 0)) ''variant''
      = map_option (\<lambda>v. JObj (variant_snapshot v)) found"
    "\<And>v. found = Some v \<Longrightarrow> cached_variant sample_variant_env 2 Map.empty ''PEN'' = Some v \<or>
       (\<exists>missing r. vn_lookup sample_variant_env missing = Inr r \<and> r ''PEN'' = Some v)"
    "\<And>k. k \<noteq> ''variant'' \<Longrightarrow> meta_get (li_metadata (snd (stamp_line_variants sample_variant_env 2 ?ls Map.empty) ! 0)) k
       = meta_get (li_metadata (?ls ! 0)) k"
    using variant_is_servers [OF refl, of 0 ?ls sample_variant_env 2 Map.empty] by auto
  have "found = None" using f(2) by (cases found) (auto simp: cached_variant_def sample_variant_env_def Let_def split: if_splits)
  then show ?thesis using f(1) f(3) [of "''notes''"] by (simp add: Let_def)
qed

end
