(* ===== verification/Promo_Rules.thy ===== *)
theory Promo_Rules
  imports Order_Lines
begin

text \<open>
  What one promotion rule takes off a cart: \<open>evaluateRule\<close> of \<open>internal/modules/promotions/service.go\<close>
  with its scopes, percentage, amount and price discounts, and the three pairings of "buy X get Y". A
  Go map is an association list with distinct keys; its iteration order is not fixed, and the amounts
  do not depend on it. \<open>sort.Slice\<close> is taken as a stable sort. Go's \<open>int\<close> is \<open>int\<close>: quantities and
  unit counts stay far below 64 bits.
\<close>

section \<open>Rules and lines\<close>

record promo_rule =
  rl_promotion :: uuid
  rl_scope_type :: string
  rl_scope_ids :: "string list"
  rl_get_scope_ids :: "string list"
  rl_pair_map :: "(string \<times> string) list"
  rl_type :: string
  rl_value :: f64
  rl_buy :: int
  rl_get :: int
  rl_percent :: f64
  rl_meal :: "string option"
  rl_max_discount :: "f64 option"

record discount_line =
  dl_sku :: string
  dl_category :: string
  dl_total :: rat
  dl_quantity :: f64
  dl_unit_price :: rat

record line_discount =
  ld_sku :: string
  ld_amount :: rat
  ld_free :: f64
  ld_type :: string
  ld_label :: string

type_synonym per_sku = "(string \<times> line_discount) list"

definition sku_key :: "string \<Rightarrow> string" where
  "sku_key s = to_lower (trim_space s)"

text \<open>\<open>int(x)\<close> of a float, and the quotient of two ints, truncate toward zero.\<close>

definition go_trunc :: "f64 \<Rightarrow> int" where
  "go_trunc x = (if x < 0 then - \<lfloor>- x\<rfloor> else \<lfloor>x\<rfloor>)"

definition go_quot :: "int \<Rightarrow> int \<Rightarrow> int" where
  "go_quot n c = (if n < 0 then - ((- n) div c) else n div c)"

text \<open>
  \<open>strconv.FormatFloat(f, 'f', -1, 64)\<close>: the fewest decimals that read back as the value (for values
  below \<open>2 ^ 53\<close> with at most 40 decimals, which discounts are).
\<close>

fun shortest_decimals :: "nat \<Rightarrow> nat \<Rightarrow> f64 \<Rightarrow> nat" where
  "shortest_decimals 0 n x = n"
| "shortest_decimals (Suc k) n x =
     (if fl (of_int (round_even (x * 10 ^ n)) / 10 ^ n) = x then n else shortest_decimals k (Suc n) x)"

definition trim_num :: "f64 \<Rightarrow> string" where
  "trim_num x =
     (let n = shortest_decimals 40 0 \<bar>x\<bar>; m = round_even (\<bar>x\<bar> * 10 ^ n);
          s = (if n = 0 then show_int m else show_int (m div 10 ^ n) @ ''.'' @ pad_int (int n) (m mod 10 ^ n))
      in if x < 0 then ''-'' @ s else s)"

definition count_at :: "'k \<Rightarrow> ('k \<times> rat) list \<Rightarrow> rat" where
  "count_at k m = (case map_of m k of Some v \<Rightarrow> v | None \<Rightarrow> 0)"

definition add_at :: "'k \<Rightarrow> rat \<Rightarrow> ('k \<times> rat) list \<Rightarrow> ('k \<times> rat) list" where
  "add_at k v m = AList.update k (count_at k m + v) m"

definition add_fl :: "'k \<Rightarrow> f64 \<Rightarrow> ('k \<times> f64) list \<Rightarrow> ('k \<times> f64) list" where
  "add_fl k v m = AList.update k (fl (count_at k m + v)) m"

section \<open>Percentage, amount and price discounts\<close>

definition rule_scoped :: "promo_rule \<Rightarrow> bool" where
  "rule_scoped r \<longleftrightarrow> rl_scope_ids r \<noteq> [] \<and> (rl_scope_type r = ''item'' \<or> rl_scope_type r = ''category'')"

definition in_scope :: "promo_rule \<Rightarrow> discount_line \<Rightarrow> bool" where
  "in_scope r l \<longleftrightarrow>
     (if \<not> rule_scoped r then True
      else if rl_scope_type r = ''item'' then sku_key (dl_sku l) \<in> sku_key ` set (rl_scope_ids r)
      else sku_key (dl_category l) \<in> sku_key ` set (rl_scope_ids r))"

definition rule_base :: "promo_rule \<Rightarrow> discount_line list \<Rightarrow> rat" where
  "rule_base r lines = sum_list (map dl_total (filter (in_scope r) lines))"

definition rule_amount :: "dec_lib \<Rightarrow> promo_rule \<Rightarrow> rat \<Rightarrow> (rat \<times> string) option" where
  "rule_amount L r base =
     (if rl_type r = ''percentage'' then
        Some (dec_div L (base * of_float L (rl_value r)) 100, trim_num (rl_value r) @ ''% off'')
      else if rl_type r = ''fixed_amount'' then
        Some (of_float L (rl_value r), ''KES '' @ trim_num (rl_value r) @ '' off'')
      else if rl_type r = ''fixed_price'' then
        Some (let amt_total = base - of_float L (rl_value r) in if amt_total < 0 then 0 else amt_total,
              ''Fixed price KES '' @ trim_num (rl_value r))
      else None)"

definition cap_discount :: "dec_lib \<Rightarrow> promo_rule \<Rightarrow> rat \<Rightarrow> rat" where
  "cap_discount L r amt_total =
     (case rl_max_discount r of
        Some c \<Rightarrow> if c > 0 \<and> amt_total > of_float L c then of_float L c else amt_total
      | None \<Rightarrow> amt_total)"

definition scope_totals :: "promo_rule \<Rightarrow> discount_line list \<Rightarrow> (string \<times> rat) list" where
  "scope_totals r lines = fold (\<lambda>l. add_at (dl_sku l) (dl_total l)) (filter (in_scope r) lines) []"

definition sku_shares :: "dec_lib \<Rightarrow> promo_rule \<Rightarrow> rat \<Rightarrow> rat \<Rightarrow> string \<Rightarrow> discount_line list \<Rightarrow> per_sku" where
  "sku_shares L r base amt_total label lines =
     map (\<lambda>(sku, t). (sku, \<lparr>ld_sku = sku, ld_amount = dec_round L 2 (dec_div L (amt_total * t) base), ld_free = 0,
            ld_type = rl_type r, ld_label = label\<rparr>))
       (filter (\<lambda>(sku, t). t > 0) (scope_totals r lines))"

definition plain_discount :: "dec_lib \<Rightarrow> promo_rule \<Rightarrow> discount_line list \<Rightarrow> rat \<times> per_sku" where
  "plain_discount L r lines =
     (let base = rule_base r lines
      in if base \<le> 0 then (0, [])
         else case rule_amount L r base of
           None \<Rightarrow> (0, [])
         | Some (amount, label) \<Rightarrow>
             (let amt_total = cap_discount L r amount;
                  amt_total = (if amt_total > base then base else amt_total)
              in (amt_total, if rule_scoped r \<and> amt_total > 0 then sku_shares L r base amt_total label lines else [])))"

section \<open>Buy X get Y\<close>

definition bogo_amount :: "dec_lib \<Rightarrow> f64 \<Rightarrow> rat \<Rightarrow> rat" where
  "bogo_amount L pct price = dec_round L 2 (price * of_float L (fl (pct / 100)))"

definition scope_lines :: "string list \<Rightarrow> discount_line list \<Rightarrow> discount_line list" where
  "scope_lines ids lines = filter (\<lambda>l. sku_key (dl_sku l) \<in> sku_key ` set ids) lines"

definition sku_quantities :: "discount_line list \<Rightarrow> (string \<times> f64) list" where
  "sku_quantities lines = fold (\<lambda>l. add_fl (dl_sku l) (dl_quantity l)) lines []"

definition last_price :: "discount_line list \<Rightarrow> string \<Rightarrow> rat" where
  "last_price lines = fold (\<lambda>l m. m(dl_sku l := dl_unit_price l)) lines (\<lambda>_. 0)"

definition same_sku_entry ::
  "dec_lib \<Rightarrow> int \<Rightarrow> int \<Rightarrow> f64 \<Rightarrow> string \<Rightarrow> (string \<Rightarrow> rat) \<Rightarrow> string \<times> f64 \<Rightarrow> per_sku" where
  "same_sku_entry L buy get pct label price q =
     (let pairs = go_quot (go_trunc (snd q)) (buy + get)
      in if pairs \<le> 0 then []
         else (let free = of_int (pairs * get);
                   amt = dec_round L 2 (price (fst q) * of_float L free * of_float L (fl (pct / 100)))
               in [(fst q, \<lparr>ld_sku = fst q, ld_amount = amt, ld_free = free, ld_type = ''bogo'', ld_label = label\<rparr>)]))"

definition per_sku_total :: "per_sku \<Rightarrow> rat" where
  "per_sku_total m = sum_list (map (ld_amount \<circ> snd) m)"

definition same_sku_bogo ::
  "dec_lib \<Rightarrow> promo_rule \<Rightarrow> discount_line list \<Rightarrow> int \<Rightarrow> int \<Rightarrow> f64 \<Rightarrow> string \<Rightarrow> rat \<times> per_sku" where
  "same_sku_bogo L r lines buy get pct label =
     (let ls = scope_lines (rl_scope_ids r) lines;
          per = concat (map (same_sku_entry L buy get pct label (last_price ls)) (sku_quantities ls))
      in (cap_discount L r (per_sku_total per), per))"

definition units_of :: "discount_line \<Rightarrow> nat" where
  "units_of l = nat (go_trunc (dl_quantity l))"

text \<open>One freed unit is added to its SKU's entry.\<close>

definition free_unit :: "dec_lib \<Rightarrow> f64 \<Rightarrow> string \<Rightarrow> string \<times> rat \<Rightarrow> per_sku \<Rightarrow> per_sku" where
  "free_unit L pct label u m =
     (let old = (case map_of m (fst u) of Some d \<Rightarrow> (ld_amount d, ld_free d) | None \<Rightarrow> (0, 0))
      in AList.update (fst u) \<lparr>ld_sku = fst u, ld_amount = fst old + bogo_amount L pct (snd u),
           ld_free = fl (snd old + 1), ld_type = ''bogo'', ld_label = label\<rparr> m)"

definition cross_item_bogo ::
  "dec_lib \<Rightarrow> promo_rule \<Rightarrow> discount_line list \<Rightarrow> int \<Rightarrow> int \<Rightarrow> f64 \<Rightarrow> string \<Rightarrow> rat \<times> per_sku" where
  "cross_item_bogo L r lines buy get pct label =
     (let bought = sum_fl 0 (map dl_quantity (scope_lines (rl_scope_ids r) lines));
          pairs = go_quot (go_trunc bought) buy;
          units = concat (map (\<lambda>l. replicate (units_of l) (dl_sku l, dl_unit_price l)) (scope_lines (rl_get_scope_ids r) lines))
      in if pairs \<le> 0 \<or> units = [] then (0, [])
         else (let freed = take (nat (pairs * get)) (sort_key snd units);
                   per = fold (free_unit L pct label) freed []
               in (cap_discount L r (sum_list (map (bogo_amount L pct \<circ> snd) freed)), per)))"

definition pair_map :: "promo_rule \<Rightarrow> (string \<times> string) list" where
  "pair_map r =
     fold (\<lambda>(k, v) m. if sku_key k = [] \<or> trim_space v = [] then m else AList.update (sku_key k) v m) (rl_pair_map r) []"

definition pair_quantities :: "(string \<times> string) list \<Rightarrow> discount_line list \<Rightarrow> (string \<times> f64) list" where
  "pair_quantities pairs lines =
     fold (\<lambda>l m. if map_of pairs (sku_key (dl_sku l)) \<noteq> None then add_fl (sku_key (dl_sku l)) (dl_quantity l) m else m) lines []"

definition unit_prices :: "discount_line list \<Rightarrow> string \<Rightarrow> rat list" where
  "unit_prices lines =
     fold (\<lambda>l m. m(sku_key (dl_sku l) := m (sku_key (dl_sku l)) @ replicate (units_of l) (dl_unit_price l))) lines (\<lambda>_. [])"

definition display_sku :: "discount_line list \<Rightarrow> string \<Rightarrow> string" where
  "display_sku lines = fold (\<lambda>l m. m(sku_key (dl_sku l) := dl_sku l)) lines (\<lambda>_. [])"

text \<open>
  One bought item of the corresponding pairs: what it earns of its mapped item, cheapest first; the
  freed units are consumed. A self-pair earns per \<open>buy + get\<close> units.
\<close>

definition pair_step ::
  "dec_lib \<Rightarrow> (string \<times> string) list \<Rightarrow> int \<Rightarrow> int \<Rightarrow> f64 \<Rightarrow> string \<times> f64
     \<Rightarrow> (string \<Rightarrow> rat list) \<times> (string \<times> rat list) list \<Rightarrow> (string \<Rightarrow> rat list) \<times> (string \<times> rat list) list" where
  "pair_step L pairs buy get pct q acc =
     (let gk = sku_key (case map_of pairs (fst q) of Some g \<Rightarrow> g | None \<Rightarrow> []);
          n = go_quot (go_trunc (snd q)) (if gk = fst q then buy + get else buy)
      in if n \<le> 0 then acc
         else (let avail = sort (fst acc gk); k = nat (n * get); freed = map (bogo_amount L pct) (take k avail)
               in ((fst acc)(gk := drop k avail),
                   if freed = [] then snd acc
                   else AList.update gk ((case map_of (snd acc) gk of Some xs \<Rightarrow> xs | None \<Rightarrow> []) @ freed) (snd acc))))"

definition pair_bogo ::
  "dec_lib \<Rightarrow> promo_rule \<Rightarrow> discount_line list \<Rightarrow> int \<Rightarrow> int \<Rightarrow> f64 \<Rightarrow> string \<Rightarrow> rat \<times> per_sku" where
  "pair_bogo L r lines buy get pct label =
     (let pairs = pair_map r
      in if pairs = [] then (0, [])
         else (let freed = snd (fold (pair_step L pairs buy get pct) (pair_quantities pairs lines) (unit_prices lines, []));
                   per = map (\<lambda>(gk, amts). (display_sku lines gk, \<lparr>ld_sku = display_sku lines gk, ld_amount = sum_list amts,
                            ld_free = of_nat (length amts), ld_type = ''bogo'', ld_label = label\<rparr>)) freed
               in (cap_discount L r (per_sku_total per), per)))"

definition bogo_label :: "int \<Rightarrow> int \<Rightarrow> f64 \<Rightarrow> string" where
  "bogo_label buy get pct =
     ''Buy '' @ show_int buy @ '' Get '' @ show_int get @ '' '' @ (if pct < 100 then trim_num pct @ ''% off'' else ''Free'')"

definition calculate_bogo_discount :: "dec_lib \<Rightarrow> promo_rule \<Rightarrow> discount_line list \<Rightarrow> rat \<times> per_sku" where
  "calculate_bogo_discount L r lines =
     (if rl_scope_type r \<noteq> ''item'' \<or> rl_scope_ids r = [] then (0, [])
      else
        (let buy = (if rl_buy r \<le> 0 then 1 else rl_buy r);
             get = (if rl_get r \<le> 0 then 1 else rl_get r);
             pct = (if rl_percent r \<le> 0 then 100 else rl_percent r);
             label = bogo_label buy get pct
         in if rl_pair_map r \<noteq> [] then pair_bogo L r lines buy get pct label
            else if rl_get_scope_ids r \<noteq> [] then cross_item_bogo L r lines buy get pct label
            else same_sku_bogo L r lines buy get pct label))"

definition evaluate_rule :: "dec_lib \<Rightarrow> promo_rule \<Rightarrow> discount_line list \<Rightarrow> rat \<times> per_sku" where
  "evaluate_rule L r lines =
     (if rl_type r = ''bogo'' then calculate_bogo_discount L r lines else plain_discount L r lines)"

end
