(* ===== verification/Promo_Combine.thy ===== *)
theory Promo_Combine
  imports Promo_Rules
begin

text \<open>
  When a promotion runs and how several add up: the schedule, the meal periods, and the timed, stacking
  evaluator of \<open>internal/modules/promotions/service.go\<close> (\<open>combineTimedDiscounts\<close>), with the query that
  loads the promotions and the adapter of \<open>internal/app/app.go\<close> that hands its result to
  \<open>CreateOrder\<close>. The time zone database is an argument: a zone gives the offset in seconds at an
  instant.
\<close>

section \<open>Schedules\<close>

record promotion =
  pm_id :: uuid
  pm_tenant :: uuid
  pm_outlet :: "uuid option"
  pm_name :: string
  pm_code :: "string option"
  pm_kind :: string
  pm_days :: "int list"
  pm_window_start :: string
  pm_window_end :: string
  pm_auto :: bool
  pm_status :: string
  pm_start :: time
  pm_end :: "time option"
  pm_usage_limit :: "int option"
  pm_max_units :: "int option"

type_synonym zone = "time \<Rightarrow> int"

text \<open>The zero \<open>time.Time\<close>: January 1 of year 1.\<close>

definition zero_time :: time where
  "zero_time = - 62135596800000000000"

definition local_secs :: "zone \<Rightarrow> time \<Rightarrow> int" where
  "local_secs off t = t div 1000000000 + off t"

definition weekday :: "zone \<Rightarrow> time \<Rightarrow> int" where
  "weekday off t = (local_secs off t div 86400 + 4) mod 7"

definition hhmm :: "zone \<Rightarrow> time \<Rightarrow> string" where
  "hhmm off t =
     (let s = local_secs off t mod 86400 in pad_int 2 (s div 3600) @ '':'' @ pad_int 2 (s div 60 mod 60))"

text \<open>Go compares strings byte by byte.\<close>

fun str_le :: "string \<Rightarrow> string \<Rightarrow> bool" where
  "str_le [] t = True"
| "str_le (c # s) [] = False"
| "str_le (c # s) (d # t) = (if c = d then str_le s t else (of_char c :: nat) < of_char d)"

definition is_within_schedule :: "zone \<Rightarrow> promotion \<Rightarrow> time \<Rightarrow> bool" where
  "is_within_schedule off p t \<longleftrightarrow>
     \<not> (pm_start p \<noteq> zero_time \<and> t < pm_start p) \<and>
     (case pm_end p of Some e \<Rightarrow> \<not> e < t | None \<Rightarrow> True) \<and>
     (pm_days p = [] \<or> weekday off t \<in> set (pm_days p)) \<and>
     (pm_window_start p = [] \<or> pm_window_end p = [] \<or>
      (let cur = hhmm off t
       in if str_le (pm_window_start p) (pm_window_end p)
          then str_le (pm_window_start p) cur \<and> str_le cur (pm_window_end p)
          else str_le cur (pm_window_end p) \<or> str_le (pm_window_start p) cur))"

definition meal_period_windows :: "string \<Rightarrow> (string \<times> string) option" where
  "meal_period_windows = map_of
     [(''breakfast'', ''06:00'', ''10:30''), (''am_break'', ''10:30'', ''11:30''), (''lunch'', ''11:30'', ''15:00''),
      (''pm_break'', ''15:00'', ''18:00''), (''dinner'', ''18:00'', ''22:30'')]"

definition is_within_meal_period :: "zone \<Rightarrow> promo_rule \<Rightarrow> time \<Rightarrow> bool" where
  "is_within_meal_period off r t \<longleftrightarrow>
     (case rl_meal r of
        None \<Rightarrow> True
      | Some m \<Rightarrow>
          (case meal_period_windows m of
             None \<Rightarrow> True
           | Some (a, b) \<Rightarrow> str_le a (hhmm off t) \<and> str_le (hhmm off t) b))"

definition runs_at :: "zone \<Rightarrow> promotion \<Rightarrow> promo_rule \<Rightarrow> time \<Rightarrow> bool" where
  "runs_at off p r t \<longleftrightarrow> is_within_schedule off p t \<and> is_within_meal_period off r t"

section \<open>Stacking\<close>

text \<open>A line with the time it was added; the zero time means now.\<close>

type_synonym timed_discount_line = "discount_line \<times> time"

definition added_when :: "time \<Rightarrow> timed_discount_line \<Rightarrow> time" where
  "added_when now tline = (if snd tline = zero_time then now else snd tline)"

definition bogo_buy_skus :: "promo_rule \<Rightarrow> string list" where
  "bogo_buy_skus r =
     (if rl_type r \<noteq> ''bogo'' \<or> rl_scope_type r \<noteq> ''item'' then []
      else filter (\<lambda>k. k \<noteq> [])
        (map sku_key (if rl_pair_map r \<noteq> [] then map fst (rl_pair_map r) else rl_scope_ids r)))"

definition newest_first :: "(promotion \<times> promo_rule) list \<Rightarrow> (promotion \<times> promo_rule) list" where
  "newest_first items = sort_key (\<lambda>it. - pm_start (fst it)) (sort_key (\<lambda>it. - int (pm_id (fst it))) items)"

record combine_state =
  cs_per_sku :: per_sku
  cs_owner :: "string \<rightharpoonup> uuid"
  cs_names :: "uuid \<rightharpoonup> string"
  cs_ledger :: "(uuid \<times> rat) list"
  cs_storewide :: rat
  cs_claimed :: "string \<rightharpoonup> time"

definition claim_line ::
  "zone \<Rightarrow> time \<Rightarrow> promotion \<Rightarrow> promo_rule \<Rightarrow> timed_discount_line
     \<Rightarrow> (string \<rightharpoonup> time) \<times> discount_line list \<Rightarrow> (string \<rightharpoonup> time) \<times> discount_line list" where
  "claim_line off now p r tline acc =
     (let k = sku_key (dl_sku (fst tline)); claimed = fst acc
      in if \<not> runs_at off p r (added_when now tline) then acc
         else if k \<in> set (bogo_buy_skus r)
         then (if (case claimed k of Some holder \<Rightarrow> pm_start p < holder | None \<Rightarrow> False) then acc
               else (claimed(k \<mapsto> pm_start p), snd acc @ [fst tline]))
         else (claimed, snd acc @ [fst tline]))"

definition merge_sku :: "uuid \<Rightarrow> string \<times> line_discount \<Rightarrow> combine_state \<Rightarrow> combine_state" where
  "merge_sku pid e cs =
     (let sku = fst e; ld = snd e;
          put = (\<lambda>ledger. cs\<lparr>cs_per_sku := AList.update sku ld (cs_per_sku cs), cs_owner := (cs_owner cs)(sku \<mapsto> pid),
                    cs_ledger := add_at pid (ld_amount ld) ledger\<rparr>)
      in case map_of (cs_per_sku cs) sku of
           None \<Rightarrow> put (cs_ledger cs)
         | Some old \<Rightarrow>
             if \<not> ld_amount ld > ld_amount old then cs
             else put (add_at (case cs_owner cs sku of Some prev \<Rightarrow> prev | None \<Rightarrow> uuid_nil) (- ld_amount old) (cs_ledger cs)))"

definition apply_deal ::
  "dec_lib \<Rightarrow> zone \<Rightarrow> time \<Rightarrow> timed_discount_line list \<Rightarrow> promotion \<times> promo_rule \<Rightarrow> combine_state \<Rightarrow> combine_state" where
  "apply_deal L off now lines it cs =
     (let p = fst it;
          e = fold (claim_line off now p (snd it)) lines (cs_claimed cs, []);
          cs = cs\<lparr>cs_claimed := fst e\<rparr>
      in if snd e = [] then cs
         else (let d = evaluate_rule L (snd it) (snd e);
                   named = cs\<lparr>cs_names := (cs_names cs)(pm_id p \<mapsto> pm_name p)\<rparr>
               in if snd d \<noteq> [] then fold (merge_sku (pm_id p)) (snd d) named
                  else if fst d > 0
                  then named\<lparr>cs_ledger := add_at (pm_id p) (fst d) (cs_ledger cs), cs_storewide := cs_storewide cs + fst d\<rparr>
                  else cs))"

definition no_deals :: combine_state where
  "no_deals = \<lparr>cs_per_sku = [], cs_owner = Map.empty, cs_names = Map.empty, cs_ledger = [], cs_storewide = 0,
     cs_claimed = Map.empty\<rparr>"

record auto_discount =
  au_promo :: uuid
  au_name :: string
  au_discount :: rat
  au_per_sku :: per_sku
  au_contributing :: "uuid list"
  au_ledger :: "(uuid \<times> rat) list option"

definition no_auto_discount :: auto_discount where
  "no_auto_discount = \<lparr>au_promo = uuid_nil, au_name = [], au_discount = 0, au_per_sku = [], au_contributing = [], au_ledger = None\<rparr>"

text \<open>The largest contributor; among equal ones the first the iteration meets.\<close>

definition best_contributor :: "(uuid \<times> rat) list \<Rightarrow> uuid \<times> rat" where
  "best_contributor ledger = fold (\<lambda>e best. if snd e > 0 \<and> snd e > snd best then e else best) ledger (uuid_nil, 0)"

definition order_subtotal :: "timed_discount_line list \<Rightarrow> rat" where
  "order_subtotal lines = sum_list (map (dl_total \<circ> fst) lines)"

definition combine_timed_discounts ::
  "dec_lib \<Rightarrow> zone \<Rightarrow> time \<Rightarrow> (promotion \<times> promo_rule) list \<Rightarrow> timed_discount_line list \<Rightarrow> auto_discount" where
  "combine_timed_discounts L off now items lines =
     (if items = [] \<or> lines = [] then no_auto_discount
      else
        (let cs = fold (apply_deal L off now lines) (newest_first items) no_deals;
             grand = cs_storewide cs + per_sku_total (cs_per_sku cs);
             best = fst (best_contributor (cs_ledger cs))
         in if grand \<le> 0 then no_auto_discount
            else \<lparr>au_promo = best, au_name = (case cs_names cs best of Some s \<Rightarrow> s | None \<Rightarrow> []),
                 au_discount = dec_round L 2 (if grand > order_subtotal lines then order_subtotal lines else grand),
                 au_per_sku = cs_per_sku cs, au_contributing = map fst (filter (\<lambda>e. snd e > 0) (cs_ledger cs)),
                 au_ledger = Some (cs_ledger cs)\<rparr>))"

section \<open>Loading the promotions\<close>

record promo_env =
  pe_dec :: dec_lib
  pe_promos :: "promotion list"
  pe_rules :: "promo_rule list"
  pe_query_ok :: bool
  pe_rule_ok :: "uuid \<Rightarrow> bool"
  pe_timezone :: "uuid \<Rightarrow> string option"
  pe_zone :: "string \<Rightarrow> zone option"
  pe_now :: time

definition outlet_timezone :: "promo_env \<Rightarrow> uuid option \<Rightarrow> zone" where
  "outlet_timezone env outlet =
     (let home = ''Africa/Nairobi'';
          tz = (case outlet of
                  Some i \<Rightarrow> (case pe_timezone env i of Some s \<Rightarrow> if s \<noteq> [] then s else home | None \<Rightarrow> home)
                | None \<Rightarrow> home)
      in case pe_zone env tz of
           Some z \<Rightarrow> z
         | None \<Rightarrow> (case pe_zone env home of Some z \<Rightarrow> z | None \<Rightarrow> (\<lambda>_. 0)))"

definition auto_apply_promo_kinds :: "string list" where
  "auto_apply_promo_kinds = [''happy_hour'', ''auto'']"

definition for_outlet :: "promotion \<Rightarrow> uuid option \<Rightarrow> bool" where
  "for_outlet p outlet \<longleftrightarrow> (case pm_outlet p of Some i \<Rightarrow> outlet = Some i | None \<Rightarrow> True)"

definition all_happy_hour_promos :: "promo_env \<Rightarrow> uuid \<Rightarrow> uuid option \<Rightarrow> promotion list option" where
  "all_happy_hour_promos env tid outlet =
     (if \<not> pe_query_ok env then None
      else Some (filter (\<lambda>p. pm_tenant p = tid \<and> pm_kind p \<in> set auto_apply_promo_kinds \<and> pm_status p = ''active'' \<and>
             pm_auto p \<and> for_outlet p outlet) (pe_promos env)))"

definition active_happy_hours :: "promo_env \<Rightarrow> uuid \<Rightarrow> uuid option \<Rightarrow> time \<Rightarrow> promotion list option" where
  "active_happy_hours env tid outlet now =
     map_option (filter (\<lambda>p. is_within_schedule (outlet_timezone env outlet) p now)) (all_happy_hour_promos env tid outlet)"

definition rule_of :: "promo_env \<Rightarrow> promotion \<Rightarrow> promo_rule option" where
  "rule_of env p = (if pe_rule_ok env (pm_id p) then find (\<lambda>r. rl_promotion r = pm_id p) (pe_rules env) else None)"

definition with_rules :: "promo_env \<Rightarrow> promotion list \<Rightarrow> (promotion \<times> promo_rule) list" where
  "with_rules env ps = List.map_filter (\<lambda>p. map_option (\<lambda>r. (p, r)) (rule_of env p)) ps"

definition evaluate_timed_order_discounts ::
  "promo_env \<Rightarrow> uuid \<Rightarrow> uuid \<Rightarrow> timed_discount_line list \<Rightarrow> auto_discount" where
  "evaluate_timed_order_discounts env tid outlet lines =
     (let oid = (if outlet \<noteq> uuid_nil then Some outlet else None)
      in if lines = [] then no_auto_discount
         else case all_happy_hour_promos env tid oid of
           None \<Rightarrow> no_auto_discount
         | Some ps \<Rightarrow>
             if ps = [] then no_auto_discount
             else combine_timed_discounts (pe_dec env) (outlet_timezone env oid) (pe_now env) (with_rules env ps) lines)"

definition evaluate_auto_discount :: "promo_env \<Rightarrow> uuid \<Rightarrow> uuid \<Rightarrow> discount_line list \<Rightarrow> auto_discount" where
  "evaluate_auto_discount env tid outlet lines =
     evaluate_timed_order_discounts env tid outlet (map (\<lambda>l. (l, zero_time)) lines)"

text \<open>\<open>LiveCheck\<close>: the rule is optional there; the zones it caches are those it would look up again.\<close>

definition live_check :: "promo_env \<Rightarrow> time \<Rightarrow> promotion \<Rightarrow> promo_rule option \<Rightarrow> bool" where
  "live_check env now p r =
     (let off = outlet_timezone env (pm_outlet p)
      in is_within_schedule off p now \<and> (case r of Some r \<Rightarrow> is_within_meal_period off r now | None \<Rightarrow> True))"

definition record_application :: "dec_lib \<Rightarrow> bool \<Rightarrow> uuid \<Rightarrow> uuid \<Rightarrow> rat \<Rightarrow> (uuid \<times> uuid \<times> f64) list \<Rightarrow> (uuid \<times> uuid \<times> f64) list" where
  "record_application L ok pid oid amount rows =
     (if pid = uuid_nil \<or> amount \<le> 0 \<or> \<not> ok then rows else rows @ [(pid, oid, to_float L amount)])"

section \<open>The adapter\<close>

definition to_discount_line :: "dec_lib \<Rightarrow> timed_line \<Rightarrow> timed_discount_line" where
  "to_discount_line L tline =
     (\<lparr>dl_sku = li_sku (fst tline), dl_category = li_category (fst tline), dl_total = of_float L (li_total_price (fst tline)),
       dl_quantity = li_quantity (fst tline), dl_unit_price = of_float L (li_unit_price (fst tline))\<rparr>, snd tline)"

definition happy_hour_evaluator :: "promo_env \<Rightarrow> uuid \<Rightarrow> uuid \<Rightarrow> timed_line list \<Rightarrow> hh_outcome" where
  "happy_hour_evaluator env tid outlet lines =
     (let r = evaluate_timed_order_discounts env tid outlet (map (to_discount_line (pe_dec env)) lines)
      in \<lparr>ho_promo = au_promo r, ho_name = au_name r, ho_discount = au_discount r,
          ho_by_sku = map_of (map (\<lambda>(sku, ld). (sku, \<lparr>hl_amount = to_float (pe_dec env) (ld_amount ld), hl_free_qty = ld_free ld,
             hl_type = ld_type ld, hl_label = ld_label ld\<rparr>)) (au_per_sku r)),
          ho_contributing = au_contributing r, ho_per_promo = map_option map_of (au_ledger r)\<rparr>)"

end
