(* ===== verification/Promo_Redeem.thy ===== *)
theory Promo_Redeem
  imports Promo_Combine
begin

text \<open>
  Redemption caps (\<open>internal/modules/promotions/redemption.go\<close>) and the promo code a customer types in
  (\<open>ApplyPromoCode\<close> of \<open>service.go\<close>, \<open>reserveOrderPromotion\<close> of \<open>handlers/orders.go\<close>). A reservation is
  given in its two statements, the check and the insert, since other sessions may insert between them.
  \<open>rn_null_sum\<close> is what the driver makes of \<open>SUM\<close> over no row: \<open>None\<close> when it refuses to read NULL into
  a float.
\<close>

section \<open>Caps\<close>

record redemption =
  rd_tenant :: uuid
  rd_promotion :: uuid
  rd_customer :: string
  rd_channel :: string
  rd_order :: string
  rd_quantity :: f64

record redeem_env =
  rn_promos :: "promotion list"
  rn_null_sum :: "f64 option"
  rn_load_ok :: bool
  rn_sum_ok :: bool
  rn_exist_ok :: bool
  rn_begin_ok :: bool
  rn_rollback_ok :: bool
  rn_insert_ok :: bool
  rn_commit_ok :: bool

datatype redeem_error = Promo_Not_Found | Redeem_Fault

datatype reserve_result = Reserved | Usage_Limit_Reached | Customer_Limit_Reached

definition promo_rows :: "uuid \<Rightarrow> uuid \<Rightarrow> redemption list \<Rightarrow> redemption list" where
  "promo_rows tid pid rows = filter (\<lambda>r. rd_tenant r = tid \<and> rd_promotion r = pid) rows"

definition sum_quantity :: "redeem_env \<Rightarrow> redemption list \<Rightarrow> f64 option" where
  "sum_quantity env rows =
     (if \<not> rn_sum_ok env then None
      else if rows = [] then rn_null_sum env
      else Some (sum_fl 0 (map rd_quantity rows)))"

definition cap_check ::
  "redeem_env \<Rightarrow> uuid \<Rightarrow> uuid \<Rightarrow> string \<Rightarrow> f64 \<Rightarrow> redemption list \<Rightarrow> redeem_error + reserve_result option" where
  "cap_check env tid pid customer quantity rows =
     (case (if rn_load_ok env then find (\<lambda>p. pm_id p = pid \<and> pm_tenant p = tid) (rn_promos env) else None) of
        None \<Rightarrow> Inl Promo_Not_Found
      | Some p \<Rightarrow>
          (let by_customer =
             (case pm_max_units p of
                Some m \<Rightarrow>
                  if customer = [] then Inr (Some Reserved)
                  else (case sum_quantity env (filter (\<lambda>r. rd_customer r = customer) (promo_rows tid pid rows)) of
                          None \<Rightarrow> Inl Redeem_Fault
                        | Some s \<Rightarrow> Inr (Some (if fl (s + quantity) > of_int m then Customer_Limit_Reached else Reserved)))
              | None \<Rightarrow> Inr (Some Reserved))
           in case pm_usage_limit p of
                None \<Rightarrow> if pm_max_units p = None then Inr None else by_customer
              | Some u \<Rightarrow>
                  (case sum_quantity env (promo_rows tid pid rows) of
                     None \<Rightarrow> Inl Redeem_Fault
                   | Some s \<Rightarrow> if fl (s + quantity) > of_int u then Inr (Some Usage_Limit_Reached) else by_customer)))"

definition preview_redemption ::
  "redeem_env \<Rightarrow> uuid \<Rightarrow> uuid \<Rightarrow> string \<Rightarrow> f64 \<Rightarrow> redemption list \<Rightarrow> redeem_error + reserve_result" where
  "preview_redemption env tid pid customer quantity rows =
     (case cap_check env tid pid customer quantity rows of
        Inl e \<Rightarrow> Inl e | Inr None \<Rightarrow> Inr Reserved | Inr (Some r) \<Rightarrow> Inr r)"

section \<open>Reservation\<close>

definition same_redemption :: "uuid \<Rightarrow> uuid \<Rightarrow> string \<Rightarrow> string \<Rightarrow> redemption \<Rightarrow> bool" where
  "same_redemption tid pid channel order r \<longleftrightarrow>
     rd_tenant r = tid \<and> rd_promotion r = pid \<and> rd_channel r = channel \<and> rd_order r = order"

text \<open>What a reservation decides from the rows it reads: done, refused, or to be inserted (\<open>None\<close>).\<close>

definition reserve_check ::
  "redeem_env \<Rightarrow> uuid \<Rightarrow> uuid \<Rightarrow> string \<Rightarrow> string \<Rightarrow> string \<Rightarrow> f64 \<Rightarrow> redemption list \<Rightarrow> redeem_error + reserve_result option" where
  "reserve_check env tid pid customer channel order quantity rows =
     (if quantity \<le> 0 then Inr (Some Reserved)
      else if \<not> rn_exist_ok env then Inl Redeem_Fault
      else if list_ex (same_redemption tid pid channel order) rows then Inr (Some Reserved)
      else if \<not> rn_begin_ok env then Inl Redeem_Fault
      else case cap_check env tid pid customer quantity rows of
        Inl e \<Rightarrow> Inl e
      | Inr (Some r) \<Rightarrow> if r = Reserved then Inr None else if rn_rollback_ok env then Inr (Some r) else Inl Redeem_Fault
      | Inr None \<Rightarrow> Inr None)"

definition reserve_insert ::
  "redeem_env \<Rightarrow> uuid \<Rightarrow> uuid \<Rightarrow> string \<Rightarrow> string \<Rightarrow> string \<Rightarrow> f64 \<Rightarrow> redemption list
     \<Rightarrow> (redeem_error + reserve_result) \<times> redemption list" where
  "reserve_insert env tid pid customer channel order quantity rows =
     (if list_ex (same_redemption tid pid channel order) rows then (Inr Reserved, rows)
      else if \<not> rn_insert_ok env \<or> \<not> rn_commit_ok env then (Inl Redeem_Fault, rows)
      else (Inr Reserved, rows @ [\<lparr>rd_tenant = tid, rd_promotion = pid, rd_customer = customer, rd_channel = channel,
              rd_order = order, rd_quantity = quantity\<rparr>]))"

definition reserve_redemption ::
  "redeem_env \<Rightarrow> uuid \<Rightarrow> uuid \<Rightarrow> string \<Rightarrow> string \<Rightarrow> string \<Rightarrow> f64 \<Rightarrow> redemption list
     \<Rightarrow> (redeem_error + reserve_result) \<times> redemption list" where
  "reserve_redemption env tid pid customer channel order quantity rows =
     (case reserve_check env tid pid customer channel order quantity rows of
        Inl e \<Rightarrow> (Inl e, rows)
      | Inr (Some r) \<Rightarrow> (Inr r, rows)
      | Inr None \<Rightarrow> reserve_insert env tid pid customer channel order quantity rows)"

text \<open>
  \<open>reserveOrderPromotion\<close>: the key of the order, else a fresh one, and the quantity of all its lines; a
  fault never blocks the sale. \<open>True\<close> when the order may be created.
\<close>

definition reserve_order_promotion ::
  "redeem_env \<Rightarrow> uuid \<Rightarrow> uuid \<Rightarrow> string \<Rightarrow> string \<Rightarrow> string \<Rightarrow> string \<Rightarrow> f64 list \<Rightarrow> redemption list
     \<Rightarrow> bool \<times> redemption list" where
  "reserve_order_promotion env tid pid phone client_ref number fresh quantities rows =
     (let order = (if client_ref \<noteq> [] then client_ref else if number \<noteq> [] then number else fresh);
          r = reserve_redemption env tid pid phone ''pos'' order (sum_fl 0 quantities) rows
      in (case fst r of Inl e \<Rightarrow> True | Inr x \<Rightarrow> x = Reserved, snd r))"

section \<open>Promo codes\<close>

record apply_result =
  ap_valid :: bool
  ap_code :: string
  ap_promo :: uuid
  ap_discount :: rat
  ap_per_sku :: per_sku
  ap_reason :: string
  ap_type :: string

definition refuse_code :: "string \<Rightarrow> uuid \<Rightarrow> string \<Rightarrow> apply_result" where
  "refuse_code code pid reason =
     \<lparr>ap_valid = False, ap_code = code, ap_promo = pid, ap_discount = 0, ap_per_sku = [], ap_reason = reason, ap_type = []\<rparr>"

definition schedule_reason :: "promotion \<Rightarrow> time \<Rightarrow> string" where
  "schedule_reason p now =
     (if pm_start p \<noteq> zero_time \<and> now < pm_start p then ''promotion has not started yet''
      else if (case pm_end p of Some e \<Rightarrow> e < now | None \<Rightarrow> False) then ''promotion has expired''
      else ''promotion is not currently active'')"

definition code_lines :: "zone \<Rightarrow> time \<Rightarrow> promotion \<Rightarrow> promo_rule \<Rightarrow> timed_discount_line list \<Rightarrow> discount_line list" where
  "code_lines off now p r lines = map fst (filter (\<lambda>l. runs_at off p r (added_when now l)) lines)"

definition apply_promo_code ::
  "promo_env \<Rightarrow> redeem_env \<Rightarrow> uuid \<Rightarrow> uuid option \<Rightarrow> string \<Rightarrow> timed_discount_line list \<Rightarrow> string \<Rightarrow> redemption list \<Rightarrow> apply_result" where
  "apply_promo_code env ren tid outlet code lines customer rows =
     (case (if pe_query_ok env
            then filter (\<lambda>p. pm_tenant p = tid \<and> pm_code p = Some code \<and> pm_status p = ''active'') (pe_promos env) else []) of
        [p] \<Rightarrow>
          (if \<not> for_outlet p outlet then refuse_code code (pm_id p) ''promotion is not available at this outlet''
           else
             (let off = outlet_timezone env (pm_outlet p); now = pe_now env
              in if \<not> is_within_schedule off p now then refuse_code code (pm_id p) (schedule_reason p now)
                 else case rule_of env p of
                   None \<Rightarrow> refuse_code code (pm_id p) ''promotion has no discount rule configured''
                 | Some r \<Rightarrow>
                     (let ls = code_lines off now p r lines
                      in if ls = [] then refuse_code code (pm_id p) ''no eligible items in cart for this code''
                         else case preview_redemption ren tid (pm_id p) customer (sum_fl 0 (map dl_quantity ls)) rows of
                           Inr Usage_Limit_Reached \<Rightarrow> refuse_code code (pm_id p) ''this promo code has reached its usage limit''
                         | Inr Customer_Limit_Reached \<Rightarrow>
                             refuse_code code (pm_id p) ''you've already used this promo code the maximum number of times''
                         | _ \<Rightarrow>
                             (if rl_type r = ''free_delivery''
                              then \<lparr>ap_valid = True, ap_code = code, ap_promo = pm_id p, ap_discount = 0, ap_per_sku = [],
                                     ap_reason = [], ap_type = rl_type r\<rparr>
                              else (let d = evaluate_rule (pe_dec env) r ls
                                    in if fst d \<le> 0 then refuse_code code (pm_id p) ''no eligible items in cart for this code''
                                       else \<lparr>ap_valid = True, ap_code = code, ap_promo = pm_id p,
                                              ap_discount = dec_round (pe_dec env) 2 (fst d), ap_per_sku = snd d,
                                              ap_reason = [], ap_type = rl_type r\<rparr>)))))
      | _ \<Rightarrow> refuse_code [] uuid_nil ''promo code not found or inactive'')"

end
