(* ===== verification/Promo_Caps.thy ===== *)
theory Promo_Caps
  imports Promo_Redeem "HOL-Library.Multiset"
begin

text \<open>
  What redemption caps promise (\<open>internal/modules/promotions/redemption.go\<close>) and which units the
  corresponding pairs of "buy X get Y" free: reservations that follow one another never exceed a cap and
  count an order once; interleaved ones still count it once, and may exceed the cap; the freed units are
  the cheapest, whatever the order a Go map is walked in.
\<close>

section \<open>Caps\<close>

record reservation =
  rv_env :: redeem_env
  rv_tenant :: uuid
  rv_promotion :: uuid
  rv_customer :: string
  rv_channel :: string
  rv_order :: string
  rv_quantity :: f64

definition reserve_one :: "reservation \<Rightarrow> redemption list \<Rightarrow> redemption list" where
  "reserve_one v rows =
     snd (reserve_redemption (rv_env v) (rv_tenant v) (rv_promotion v) (rv_customer v) (rv_channel v) (rv_order v) (rv_quantity v) rows)"

definition loaded_promo :: "redeem_env \<Rightarrow> uuid \<Rightarrow> uuid \<Rightarrow> promotion option" where
  "loaded_promo env tid pid = (if rn_load_ok env then find (\<lambda>p. pm_id p = pid \<and> pm_tenant p = tid) (rn_promos env) else None)"

text \<open>
  No promotion row that a reservation loads has other caps than these; either cap, both or none may be
  set.
\<close>

definition has_caps :: "uuid \<Rightarrow> uuid \<Rightarrow> int option \<Rightarrow> int option \<Rightarrow> reservation \<Rightarrow> bool" where
  "has_caps tid pid limit per_customer v \<longleftrightarrow>
     (case loaded_promo (rv_env v) tid pid of
        Some p \<Rightarrow> pm_usage_limit p = limit \<and> pm_max_units p = per_customer
      | None \<Rightarrow> True)"

definition within_cap :: "int \<Rightarrow> redemption list \<Rightarrow> bool" where
  "within_cap limit rows \<longleftrightarrow> rows = [] \<or> sum_fl 0 (map rd_quantity rows) \<le> of_int limit"

text \<open>The same for a cap that may not be set.\<close>

definition keeps_cap :: "int option \<Rightarrow> redemption list \<Rightarrow> bool" where
  "keeps_cap cap rows \<longleftrightarrow> (case cap of None \<Rightarrow> True | Some n \<Rightarrow> within_cap n rows)"

definition of_customer :: "string \<Rightarrow> redemption list \<Rightarrow> redemption list" where
  "of_customer c rows = filter (\<lambda>r. rd_customer r = c) rows"

definition redemption_key :: "redemption \<Rightarrow> uuid \<times> uuid \<times> string \<times> string" where
  "redemption_key r = (rd_tenant r, rd_promotion r, rd_channel r, rd_order r)"

lemma promo_rows_append [simp]: "promo_rows tid pid (xs @ ys) = promo_rows tid pid xs @ promo_rows tid pid ys"
  by (simp add: promo_rows_def)

lemma of_customer_append [simp]: "of_customer c (xs @ ys) = of_customer c xs @ of_customer c ys"
  by (simp add: of_customer_def)

lemma sum_quantity_Some:
  "sum_quantity env rows = Some s \<Longrightarrow> rows \<noteq> [] \<Longrightarrow> s = sum_fl 0 (map rd_quantity rows)"
  by (auto simp: sum_quantity_def split: if_splits)

lemma within_cap_snoc:
  assumes "sum_quantity env rows = Some s" "fl (s + rd_quantity r) \<le> of_int limit"
    "rows = [] \<Longrightarrow> s = 0"
  shows "within_cap limit (rows @ [r])"
  using assms sum_quantity_Some [OF assms(1)] by (cases "rows = []") (auto simp: within_cap_def sum_fl_append)

text \<open>
  A database that reads the sum over no row as a number reads it as zero; the row is inserted only when
  the caps leave room for it.
\<close>

definition new_row :: "reservation \<Rightarrow> redemption" where
  "new_row v = \<lparr>rd_tenant = rv_tenant v, rd_promotion = rv_promotion v, rd_customer = rv_customer v,
     rd_channel = rv_channel v, rd_order = rv_order v, rd_quantity = rv_quantity v\<rparr>"

lemma reserve_check_None:
  "reserve_check env tid pid c ch ord q rows = Inr None \<Longrightarrow>
     cap_check env tid pid c q rows \<in> {Inr None, Inr (Some Reserved)}"
  by (auto simp: reserve_check_def split: if_splits sum.splits option.splits)

lemma reserve_one_cases:
  obtains "reserve_one v rows = rows"
  | "reserve_one v rows = rows @ [new_row v]" "\<not> list_ex (same_redemption (rv_tenant v) (rv_promotion v) (rv_channel v) (rv_order v)) rows"
    "cap_check (rv_env v) (rv_tenant v) (rv_promotion v) (rv_customer v) (rv_quantity v) rows \<in> {Inr None, Inr (Some Reserved)}"
proof (cases "reserve_check (rv_env v) (rv_tenant v) (rv_promotion v) (rv_customer v) (rv_channel v) (rv_order v) (rv_quantity v) rows = Inr None")
  case True
  then have "reserve_one v rows = (if list_ex (same_redemption (rv_tenant v) (rv_promotion v) (rv_channel v) (rv_order v)) rows
      \<or> \<not> rn_insert_ok (rv_env v) \<or> \<not> rn_commit_ok (rv_env v) then rows else rows @ [new_row v])"
    by (simp add: reserve_one_def reserve_redemption_def reserve_insert_def new_row_def)
  then show ?thesis using that reserve_check_None [OF True] by (simp split: if_splits)
next
  case False
  then have "reserve_one v rows = rows"
    by (auto simp: reserve_one_def reserve_redemption_def split: sum.split option.split)
  then show ?thesis by (rule that(1))
qed

lemma cap_check_room:
  assumes "cap_check env tid pid c q rows \<in> {Inr None, Inr (Some Reserved)}"
    "loaded_promo env tid pid = Some p"
  shows "pm_usage_limit p = Some limit \<Longrightarrow> \<exists>s. sum_quantity env (promo_rows tid pid rows) = Some s \<and> fl (s + q) \<le> of_int limit"
    "pm_max_units p = Some per_customer \<Longrightarrow> c \<noteq> [] \<Longrightarrow>
       \<exists>s. sum_quantity env (of_customer c (promo_rows tid pid rows)) = Some s \<and> fl (s + q) \<le> of_int per_customer"
  using assms
  by (auto simp: cap_check_def loaded_promo_def [symmetric] of_customer_def [symmetric] Let_def split: option.splits if_splits)

lemma cap_check_loaded:
  "cap_check env tid pid c q rows \<in> {Inr None, Inr (Some Reserved)} \<Longrightarrow> loaded_promo env tid pid \<noteq> None"
  by (auto simp: cap_check_def loaded_promo_def [symmetric] split: option.splits)

definition caps_hold :: "uuid \<Rightarrow> uuid \<Rightarrow> int option \<Rightarrow> int option \<Rightarrow> redemption list \<Rightarrow> bool" where
  "caps_hold tid pid limit per_customer rows \<longleftrightarrow>
     keeps_cap limit (promo_rows tid pid rows) \<and>
     (\<forall>c. c \<noteq> [] \<longrightarrow> keeps_cap per_customer (of_customer c (promo_rows tid pid rows)))"

lemma reserve_one_caps:
  assumes "caps_hold tid pid limit per_customer rows" "has_caps tid pid limit per_customer v"
    "rn_null_sum (rv_env v) \<in> {None, Some 0}"
  shows "caps_hold tid pid limit per_customer (reserve_one v rows)"
proof (cases rule: reserve_one_cases [of v rows])
  case 2
  show ?thesis
  proof (cases "rv_tenant v = tid \<and> rv_promotion v = pid")
    case False
    then have "promo_rows tid pid (rows @ [new_row v]) = promo_rows tid pid rows"
      by (auto simp: promo_rows_def new_row_def)
    then show ?thesis using assms(1) 2(1) by (simp add: caps_hold_def)
  next
    case True
    obtain p where p: "loaded_promo (rv_env v) tid pid = Some p" "pm_usage_limit p = limit" "pm_max_units p = per_customer"
      using cap_check_loaded [OF 2(3)] assms(2) True by (auto simp: has_caps_def)
    have null: "sum_quantity (rv_env v) [] = Some s \<Longrightarrow> s = 0" for s
      using assms(3) by (auto simp: sum_quantity_def split: if_splits)
    have rows: "promo_rows tid pid (reserve_one v rows) = promo_rows tid pid rows @ [new_row v]"
      using 2(1) True by (simp add: promo_rows_def new_row_def)
    note room = cap_check_room [OF 2(3) [unfolded True [THEN conjunct1] True [THEN conjunct2]] p(1)]
    have "keeps_cap limit (promo_rows tid pid (reserve_one v rows))"
    proof (cases limit)
      case (Some n)
      with room(1) p(2) obtain s where s: "sum_quantity (rv_env v) (promo_rows tid pid rows) = Some s"
        "fl (s + rd_quantity (new_row v)) \<le> of_int n" by (auto simp: new_row_def)
      have z: "s = 0" if "promo_rows tid pid rows = []" using null s(1) that by simp
      show ?thesis unfolding rows keeps_cap_def using within_cap_snoc [OF s z] Some by simp
    qed (simp add: keeps_cap_def)
    moreover have "keeps_cap per_customer (of_customer c (promo_rows tid pid (reserve_one v rows)))" if "c \<noteq> []" for c
    proof (cases "rv_customer v = c")
      case True
      then have "of_customer c (promo_rows tid pid (reserve_one v rows)) = of_customer c (promo_rows tid pid rows) @ [new_row v]"
        by (simp add: rows of_customer_def new_row_def)
      note eq = this
      show ?thesis
      proof (cases per_customer)
        case (Some n)
        with room(2) p(3) that True obtain s where s: "sum_quantity (rv_env v) (of_customer c (promo_rows tid pid rows)) = Some s"
          "fl (s + rd_quantity (new_row v)) \<le> of_int n" by (auto simp: new_row_def)
        have z: "s = 0" if "of_customer c (promo_rows tid pid rows) = []" using null s(1) that by simp
        show ?thesis unfolding eq keeps_cap_def using within_cap_snoc [OF s z] Some by simp
      qed (simp add: keeps_cap_def)
    next
      case False
      then have "of_customer c (promo_rows tid pid (reserve_one v rows)) = of_customer c (promo_rows tid pid rows)"
        by (simp add: rows of_customer_def new_row_def)
      then show ?thesis using assms(1) that by (simp add: caps_hold_def)
    qed
    ultimately show ?thesis by (simp add: caps_hold_def)
  qed
qed (use assms(1) in simp)

lemma reserve_one_keys:
  assumes "distinct (map redemption_key rows)"
  shows "distinct (map redemption_key (reserve_one v rows))"
proof (cases rule: reserve_one_cases [of v rows])
  case 2
  then show ?thesis
    using assms by (auto simp: new_row_def redemption_key_def same_redemption_def list_ex_iff)
qed (use assms in simp)

text \<open>
  C11. Caps hold and an order counts once. From a table that respects a promotion's caps, any sequence of
  reservations that follow one another, of this and of other promotions, with whatever faults, on either
  channel and repeated at will, leaves one: if \<open>usage_limit\<close> is set the units redeemed in all stay within
  it, if \<open>max_units_per_customer\<close> is set those of any named customer stay within it (each cap on its own,
  or both), and no order of a channel is recorded twice. Reservations that overlap can exceed a cap
  (\<open>racing_reservations_exceed_cap\<close> below).
\<close>

theorem redemptions_within_caps:
  assumes "caps_hold tid pid limit per_customer rows" "distinct (map redemption_key rows)"
    "list_all (has_caps tid pid limit per_customer) vs" "list_all (\<lambda>v. rn_null_sum (rv_env v) \<in> {None, Some 0}) vs"
  shows "(case limit of None \<Rightarrow> True | Some n \<Rightarrow> within_cap n (promo_rows tid pid (fold reserve_one vs rows))) \<and>
    (\<forall>c. c = [] \<or> (case per_customer of None \<Rightarrow> True
       | Some n \<Rightarrow> within_cap n (of_customer c (promo_rows tid pid (fold reserve_one vs rows))))) \<and>
    distinct (map redemption_key (fold reserve_one vs rows))"
proof -
  have "caps_hold tid pid limit per_customer (fold reserve_one vs rows) \<and> distinct (map redemption_key (fold reserve_one vs rows))"
    using assms by (induction vs arbitrary: rows) (simp_all add: reserve_one_caps reserve_one_keys)
  then show ?thesis by (auto simp: caps_hold_def keeps_cap_def)
qed

definition tea_promo :: promotion where
  "tea_promo = \<lparr>pm_id = 1, pm_tenant = 9, pm_outlet = None, pm_name = ''Tea'', pm_code = Some ''TEA'', pm_kind = ''code'',
     pm_days = [], pm_window_start = [], pm_window_end = [], pm_auto = False, pm_status = ''active'', pm_start = zero_time,
     pm_end = None, pm_usage_limit = Some 3, pm_max_units = Some 2\<rparr>"

definition redeem_db :: redeem_env where
  "redeem_db = \<lparr>rn_promos = [tea_promo], rn_null_sum = Some 0, rn_load_ok = True, rn_sum_ok = True, rn_exist_ok = True,
     rn_begin_ok = True, rn_rollback_ok = True, rn_insert_ok = True, rn_commit_ok = True\<rparr>"

definition tea_order :: "string \<Rightarrow> string \<Rightarrow> f64 \<Rightarrow> reservation" where
  "tea_order c oid q = \<lparr>rv_env = redeem_db, rv_tenant = 9, rv_promotion = 1, rv_customer = c, rv_channel = ''pos'',
     rv_order = oid, rv_quantity = q\<rparr>"

definition tea_orders :: "reservation list" where
  "tea_orders = [tea_order ''ann'' ''A'' 2, tea_order ''ann'' ''A'' 2, tea_order ''ann'' ''B'' 1, tea_order ''bob'' ''C'' 1,
     tea_order ''bob'' ''D'' 1]"

text \<open>The same orders under both caps, and where only the total, or only the customer's share, is capped.\<close>

definition with_caps :: "int option \<Rightarrow> int option \<Rightarrow> reservation \<Rightarrow> reservation" where
  "with_caps limit per_customer v = v\<lparr>rv_env := redeem_db\<lparr>rn_promos := [tea_promo\<lparr>pm_usage_limit := limit, pm_max_units := per_customer\<rparr>]\<rparr>\<rparr>"

theorem redemptions_within_caps_witness:
  "map rd_order (fold reserve_one tea_orders []) = [''A'', ''C''] \<and>
   within_cap 3 (promo_rows 9 1 (fold reserve_one tea_orders [])) \<and>
   distinct (map redemption_key (fold reserve_one tea_orders [])) \<and>
   map rd_order (fold reserve_one (map (with_caps (Some 3) None) tea_orders) []) = [''A'', ''B''] \<and>
   within_cap 3 (promo_rows 9 1 (fold reserve_one (map (with_caps (Some 3) None) tea_orders) [])) \<and>
   map rd_order (fold reserve_one (map (with_caps None (Some 2)) tea_orders) []) = [''A'', ''C'', ''D''] \<and>
   within_cap 2 (of_customer ''ann'' (promo_rows 9 1 (fold reserve_one (map (with_caps None (Some 2)) tea_orders) [])))"
proof -
  have none: "caps_hold 9 1 u m []" for u m
    by (simp add: caps_hold_def keeps_cap_def within_cap_def promo_rows_def of_customer_def split: option.split)
  have c: "list_all (has_caps 9 1 (Some 3) (Some 2)) tea_orders" "list_all (\<lambda>v. rn_null_sum (rv_env v) \<in> {None, Some 0}) tea_orders"
    "list_all (has_caps 9 1 (Some 3) None) (map (with_caps (Some 3) None) tea_orders)"
    "list_all (\<lambda>v. rn_null_sum (rv_env v) \<in> {None, Some 0}) (map (with_caps (Some 3) None) tea_orders)"
    "list_all (has_caps 9 1 None (Some 2)) (map (with_caps None (Some 2)) tea_orders)"
    "list_all (\<lambda>v. rn_null_sum (rv_env v) \<in> {None, Some 0}) (map (with_caps None (Some 2)) tea_orders)"
    by code_simp+
  have k: "distinct (map redemption_key [])" by simp
  note both = redemptions_within_caps [OF none k c(1,2)]
    and total = redemptions_within_caps [OF none k c(3,4)]
    and share = redemptions_within_caps [OF none k c(5,6)]
  have "map rd_order (fold reserve_one tea_orders []) = [''A'', ''C'']"
    "map rd_order (fold reserve_one (map (with_caps (Some 3) None) tea_orders) []) = [''A'', ''B'']"
    "map rd_order (fold reserve_one (map (with_caps None (Some 2)) tea_orders) []) = [''A'', ''C'', ''D'']"
    by code_simp+
  moreover have "within_cap 2 (of_customer ''ann'' (promo_rows 9 1 (fold reserve_one (map (with_caps None (Some 2)) tea_orders) [])))"
    using share [THEN conjunct2, THEN conjunct1, rule_format, of "''ann''"] by simp
  ultimately show ?thesis using both total by simp
qed

text \<open>
  Finding. Two checkouts that overlap both find room for the last unit: the check reads the sum before
  either has inserted, and nothing locks the promotion. A cap of 3 ends at 4.
\<close>

lemma racing_reservations_exceed_cap:
  "reserve_check redeem_db 9 1 ''ann'' ''pos'' ''A'' 2 [] = Inr None \<and>
   reserve_check redeem_db 9 1 ''bob'' ''pos'' ''B'' 2 [] = Inr None \<and>
   \<not> within_cap 3 (promo_rows 9 1
        (snd (reserve_insert redeem_db 9 1 ''bob'' ''pos'' ''B'' 2 (snd (reserve_insert redeem_db 9 1 ''ann'' ''pos'' ''A'' 2 [])))))"
  by code_simp

text \<open>
  Interleaved at the level of the two statements, an order is still counted once: the unique index
  decides in the insert, whatever the check saw.
\<close>

lemma insert_keys:
  "distinct (map redemption_key rows) \<Longrightarrow> distinct (map redemption_key (snd (reserve_insert env tid pid c ch ord q rows)))"
  by (auto simp: reserve_insert_def redemption_key_def same_redemption_def list_ex_iff)

text \<open>
  Finding. Before its first redemption a capped promotion has no row to sum. Where the driver refuses
  to read the NULL of that sum into a float, the reservation fails, no row is ever written, and since a
  fault never blocks a sale the cap is never applied.
\<close>

lemma null_sum_disables_caps:
  assumes "rn_null_sum env = None" "\<And>p. loaded_promo env tid pid = Some p \<Longrightarrow> pm_usage_limit p \<noteq> None"
    "promo_rows tid pid rows = []" "0 < sum_fl 0 quantities"
  shows "reserve_order_promotion env tid pid phone ref number fresh quantities rows = (True, rows)"
proof -
  have "sum_quantity env (promo_rows tid pid rows) = None" using assms(1,3) by (simp add: sum_quantity_def)
  then have "\<exists>e. cap_check env tid pid phone q rows = Inl e" for q
    using assms(2) by (auto simp: cap_check_def loaded_promo_def [symmetric] Let_def split: option.split)
  moreover have "\<not> list_ex (same_redemption tid pid ''pos'' oid) rows" for oid
    using assms(3) by (auto simp: promo_rows_def same_redemption_def list_ex_iff filter_empty_conv)
  moreover obtain e where "cap_check env tid pid phone (sum_fl 0 quantities) rows = Inl e" using calculation(1) by blast
  ultimately have "\<exists>e. reserve_check env tid pid phone ''pos'' oid (sum_fl 0 quantities) rows = Inl e" for oid
    using assms(4) by (simp add: reserve_check_def)
  then obtain f where "reserve_check env tid pid phone ''pos'' oid (sum_fl 0 quantities) rows = Inl (f oid)" for oid
    by metis
  then show ?thesis by (simp add: reserve_order_promotion_def reserve_redemption_def Let_def)
qed

section \<open>Corresponding pairs free the cheapest units\<close>

text \<open>What a bought item maps to, and how many units it earns.\<close>

definition pair_target :: "(string \<times> string) list \<Rightarrow> string \<Rightarrow> string" where
  "pair_target pairs k = sku_key (case map_of pairs k of Some g \<Rightarrow> g | None \<Rightarrow> [])"

definition units_earned :: "(string \<times> string) list \<Rightarrow> int \<Rightarrow> int \<Rightarrow> string \<times> f64 \<Rightarrow> nat" where
  "units_earned pairs buy get q =
     (let n = go_quot (go_trunc (snd q)) (if pair_target pairs (fst q) = fst q then buy + get else buy)
      in if n \<le> 0 then 0 else nat (n * get))"

definition earned_of :: "(string \<times> string) list \<Rightarrow> int \<Rightarrow> int \<Rightarrow> string \<Rightarrow> (string \<times> f64) list \<Rightarrow> nat" where
  "earned_of pairs buy get gk qs =
     sum_list (map (units_earned pairs buy get) (filter (\<lambda>q. pair_target pairs (fst q) = gk) qs))"

definition freed_of :: "(string \<times> rat list) list \<Rightarrow> string \<Rightarrow> rat list" where
  "freed_of freed gk = (case map_of freed gk of Some xs \<Rightarrow> xs | None \<Rightarrow> [])"

lemma sort_sorted_drop [simp]: "sort (drop k (sort xs)) = drop k (sort (xs :: rat list))"
  by (simp add: sorted_sort_id sorted_wrt_drop)

lemma pair_step_units:
  "sort (fst (pair_step L pairs buy get pct q acc) gk) =
     drop (if pair_target pairs (fst q) = gk then units_earned pairs buy get q else 0) (sort (fst acc gk))"
  by (simp add: pair_step_def Let_def units_earned_def pair_target_def [symmetric])

lemma pair_step_freed:
  "freed_of (snd (pair_step L pairs buy get pct q acc)) gk = freed_of (snd acc) gk @
     map (bogo_amount L pct) (take (if pair_target pairs (fst q) = gk then units_earned pairs buy get q else 0) (sort (fst acc gk)))"
  by (auto simp: pair_step_def Let_def units_earned_def pair_target_def [symmetric] freed_of_def update_conv')

lemma pair_fold_freed:
  "freed_of (snd (fold (pair_step L pairs buy get pct) qs acc)) gk = freed_of (snd acc) gk @
     map (bogo_amount L pct) (take (earned_of pairs buy get gk qs) (sort (fst acc gk)))"
proof (induction qs arbitrary: acc)
  case (Cons q qs)
  show ?case
    by (simp add: Cons.IH pair_step_freed pair_step_units earned_of_def take_add flip: map_append)
qed (simp add: earned_of_def)

text \<open>
  C12. The cheapest units are freed, in whatever order the quantities are walked. Of each mapped item the
  pairs free as many units as its bought items earn together (a self-pair one round per \<open>buy + get\<close>
  units), at most those in the cart, and always the cheapest; Go iterates over the quantities in an
  order of its own, and any order gives the same.
\<close>

theorem pairs_free_the_cheapest:
  assumes "mset qs = mset (pair_quantities pairs lines)"
  shows "freed_of (snd (fold (pair_step L pairs buy get pct) qs (unit_prices lines, []))) gk =
    map (bogo_amount L pct) (take (earned_of pairs buy get gk (pair_quantities pairs lines)) (sort (unit_prices lines gk)))"
proof -
  have "earned_of pairs buy get gk xs =
      sum_mset (image_mset (units_earned pairs buy get) (filter_mset (\<lambda>q. pair_target pairs (fst q) = gk) (mset xs)))" for xs
    by (simp add: earned_of_def sum_mset_sum_list [symmetric])
  then have "earned_of pairs buy get gk qs = earned_of pairs buy get gk (pair_quantities pairs lines)"
    using assms by simp
  moreover have "freed_of [] gk = []" by (simp add: freed_of_def)
  ultimately show ?thesis by (simp add: pair_fold_freed)
qed

definition cart_line :: "string \<Rightarrow> rat \<Rightarrow> f64 \<Rightarrow> discount_line" where
  "cart_line sku price q =
     \<lparr>dl_sku = sku, dl_category = [], dl_total = price * q, dl_quantity = q, dl_unit_price = price\<rparr>"

definition tea_and_cake :: "discount_line list" where
  "tea_and_cake = [cart_line ''tea'' 100 1, cart_line ''juice'' 150 1, cart_line ''cake'' 80 2, cart_line ''cake'' 60 1]"

definition to_cake :: "(string \<times> string) list" where
  "to_cake = [(''tea'', ''cake''), (''juice'', ''cake'')]"

theorem pairs_free_the_cheapest_witness:
  "freed_of (snd (fold (pair_step shop_decimal to_cake 1 1 50) (rev (pair_quantities to_cake tea_and_cake))
     (unit_prices tea_and_cake, []))) ''cake'' = [30, 40]"
proof -
  have "map (bogo_amount shop_decimal 50) (take (earned_of to_cake 1 1 ''cake'' (pair_quantities to_cake tea_and_cake))
      (sort (unit_prices tea_and_cake ''cake''))) = [30, 40]"
    by code_simp
  then show ?thesis
    using pairs_free_the_cheapest [of "rev (pair_quantities to_cake tea_and_cake)" to_cake tea_and_cake shop_decimal 1 1 50 "''cake''"]
    by simp
qed

end
