(* ===== verification/Service_Profiles.thy ===== *)
theory Service_Profiles
  imports Outlet_Policy Kds_Route
begin

text \<open>
  The service profiles of \<open>internal/modules/outletpolicy/service_profiles.go\<close> (the sub use cases of a
  services outlet), as the registry the code ships, with its lookups, and \<open>EnsureProfileStations\<close> of
  \<open>internal/modules/orders/job_stations.go\<close>. The lemmas show the registry well formed: keys distinct
  and in the form the lookup compares, every production pipeline non-empty with distinct stages, every
  deposit a percentage.
\<close>

section \<open>Profiles\<close>

text \<open>The struct's fields, less its \<open>Description\<close> (a sentence for the admin's picker).\<close>

record spec_field =
  sf_key :: string
  sf_label :: string
  sf_type :: string
  sf_options :: "string list"
  sf_placeholder :: string
  sf_required :: bool

record default_station =
  ds_name :: string
  ds_type :: string
  ds_filter :: "string list"

record service_profile =
  sp_key :: string
  sp_label :: string
  sp_workflow :: string
  sp_item_use_cases :: "string list"
  sp_sells_retail :: bool
  sp_job_label :: string
  sp_performer_label :: string
  sp_proof_label :: string
  sp_stages :: "(string \<times> string) list"
  sp_spec_fields :: "spec_field list"
  sp_stations :: "default_station list"
  sp_deposit :: f64
  sp_attachments :: bool
  sp_design :: bool
  sp_staff_roles :: "string list"
  sp_modules :: "string list"

definition has_stage :: "service_profile \<Rightarrow> string \<Rightarrow> bool" where
  "has_stage p stage \<longleftrightarrow> list_ex (\<lambda>s. fst s = stage) (sp_stages p)"

definition allows_item_use_case :: "service_profile \<Rightarrow> string \<Rightarrow> bool" where
  "allows_item_use_case p item_use_case =
     (let uc = to_upper (trim_space item_use_case)
      in uc = [] \<or> uc = ''RETAIL'' \<or> uc = ''PROFESSIONAL_SERVICE'' \<or> uc \<in> set (sp_item_use_cases p))"

definition service_item_use_cases :: "string list" where
  "service_item_use_cases =
     [''PROFESSIONAL_SERVICE'', ''SALON_SERVICE'', ''NAIL_SERVICE'', ''SPA_SERVICE'', ''AUTO_SERVICE'',
      ''PRINTING_SERVICE'', ''LAUNDRY_SERVICE'', ''TAILORING_SERVICE'', ''REPAIR_SERVICE'']"

definition field0 :: "string \<Rightarrow> string \<Rightarrow> string \<Rightarrow> spec_field" where
  "field0 k label kind =
     \<lparr>sf_key = k, sf_label = label, sf_type = kind, sf_options = [], sf_placeholder = [], sf_required = False\<rparr>"

text \<open>Go's zero value of the struct.\<close>

definition blank_profile :: service_profile where
  "blank_profile = \<lparr>sp_key = [], sp_label = [], sp_workflow = [], sp_item_use_cases = [], sp_sells_retail = False,
     sp_job_label = [], sp_performer_label = [], sp_proof_label = [], sp_stages = [], sp_spec_fields = [],
     sp_stations = [], sp_deposit = 0, sp_attachments = False, sp_design = False, sp_staff_roles = [], sp_modules = []\<rparr>"

definition printing_profile :: service_profile where
  "printing_profile = blank_profile\<lparr>
     sp_key := ''printing_branding'', sp_label := ''Printing & Branding'', sp_workflow := ''job'',
     sp_item_use_cases := [''PRINTING_SERVICE''], sp_sells_retail := True, sp_job_label := ''Job'',
     sp_performer_label := ''Designer'', sp_proof_label := ''Proof'',
     sp_stages := [(''design'', ''Design''), (''proof'', ''Proof approval''), (''print'', ''Printing''),
       (''finishing'', ''Finishing''), (''ready'', ''Ready for collection'')],
     sp_spec_fields := [
       (field0 ''size'' ''Size'' ''text'')\<lparr>sf_placeholder := ''A4, A3, 3ft x 6ft, 85 x 55 mm''\<rparr>,
       (field0 ''material'' ''Material'' ''select'')\<lparr>sf_options := [
          ''Art paper'', ''Matte paper'', ''Glossy paper'', ''Bond paper'', ''Card (300gsm)'', ''Sticker vinyl'',
          ''Banner (PVC flex)'', ''Canvas'', ''Reflective vinyl'', ''One-way vision'', ''Fabric / T-shirt'',
          ''Mug / ceramic'', ''Other'']\<rparr>,
       (field0 ''sides'' ''Sides'' ''select'')\<lparr>sf_options := [''Single sided'', ''Double sided'']\<rparr>,
       (field0 ''colour'' ''Colour'' ''select'')\<lparr>sf_options := [''Full colour'', ''Black & white'', ''Spot colour'']\<rparr>,
       (field0 ''finishing'' ''Finishing'' ''select'')\<lparr>sf_options := [
          ''None'', ''Lamination (matte)'', ''Lamination (gloss)'', ''Cutting / trimming'', ''Binding'', ''Eyelets'',
          ''Mounting'', ''Die-cut'', ''Folding'']\<rparr>,
       (field0 ''print_notes'' ''Print notes'' ''textarea'')\<lparr>sf_placeholder := ''Text to print, colours, placement''\<rparr>],
     sp_stations := [\<lparr>ds_name = ''Production'', ds_type = ''all'', ds_filter = []\<rparr>],
     sp_deposit := 70, sp_attachments := True, sp_design := True,
     sp_staff_roles := [''technician''], sp_modules := [''production'', ''loyalty'']\<rparr>"

definition salon_profile :: service_profile where
  "salon_profile = blank_profile\<lparr>
     sp_key := ''salon_barber'', sp_label := ''Salon & Barbershop'', sp_workflow := ''appointment'',
     sp_item_use_cases := [''SALON_SERVICE''], sp_sells_retail := True, sp_job_label := ''Appointment'',
     sp_performer_label := ''Stylist'', sp_attachments := True, sp_staff_roles := [''stylist''],
     sp_modules := [''appointments'', ''queue'', ''packages'', ''resources'', ''commissions'', ''staff_schedule'', ''loyalty'']\<rparr>"

definition nail_profile :: service_profile where
  "nail_profile = blank_profile\<lparr>
     sp_key := ''nail_parlour'', sp_label := ''Nail Parlour'', sp_workflow := ''appointment'',
     sp_item_use_cases := [''NAIL_SERVICE'', ''SALON_SERVICE''], sp_sells_retail := True, sp_job_label := ''Appointment'',
     sp_performer_label := ''Nail technician'', sp_attachments := True, sp_staff_roles := [''stylist''],
     sp_modules := [''appointments'', ''queue'', ''packages'', ''resources'', ''commissions'', ''staff_schedule'', ''loyalty'']\<rparr>"

definition spa_profile :: service_profile where
  "spa_profile = blank_profile\<lparr>
     sp_key := ''spa_wellness'', sp_label := ''Spa & Wellness'', sp_workflow := ''appointment'',
     sp_item_use_cases := [''SPA_SERVICE'', ''SALON_SERVICE''], sp_sells_retail := True, sp_job_label := ''Session'',
     sp_performer_label := ''Therapist'', sp_staff_roles := [''therapist''],
     sp_modules := [''appointments'', ''packages'', ''resources'', ''commissions'', ''staff_schedule'', ''loyalty'']\<rparr>"

definition garage_profile :: service_profile where
  "garage_profile = blank_profile\<lparr>
     sp_key := ''auto_garage'', sp_label := ''Garage & Auto Service'', sp_workflow := ''job'',
     sp_item_use_cases := [''AUTO_SERVICE''], sp_sells_retail := True, sp_job_label := ''Job card'',
     sp_performer_label := ''Mechanic'', sp_proof_label := ''Estimate'',
     sp_stages := [(''inspection'', ''Inspection''), (''estimate'', ''Estimate approval''), (''repair'', ''In the workshop''),
       (''qc'', ''Quality check''), (''ready'', ''Ready for collection'')],
     sp_spec_fields := [
       (field0 ''vehicle_reg'' ''Vehicle reg'' ''text'')\<lparr>sf_placeholder := ''KDA 123A'', sf_required := True\<rparr>,
       (field0 ''make_model'' ''Make & model'' ''text'')\<lparr>sf_placeholder := ''Toyota Axio 2014''\<rparr>,
       field0 ''mileage'' ''Mileage (km)'' ''number'',
       field0 ''complaint'' ''Complaint / warning lights'' ''textarea''],
     sp_stations := [\<lparr>ds_name = ''Workshop'', ds_type = ''all'', ds_filter = []\<rparr>],
     sp_attachments := True, sp_staff_roles := [''technician''],
     sp_modules := [''production'', ''staff_schedule'', ''loyalty'']\<rparr>"

definition car_wash_profile :: service_profile where
  "car_wash_profile = blank_profile\<lparr>
     sp_key := ''car_wash'', sp_label := ''Car Wash & Detailing'', sp_workflow := ''queue'',
     sp_item_use_cases := [''AUTO_SERVICE''], sp_sells_retail := True, sp_job_label := ''Wash'',
     sp_performer_label := ''Washer'',
     sp_spec_fields := [(field0 ''vehicle_reg'' ''Vehicle reg'' ''text'')\<lparr>sf_required := True\<rparr>],
     sp_staff_roles := [''technician''], sp_modules := [''queue'', ''resources'', ''packages'', ''loyalty'']\<rparr>"

definition laundry_profile :: service_profile where
  "laundry_profile = blank_profile\<lparr>
     sp_key := ''laundry_drycleaning'', sp_label := ''Laundry & Dry Cleaning'', sp_workflow := ''job'',
     sp_item_use_cases := [''LAUNDRY_SERVICE''], sp_job_label := ''Ticket'', sp_performer_label := ''Attendant'',
     sp_stages := [(''washing'', ''Washing''), (''pressing'', ''Drying & pressing''), (''folding'', ''Folding & packing''),
       (''ready'', ''Ready for collection'')],
     sp_spec_fields := [
       field0 ''tag_number'' ''Tag number'' ''text'',
       field0 ''garment_notes'' ''Stains / care notes'' ''textarea'',
       (field0 ''express'' ''Service speed'' ''select'')\<lparr>sf_options := [''Standard'', ''Express'']\<rparr>],
     sp_stations := [\<lparr>ds_name = ''Laundry'', ds_type = ''all'', ds_filter = []\<rparr>],
     sp_staff_roles := [''technician''], sp_modules := [''production'', ''loyalty'']\<rparr>"

definition tailoring_profile :: service_profile where
  "tailoring_profile = blank_profile\<lparr>
     sp_key := ''tailoring_fashion'', sp_label := ''Tailoring & Fashion Design'', sp_workflow := ''job'',
     sp_item_use_cases := [''TAILORING_SERVICE''], sp_sells_retail := True, sp_job_label := ''Order'',
     sp_performer_label := ''Tailor'', sp_proof_label := ''Fitting'',
     sp_stages := [(''cutting'', ''Cutting''), (''sewing'', ''Sewing''), (''fitting'', ''Fitting''),
       (''finishing'', ''Finishing''), (''ready'', ''Ready for collection'')],
     sp_spec_fields := [
       (field0 ''measurements'' ''Measurements'' ''textarea'')\<lparr>sf_placeholder := ''Chest, waist, length, sleeve''\<rparr>,
       field0 ''fabric'' ''Fabric'' ''text'',
       field0 ''fitting_date'' ''Fitting date'' ''date''],
     sp_stations := [\<lparr>ds_name = ''Workroom'', ds_type = ''all'', ds_filter = []\<rparr>],
     sp_deposit := 50, sp_attachments := True, sp_staff_roles := [''technician''],
     sp_modules := [''production'', ''appointments'', ''loyalty'']\<rparr>"

definition repair_profile :: service_profile where
  "repair_profile = blank_profile\<lparr>
     sp_key := ''device_repair'', sp_label := ''Phone & Electronics Repair'', sp_workflow := ''job'',
     sp_item_use_cases := [''REPAIR_SERVICE''], sp_sells_retail := True, sp_job_label := ''Repair ticket'',
     sp_performer_label := ''Technician'', sp_staff_roles := [''technician''], sp_modules := [''repairs'', ''loyalty'']\<rparr>"

definition general_profile :: service_profile where
  "general_profile = blank_profile\<lparr>
     sp_key := ''professional_general'', sp_label := ''General Professional Services'', sp_workflow := ''job'',
     sp_sells_retail := True, sp_job_label := ''Job'', sp_performer_label := ''Staff'',
     sp_stages := [(''in_progress'', ''In progress''), (''ready'', ''Ready'')],
     sp_spec_fields := [field0 ''details'' ''Details'' ''textarea''],
     sp_stations := [\<lparr>ds_name = ''Work queue'', ds_type = ''all'', ds_filter = []\<rparr>],
     sp_attachments := True, sp_staff_roles := [''technician'', ''stylist'', ''therapist''],
     sp_modules := [''production'', ''appointments'', ''queue'', ''resources'', ''packages'', ''commissions'',
       ''staff_schedule'', ''loyalty'']\<rparr>"

definition service_profiles :: "service_profile list" where
  "service_profiles =
     [printing_profile, salon_profile, nail_profile, spa_profile, garage_profile, car_wash_profile,
      laundry_profile, tailoring_profile, repair_profile, general_profile]"

section \<open>Lookups\<close>

definition lookup_service_profile :: "string \<Rightarrow> service_profile option" where
  "lookup_service_profile name =
     (let k = to_lower (trim_space name) in find (\<lambda>p. sp_key p = k) service_profiles)"

definition service_profile_from_metadata :: "meta \<Rightarrow> service_profile option" where
  "service_profile_from_metadata m =
     (let k = as_str (meta_get m ''service_profile'')
      in if k = [] then None else lookup_service_profile k)"

text \<open>A stored number is a float64 or, in code that builds the map itself, an int.\<close>

definition job_deposit_percent :: "meta \<Rightarrow> service_profile \<Rightarrow> f64" where
  "job_deposit_percent m p =
     (let pct = (case meta_get m ''job_deposit_percent'' of Some (JNum v) \<Rightarrow> v | _ \<Rightarrow> sp_deposit p)
      in if pct < 0 then 0 else if pct > 100 then 100 else pct)"

definition use_case_staff_roles :: "string \<Rightarrow> string list" where
  "use_case_staff_roles uc =
     (if uc = uc_hospitality then [''manager'', ''cashier'', ''waiter'', ''barista'', ''kitchen'', ''bar'', ''receptionist'']
      else if uc = uc_quick_service then [''manager'', ''cashier'', ''barista'', ''kitchen'']
      else if uc = uc_retail \<or> uc = uc_services then [''manager'', ''cashier'', ''receptionist'']
      else [])"

definition staff_roles_for :: "string \<Rightarrow> service_profile option \<Rightarrow> string list" where
  "staff_roles_for use_case p =
     (let uc = normalize_use_case use_case
      in if uc \<noteq> uc_services then use_case_staff_roles uc
         else use_case_staff_roles uc @
              (case p of Some sp \<Rightarrow> if sp_staff_roles sp \<noteq> [] then sp_staff_roles sp else [''stylist'', ''therapist'', ''technician'']
               | None \<Rightarrow> [''stylist'', ''therapist'', ''technician'']))"

text \<open>
  \<open>EnsureProfileStations\<close> on the outlet's stations: \<open>exists\<close> is the answer of the query (\<open>None\<close> when
  it fails), \<open>ok\<close> whether the bulk insert succeeds, \<open>new_id\<close> the ids the rows get.
\<close>

definition ensure_profile_stations ::
  "bool option \<Rightarrow> bool \<Rightarrow> (nat \<Rightarrow> uuid) \<Rightarrow> service_profile \<Rightarrow> station list \<Rightarrow> bool \<times> station list" where
  "ensure_profile_stations found ok new_id p sts =
     (if sp_stations p = [] then (True, sts)
      else case found of
        None \<Rightarrow> (False, sts)
      | Some True \<Rightarrow> (True, sts)
      | Some False \<Rightarrow>
          if ok then
            (True, sts @ map (\<lambda>(i, d). \<lparr>ks_id = new_id i, ks_name = ds_name d, ks_type = ds_type d,
                ks_filter = ds_filter d, ks_sort_order = int i, ks_active = True\<rparr>) (enumerate 0 (sp_stations p)))
          else (False, sts))"

section \<open>The registry is well formed\<close>

definition profile_ok :: "service_profile \<Rightarrow> bool" where
  "profile_ok p \<longleftrightarrow>
     sp_key p = to_lower (trim_space (sp_key p)) \<and> sp_key p \<noteq> [] \<and>
     sp_workflow p \<in> {''job'', ''appointment'', ''queue''} \<and>
     distinct (map fst (sp_stages p)) \<and> \<not> list_ex (\<lambda>s. fst s = []) (sp_stages p) \<and>
     list_all (\<lambda>s. fst s = to_lower (trim_space (fst s))) (sp_stages p) \<and>
     set (sp_item_use_cases p) \<subseteq> set service_item_use_cases \<and>
     0 \<le> sp_deposit p \<and> sp_deposit p \<le> 100 \<and>
     (sp_stations p \<noteq> [] \<longrightarrow> sp_stages p \<noteq> [])"

lemma service_profiles_ok: "list_all profile_ok service_profiles"
  by code_simp

lemma service_profile_keys: "distinct (map sp_key service_profiles)"
  by code_simp

lemma lookup_known: "lookup_service_profile k = Some p \<Longrightarrow> p \<in> set service_profiles \<and> sp_key p = to_lower (trim_space k)"
  by (auto simp: lookup_service_profile_def Let_def find_Some_iff)

lemma lookup_profile_ok: "lookup_service_profile k = Some p \<Longrightarrow> profile_ok p"
  using lookup_known service_profiles_ok by (metis list_all_iff)

lemma metadata_profile_ok: "service_profile_from_metadata m = Some p \<Longrightarrow> profile_ok p"
  by (auto simp: service_profile_from_metadata_def Let_def lookup_profile_ok split: if_splits)

lemma lookup_own_key: "p \<in> set service_profiles \<Longrightarrow> lookup_service_profile (sp_key p) = Some p"
proof -
  assume p: "p \<in> set service_profiles"
  then have "sp_key p = to_lower (trim_space (sp_key p))" using service_profiles_ok by (simp add: list_all_iff profile_ok_def)
  moreover have "find (\<lambda>q. sp_key q = sp_key p) ps = Some p" if "p \<in> set ps" "distinct (map sp_key ps)" for ps
    using that by (induction ps) (auto simp: rev_image_eqI)
  ultimately show ?thesis using p service_profile_keys by (simp add: lookup_service_profile_def Let_def)
qed

lemma deposit_range: "0 \<le> job_deposit_percent m p" "job_deposit_percent m p \<le> 100"
  by (simp_all add: job_deposit_percent_def Let_def)

end
