(* ===== verification/Go_Time_Format.thy ===== *)
theory Go_Time_Format
  imports Go_Time
begin

text \<open>
  \<open>t.UTC().Format(time.RFC3339)\<close> for the years 0 to 9999, and the fact the job header relies on:
  what is written is read back as the same instant, to the second.
\<close>

section \<open>Civil dates from day numbers\<close>

text \<open>
  The 400-year cycle starting on March 1st, split into centuries, four-year blocks and years (the
  last of each may be a day longer), then the month by its position after March.
\<close>

definition year_of_era :: "int \<Rightarrow> int" where
  "year_of_era doe =
     (let cent = min 3 (doe div 36524); doc = doe - cent * 36524;
          blk = doc div 1461; dob = doc - blk * 1461
      in cent * 100 + blk * 4 + min 3 (dob div 365))"

definition day_of_year :: "int \<Rightarrow> int" where
  "day_of_year doe = (let yoe = year_of_era doe in doe - (yoe * 365 + yoe div 4 - yoe div 100))"

definition civil_from_days :: "int \<Rightarrow> int \<times> int \<times> int" where
  "civil_from_days n =
     (let z = n + 719468; era = z div 146097; doe = z - era * 146097;
          yoe = year_of_era doe; doy = day_of_year doe;
          mp = (5 * doy + 2) div 153;
          d = doy - (153 * mp + 2) div 5 + 1;
          m = (if mp < 10 then mp + 3 else mp - 9);
          y = era * 400 + yoe
      in (if m \<le> 2 then y + 1 else y, m, d))"

definition format_ymd :: "int \<times> int \<times> int \<Rightarrow> string" where
  "format_ymd ymd = pad_int 4 (fst ymd) @ ''-'' @ pad_int 2 (fst (snd ymd)) @ ''-'' @ pad_int 2 (snd (snd ymd))"

definition format_clock :: "int \<Rightarrow> string" where
  "format_clock s = pad_int 2 (s div 3600) @ '':'' @ pad_int 2 (s div 60 mod 60) @ '':'' @ pad_int 2 (s mod 60)"

definition format_rfc3339 :: "time \<Rightarrow> string" where
  "format_rfc3339 t =
     (let secs = t div 1000000000
      in format_ymd (civil_from_days (secs div 86400)) @ ''T'' @ format_clock (secs mod 86400) @ ''Z'')"

lemma format_epoch: "format_rfc3339 0 = ''1970-01-01T00:00:00Z''"
  by code_simp

lemma format_leap_day: "format_rfc3339 1709251199999999999 = ''2024-02-29T23:59:59Z''"
  by code_simp

section \<open>The calendar is inverted\<close>

lemma div_bounds:
  fixes n k :: int
  assumes "0 < k"
  shows "n div k * k \<le> n" "n < n div k * k + k"
  using div_mult_mod_eq [of n k] pos_mod_sign [OF assms, of n] pos_mod_bound [OF assms, of n] by linarith+

lemma era_parts:
  fixes doe :: int
  assumes "0 \<le> doe" "doe < 146097"
  shows "\<exists>c b y d. year_of_era doe = c * 100 + b * 4 + y \<and> day_of_year doe = d \<and>
    0 \<le> c \<and> c \<le> 3 \<and> 0 \<le> b \<and> b \<le> 24 \<and> 0 \<le> y \<and> y \<le> 3 \<and> 0 \<le> d \<and>
    (d < 365 \<or> d = 365 \<and> y = 3 \<and> (b < 24 \<or> c = 3))"
proof -
  define c where "c = min 3 (doe div 36524)"
  define doc where "doc = doe - c * 36524"
  define b where "b = doc div 1461"
  define dob where "dob = doc - b * 1461"
  define y where "y = min 3 (dob div 365)"
  have q: "0 \<le> doe div 36524" "doe div 36524 \<le> 4" using div_bounds [of 36524 doe] assms by linarith+
  have c: "0 \<le> c" "c \<le> 3" "0 \<le> doc" "doc < 36524 \<or> c = 3 \<and> doc < 36525"
  proof -
    show "0 \<le> c" "c \<le> 3" using q by (simp_all add: c_def)
    consider "doe div 36524 \<le> 3" | "doe div 36524 = 4" using q by linarith
    then show "0 \<le> doc" "doc < 36524 \<or> c = 3 \<and> doc < 36525"
      using div_bounds [of 36524 doe] assms by (cases; simp add: c_def doc_def)+
  qed
  have b: "0 \<le> b" "b \<le> 24" "0 \<le> dob" "dob < 1461" "b = 24 \<longrightarrow> dob < 1460 \<or> c = 3"
    using c div_bounds [of 1461 doc] unfolding dob_def b_def by linarith+
  have d: "0 \<le> dob div 365" "dob div 365 \<le> 4" using div_bounds [of 365 dob] b by linarith+
  have y: "0 \<le> y" "y \<le> 3" "0 \<le> dob - y * 365" "dob - y * 365 < 365 \<or> dob - y * 365 = 365 \<and> y = 3 \<and> dob = 1460"
  proof -
    show "0 \<le> y" "y \<le> 3" using d by (simp_all add: y_def)
    consider "dob div 365 \<le> 3" | "dob div 365 = 4" using d by linarith
    then show "0 \<le> dob - y * 365" "dob - y * 365 < 365 \<or> dob - y * 365 = 365 \<and> y = 3 \<and> dob = 1460"
      using div_bounds [of 365 dob] b by (cases; simp add: y_def)+
  qed
  have yoe: "year_of_era doe = c * 100 + b * 4 + y"
    by (simp add: year_of_era_def Let_def c_def doc_def b_def dob_def y_def)
  have "(c * 100 + b * 4 + y) div 4 = c * 25 + b"
    using y by (intro int_div_pos_eq [of _ _ _ y]) auto
  moreover have "(c * 100 + b * 4 + y) div 100 = c"
    using b y by (intro int_div_pos_eq [of _ _ _ "b * 4 + y"]) auto
  ultimately have doy: "day_of_year doe = dob - y * 365"
    by (simp add: day_of_year_def yoe Let_def dob_def doc_def)
  show ?thesis
    unfolding yoe doy
    by (rule exI [of _ c], rule exI [of _ b], rule exI [of _ y], rule exI [of _ "dob - y * 365"]) (use c b y in linarith)
qed

lemma era_year_range:
  assumes "0 \<le> doe" "doe < 146097"
  shows "0 \<le> year_of_era doe" "year_of_era doe < 400" "0 \<le> day_of_year doe" "day_of_year doe \<le> 365"
  using era_parts [OF assms] by auto

text \<open>A year of 366 days (from March) ends in a leap day.\<close>

lemma day_365_leap:
  assumes "0 \<le> doe" "doe < 146097" "day_of_year doe = 365"
  shows "is_leap (era * 400 + year_of_era doe + 1)"
proof -
  obtain c b y where e: "year_of_era doe = c * 100 + b * 4 + y" and r: "0 \<le> c" "c \<le> 3" "0 \<le> b" "b \<le> 24" "y = 3"
    "b < 24 \<or> c = 3"
    using era_parts [OF assms(1,2)] assms(3) by auto
  have "era * 400 + (c * 100 + b * 4 + 3) + 1 = 4 * (100 * era + 25 * c + b + 1)" by simp
  then have "(era * 400 + (c * 100 + b * 4 + 3) + 1) mod 4 = 0" by (simp only: mod_mult_self1_is_0)
  moreover have "(era * 400 + (c * 100 + b * 4 + 3) + 1) mod 100 \<noteq> 0 \<or> (era * 400 + (c * 100 + b * 4 + 3) + 1) mod 400 = 0"
  proof (cases "b = 24")
    case True
    then have "era * 400 + (c * 100 + b * 4 + 3) + 1 = 400 * (era + 1)" using r(6) by simp
    then show ?thesis by (simp only: mod_mult_self1_is_0 simp_thms)
  next
    case False
    have "era * 400 + (c * 100 + b * 4 + 3) + 1 = (4 * b + 4) + 100 * (4 * era + c)" by simp
    then have "(era * 400 + (c * 100 + b * 4 + 3) + 1) mod 100 = (4 * b + 4) mod 100" by (simp only: mod_mult_self2)
    also have "\<dots> = 4 * b + 4" using r(3,4) False by (intro mod_pos_pos_trivial) simp_all
    finally show ?thesis using r(3) by simp
  qed
  ultimately show ?thesis using e r(5) by (simp add: is_leap_def)
qed

lemma days_from_civil_from_days:
  "(case civil_from_days n of (y, m, d) \<Rightarrow> days_from_civil y m d) = n"
proof -
  define z where "z = n + 719468"
  define era where "era = z div 146097"
  define doe where "doe = z - era * 146097"
  have doe: "0 \<le> doe" "doe < 146097" using div_bounds [of 146097 z] unfolding doe_def era_def by linarith+
  define yoe where "yoe = year_of_era doe"
  define doy where "doy = day_of_year doe"
  define mp where "mp = (5 * doy + 2) div 153"
  have doy: "0 \<le> doy" "doy \<le> 365" using era_year_range [OF doe] by (simp_all add: doy_def)
  have mp: "0 \<le> mp" "mp \<le> 11" using doy div_bounds [of 153 "5 * doy + 2"] unfolding mp_def by linarith+
  have y: "(era * 400 + yoe) div 400 = era" 
    using era_year_range [OF doe] unfolding yoe_def by (intro int_div_pos_eq [of _ _ _ "year_of_era doe"]) auto
  have "doe = yoe * 365 + yoe div 4 - yoe div 100 + doy" by (simp add: doy_def day_of_year_def yoe_def Let_def)
  then have n: "n = era * 146097 + (yoe * 365 + yoe div 4 - yoe div 100 + doy) - 719468"
    by (simp add: doe_def z_def)
  have c: "civil_from_days n = (if (if mp < 10 then mp + 3 else mp - 9) \<le> 2 then era * 400 + yoe + 1 else era * 400 + yoe,
      if mp < 10 then mp + 3 else mp - 9, doy - (153 * mp + 2) div 5 + 1)"
    by (simp add: civil_from_days_def Let_def z_def era_def doe_def yoe_def doy_def mp_def)
  show ?thesis
    using mp unfolding c by (auto simp: days_from_civil_def Let_def y n)
qed

lemma month_day_table:
  "list_all (\<lambda>doy. let mp = (5 * doy + 2) div 153; d = doy - (153 * mp + 2) div 5 + 1;
      m = (if mp < 10 then mp + 3 else mp - 9)
    in 1 \<le> m \<and> m \<le> 12 \<and> 1 \<le> d \<and> d \<le> days_in_month (if doy = 365 then 2024 else 2023) m) [0..365]"
  by code_simp

lemma days_in_month_leap: "d \<le> days_in_month 2023 m \<Longrightarrow> d \<le> days_in_month y m"
  "is_leap y \<Longrightarrow> days_in_month y m = days_in_month 2024 m"
  by (auto simp: days_in_month_def is_leap_def split: if_splits)

lemma civil_from_days_valid:
  assumes "civil_from_days n = (y, m, d)"
  shows "1 \<le> m \<and> m \<le> 12 \<and> 1 \<le> d \<and> d \<le> days_in_month y m"
proof -
  define era where "era = (n + 719468) div 146097"
  define doe where "doe = n + 719468 - era * 146097"
  have doe: "0 \<le> doe" "doe < 146097" using div_bounds [of 146097 "n + 719468"] unfolding doe_def era_def by linarith+
  let ?doy = "day_of_year doe"
  let ?mp = "(5 * ?doy + 2) div 153"
  let ?m = "if ?mp < 10 then ?mp + 3 else ?mp - 9"
  have "civil_from_days n = (if ?m \<le> 2 then era * 400 + year_of_era doe + 1 else era * 400 + year_of_era doe,
      ?m, ?doy - (153 * ?mp + 2) div 5 + 1)"
    unfolding civil_from_days_def Let_def era_def doe_def by (rule refl)
  then have md: "m = ?m" "d = ?doy - (153 * ?mp + 2) div 5 + 1"
    "y = (if ?m \<le> 2 then era * 400 + year_of_era doe + 1 else era * 400 + year_of_era doe)"
    unfolding assms prod.inject by blast+
  have "?doy \<in> set [0..365]" using era_year_range [OF doe] by simp
  then have t: "1 \<le> m" "m \<le> 12" "1 \<le> d" "d \<le> days_in_month (if ?doy = 365 then 2024 else 2023) m"
    using month_day_table unfolding list_all_iff Let_def md(1,2) by blast+
  show ?thesis
  proof (cases "?doy = 365")
    case True
    then have "m = 2" using md(1) by simp
    moreover have "y = era * 400 + year_of_era doe + 1" using md(3) \<open>?doy = 365\<close> by simp
    ultimately have "is_leap y" using day_365_leap [OF doe True] by simp
    then show ?thesis using t True by (simp add: days_in_month_leap(2))
  next
    case False
    then show ?thesis using t days_in_month_leap(1) by simp
  qed
qed

section \<open>What is written is read back\<close>

lemma show_nat_length: "v < 10 ^ k \<Longrightarrow> 0 < k \<Longrightarrow> length (show_nat v) \<le> k"
proof (induction v arbitrary: k rule: show_nat.induct)
  case (1 v)
  show ?case
  proof (cases "v < 10")
    case True
    then show ?thesis using 1(3) by (subst show_nat.simps) simp
  next
    case False
    then obtain j where j: "k = Suc j" "0 < j" using 1(2,3) False by (cases k; cases "k - 1") auto
    have "length (show_nat (v div 10)) \<le> j" using 1(1) [OF False, of j] 1(2) j by (simp add: less_mult_imp_div_less mult.commute)
    then show ?thesis using False j by (subst show_nat.simps) simp
  qed
qed

lemma read_int_nat: "list_all is_digit s \<Longrightarrow> 0 \<le> acc \<Longrightarrow> read_int acc s = int (read_nat (nat acc) s)"
proof (induction s arbitrary: acc)
  case (Cons c s)
  have d: "48 \<le> (of_char c :: nat)" using Cons.prems by (simp add: is_digit_def Let_def)
  then have "(of_char c :: int) - 48 = int (of_char c - 48)"
    by (metis of_nat_diff of_nat_numeral of_nat_of_char)
  moreover have "nat (10 * acc + int (of_char c - 48)) = 10 * nat acc + (of_char c - 48)" using Cons.prems(2) by linarith
  ultimately show ?case using Cons by simp
qed simp

lemma take_pad_int:
  assumes "0 \<le> v" "v < 10 ^ n" "0 < n"
  shows "take_digits n (pad_int (int n) v @ rest) = Some (v, rest)"
proof -
  have "length (show_nat (nat v)) \<le> n" using assms by (intro show_nat_length) (auto simp: nat_less_iff)
  then have l: "length (pad_int (int n) v) = n" using assms by (simp add: pad_int_length)
  have ds: "list_all is_digit (pad_int (int n) v)"
    using pad_int_digits [of "int n" v] assms by (auto simp: list_all_iff)
  have "read_int 0 (pad_int (int n) v) = v"
    using read_int_nat [OF ds, of 0] pad_int_read [of "int n" v] assms by simp
  then show ?thesis using l ds by (simp add: Let_def)
qed

lemma take_pad_2: "0 \<le> v \<Longrightarrow> v \<le> 99 \<Longrightarrow> take_digits 2 (pad_int 2 v @ rest) = Some (v, rest)"
  using take_pad_int [of v 2 rest] by (simp del: take_digits.simps)

lemma take_pad_4: "0 \<le> v \<Longrightarrow> v \<le> 9999 \<Longrightarrow> take_digits 4 (pad_int 4 v @ rest) = Some (v, rest)"
  using take_pad_int [of v 4 rest] by (simp del: take_digits.simps)

lemma parse_format_ymd:
  assumes "civil_from_days n = (y, m, d)" "0 \<le> y" "y \<le> 9999"
  shows "parse_ymd (format_ymd (y, m, d) @ rest) = Some (y, m, d, rest)"
proof -
  have md: "1 \<le> m" "m \<le> 12" "1 \<le> d" "d \<le> days_in_month y m" using civil_from_days_valid [OF assms(1)] by auto
  then have "d \<le> 31" by (auto simp: days_in_month_def split: if_splits)
  then show ?thesis
    using md assms(2,3)
    by (simp del: take_digits.simps add: parse_ymd_def format_ymd_def take_pad_2 take_pad_4)
qed

lemma parse_clock_parts:
  assumes "0 \<le> h" "h < 24" "0 \<le> mi" "mi < 60" "0 \<le> se" "se < 60"
  shows "parse_clock (pad_int 2 h @ '':'' @ pad_int 2 mi @ '':'' @ pad_int 2 se @ rest) = Some (h * 3600 + mi * 60 + se, rest)"
  using assms by (simp del: take_digits.simps add: parse_clock_def take_hour_def take_pad_2)

lemma parse_format_clock:
  assumes "0 \<le> s" "s < 86400"
  shows "parse_clock (format_clock s @ rest) = Some (s, rest)"
proof -
  have e: "s div 3600 = s div 60 div 60" by (simp add: zdiv_zmult2_eq [symmetric])
  have "s div 60 div 60 * 60 + s div 60 mod 60 = s div 60" "s div 60 * 60 + s mod 60 = s" by simp_all
  then have s: "s div 3600 * 3600 + s div 60 mod 60 * 60 + s mod 60 = s" unfolding e by linarith
  have "0 \<le> s div 3600" "s div 3600 < 24" using div_bounds [of 3600 s] assms by linarith+
  from parse_clock_parts [OF this, of "s div 60 mod 60" "s mod 60" rest]
  show ?thesis unfolding s format_clock_def append_assoc by (simp only: pos_mod_sign pos_mod_bound zero_less_numeral)
qed

lemma parse_format_rfc3339:
  assumes "0 \<le> fst (civil_from_days (t div 1000000000 div 86400))" "fst (civil_from_days (t div 1000000000 div 86400)) \<le> 9999"
  shows "parse_rfc3339 (format_rfc3339 t) = Some (t - t mod 1000000000)"
proof -
  define secs where "secs = t div 1000000000"
  obtain y m d where ymd: "civil_from_days (secs div 86400) = (y, m, d)" by (metis prod_cases3)
  have "0 \<le> y" "y \<le> 9999" using assms ymd by (simp_all add: secs_def)
  note p = parse_format_ymd [OF ymd this] parse_format_clock [of "secs mod 86400"]
  have days: "days_from_civil y m d = secs div 86400" using days_from_civil_from_days [of "secs div 86400"] ymd by simp
  have "(secs div 86400 * 86400 + secs mod 86400) * 1000000000 = t - t mod 1000000000"
    by (simp add: secs_def minus_mod_eq_div_mult)
  then show ?thesis
    by (simp add: parse_rfc3339_def format_rfc3339_def Let_def p ymd days parse_fraction_def parse_offset_def
        flip: secs_def)
qed

end
