(* ===== verification/Service_Jobs.thy ===== *)
theory Service_Jobs
  imports Service_Profiles Go_Time_Format Order_Status
begin

text \<open>
  Services job orders, \<open>internal/modules/orders/job.go\<close>: the job header in the order's metadata, its
  creation (\<open>NormalizeNewJob\<close>), its updates (\<open>ApplyJobUpdate\<close>, \<open>UpdateJob\<close>) and the dashboard
  (\<open>JobSummary\<close>). \<open>url.Parse\<close> (the scheme and host it reads), the text of a UUID, the clock and the
  faults of the database are arguments. The lemmas show that a due time survives storage, that the
  header stays consistent with its stage history, which only grows, and what an update may touch.
\<close>

section \<open>Attachments\<close>

datatype job_error =
    Job_Order_Not_Found
  | Not_A_Job
  | Job_Is string
  | Already_Collected
  | Bad_Due
  | Brief_Too_Long
  | Url_Too_Long
  | Bad_Link
  | Bad_File
  | Bad_Kind
  | Too_Many_Files
  | Too_Many_Links
  | Bad_Proof
  | Stage_Empty
  | Not_A_Stage string
  | Job_Save_Failed

record job_attachment =
  ja_kind :: string
  ja_url :: string
  ja_label :: string

record job_env =
  je_url :: "string \<Rightarrow> (string \<times> string) option"
  je_show :: "uuid \<Rightarrow> string"
  je_now :: time
  je_profile :: "service_profile option"
  je_save_ok :: bool
  je_event_ok :: bool
  je_close_ok :: bool
  je_status_ok :: bool

definition bind_err :: "'e + 'a \<Rightarrow> ('a \<Rightarrow> 'e + 'b) \<Rightarrow> 'e + 'b" where
  "bind_err r f = (case r of Inl e \<Rightarrow> Inl e | Inr a \<Rightarrow> f a)"

lemma bind_err_simps [simp]: "bind_err (Inl e) f = Inl e" "bind_err (Inr a) f = f a"
  by (simp_all add: bind_err_def)

lemma bind_err_Inr: "bind_err r f = Inr b \<longleftrightarrow> (\<exists>a. r = Inr a \<and> f a = Inr b)"
  by (cases r) simp_all

definition is_http_url :: "job_env \<Rightarrow> string \<Rightarrow> bool" where
  "is_http_url env raw =
     (case je_url env raw of
        Some (scheme, host) \<Rightarrow> (scheme = ''http'' \<or> scheme = ''https'') \<and> host \<noteq> []
      | None \<Rightarrow> False)"

text \<open>The loop of \<open>sanitizeAttachments\<close>: the files and links counted so far, and the entries kept.\<close>

fun sanitize_loop ::
  "job_env \<Rightarrow> job_attachment list \<Rightarrow> nat \<Rightarrow> nat \<Rightarrow> json list \<Rightarrow> job_error + (nat \<times> nat \<times> json list)" where
  "sanitize_loop env [] files links out = Inr (files, links, out)"
| "sanitize_loop env (a # as) files links out =
     (let kind = to_lower (trim_space (ja_kind a));
          raw = trim_space (ja_url a);
          label = take 120 (trim_space (ja_label a));
          entry = [(''kind'', JStr kind), (''url'', JStr raw)] @ (if label \<noteq> [] then [(''label'', JStr label)] else [])
      in if raw = [] then sanitize_loop env as files links out
         else if length raw > 2048 then Inl Url_Too_Long
         else if kind = ''link'' then
           (if \<not> is_http_url env raw then Inl Bad_Link
            else sanitize_loop env as files (links + 1) (out @ [JObj entry]))
         else if kind = ''file'' then
           (if \<not> is_http_url env raw \<and> \<not> prefix ''/media/'' raw then Inl Bad_File
            else sanitize_loop env as (files + 1) links (out @ [JObj entry]))
         else Inl Bad_Kind)"

definition sanitize_attachments :: "job_env \<Rightarrow> job_attachment list \<Rightarrow> job_error + json list" where
  "sanitize_attachments env as =
     bind_err (sanitize_loop env as 0 0 [])
       (\<lambda>(files, links, out). if files > 5 then Inl Too_Many_Files
          else if links > 10 then Inl Too_Many_Links else Inr out)"

definition attachments_from_any :: "json option \<Rightarrow> job_attachment list" where
  "attachments_from_any v =
     (case v of
        Some (JArr items) \<Rightarrow>
          concat (map (\<lambda>item. case item of
             JObj m \<Rightarrow> [\<lparr>ja_kind = as_str (meta_get m ''kind''), ja_url = as_str (meta_get m ''url''),
                         ja_label = as_str (meta_get m ''label'')\<rparr>]
           | _ \<Rightarrow> []) items)
      | _ \<Rightarrow> [])"

section \<open>The job header\<close>

definition history_entry :: "job_env \<Rightarrow> uuid \<Rightarrow> string \<Rightarrow> json" where
  "history_entry env actor stage =
     JObj ([(''stage'', JStr stage), (''at'', JStr (format_rfc3339 (je_now env)))]
           @ (if actor \<noteq> uuid_nil then [(''by'', JStr (je_show env actor))] else []))"

definition normalize_due :: "meta \<Rightarrow> meta \<Rightarrow> job_error + meta" where
  "normalize_due raw job =
     (let s = trim_space (as_str (meta_get raw ''due_at''))
      in if s = [] then Inr job
         else case parse_rfc3339 s of
           None \<Rightarrow> Inl Bad_Due
         | Some t \<Rightarrow> Inr (meta_set ''due_at'' (JStr (format_rfc3339 t)) job))"

definition normalize_brief :: "meta \<Rightarrow> meta \<Rightarrow> job_error + meta" where
  "normalize_brief raw job =
     (let brief = trim_space (as_str (meta_get raw ''brief''))
      in if brief = [] then Inr job
         else if length brief > 4000 then Inl Brief_Too_Long
         else Inr (meta_set ''brief'' (JStr brief) job))"

definition first_stage :: "service_profile option \<Rightarrow> string" where
  "first_stage prof =
     (case prof of Some p \<Rightarrow> (case sp_stages p of s # _ \<Rightarrow> fst s | [] \<Rightarrow> []) | None \<Rightarrow> [])"

definition stamp_stage :: "job_env \<Rightarrow> uuid \<Rightarrow> meta \<Rightarrow> meta" where
  "stamp_stage env actor job =
     (let stage = first_stage (je_profile env);
          job = (case je_profile env of
              Some p \<Rightarrow> if sp_stages p \<noteq> [] then meta_set ''profile'' (JStr (sp_key p)) job else job
            | None \<Rightarrow> job);
          job = (if stage \<noteq> [] then meta_set ''stage'' (JStr stage) job else job);
          job = meta_set ''proof_status'' (JStr ''none'') job
      in meta_set ''stage_history'' (JArr [history_entry env actor stage]) job)"

definition normalize_new_job :: "job_env \<Rightarrow> uuid \<Rightarrow> meta \<Rightarrow> job_error + meta" where
  "normalize_new_job env actor raw =
     bind_err (normalize_due raw []) (\<lambda>job.
     bind_err (normalize_brief raw job) (\<lambda>job.
     (let job = (if as_bool (meta_get raw ''design_from_scratch'') then meta_set ''design_from_scratch'' (JBool True) job else job)
      in bind_err (sanitize_attachments env (attachments_from_any (meta_get raw ''attachments''))) (\<lambda>atts.
           (let job = (if atts \<noteq> [] then meta_set ''attachments'' (JArr atts) job else job)
            in Inr (stamp_stage env actor job))))))"

section \<open>Updates\<close>

record job_update =
  ju_due_at :: "time option"
  ju_brief :: "string option"
  ju_design :: "bool option"
  ju_attachments :: "job_attachment list option"
  ju_stage :: "string option"
  ju_proof :: "string option"
  ju_collected :: "bool option"

text \<open>Each step takes the header and the summary of changes so far.\<close>

definition update_due :: "job_update \<Rightarrow> meta \<times> meta \<Rightarrow> meta \<times> meta" where
  "update_due u s =
     (case ju_due_at u of
        Some t \<Rightarrow> (meta_set ''due_at'' (JStr (format_rfc3339 t)) (fst s), meta_set ''due_at'' (JStr (format_rfc3339 t)) (snd s))
      | None \<Rightarrow> s)"

definition update_brief :: "job_update \<Rightarrow> meta \<times> meta \<Rightarrow> job_error + meta \<times> meta" where
  "update_brief u s =
     (case ju_brief u of
        Some b \<Rightarrow>
          (let brief = trim_space b
           in if length brief > 4000 then Inl Brief_Too_Long
              else Inr (meta_set ''brief'' (JStr brief) (fst s), meta_set ''brief'' (JBool True) (snd s)))
      | None \<Rightarrow> Inr s)"

definition update_design :: "job_update \<Rightarrow> meta \<times> meta \<Rightarrow> meta \<times> meta" where
  "update_design u s =
     (case ju_design u of
        Some b \<Rightarrow> (meta_set ''design_from_scratch'' (JBool b) (fst s), meta_set ''design_from_scratch'' (JBool b) (snd s))
      | None \<Rightarrow> s)"

definition update_attachments :: "job_env \<Rightarrow> job_update \<Rightarrow> meta \<times> meta \<Rightarrow> job_error + meta \<times> meta" where
  "update_attachments env u s =
     (case ju_attachments u of
        Some as \<Rightarrow> bind_err (sanitize_attachments env as) (\<lambda>atts.
          Inr (meta_set ''attachments'' (JArr atts) (fst s), meta_set ''attachments'' (JNum (of_nat (length atts))) (snd s)))
      | None \<Rightarrow> Inr s)"

definition valid_proof_statuses :: "string list" where
  "valid_proof_statuses = [''none'', ''sent'', ''approved'', ''changes_requested'']"

definition update_proof :: "job_update \<Rightarrow> meta \<times> meta \<Rightarrow> job_error + meta \<times> meta" where
  "update_proof u s =
     (case ju_proof u of
        Some v \<Rightarrow>
          (let ps = to_lower (trim_space v)
           in if ps \<notin> set valid_proof_statuses then Inl Bad_Proof
              else Inr (meta_set ''proof_status'' (JStr ps) (fst s), meta_set ''proof_status'' (JStr ps) (snd s)))
      | None \<Rightarrow> Inr s)"

definition stage_history :: "meta \<Rightarrow> json list" where
  "stage_history job = (case meta_get job ''stage_history'' of Some (JArr h) \<Rightarrow> h | _ \<Rightarrow> [])"

definition job_stage :: "meta \<Rightarrow> string" where
  "job_stage job = as_str (meta_get job ''stage'')"

definition update_stage :: "job_env \<Rightarrow> uuid \<Rightarrow> job_update \<Rightarrow> meta \<times> meta \<Rightarrow> job_error + meta \<times> meta" where
  "update_stage env actor u s =
     (case ju_stage u of
        Some v \<Rightarrow>
          (let stage = to_lower (trim_space v)
           in if stage = [] then Inl Stage_Empty
              else if (case je_profile env of Some p \<Rightarrow> sp_stages p \<noteq> [] \<and> \<not> has_stage p stage | None \<Rightarrow> False)
                then Inl (Not_A_Stage stage)
              else if job_stage (fst s) = stage then Inr s
              else Inr (meta_set ''stage_history'' (JArr (stage_history (fst s) @ [history_entry env actor stage]))
                          (meta_set ''stage'' (JStr stage) (fst s)),
                        meta_set ''stage'' (JStr stage) (snd s)))
      | None \<Rightarrow> Inr s)"

definition update_collected :: "job_env \<Rightarrow> job_update \<Rightarrow> meta \<times> meta \<Rightarrow> meta \<times> meta" where
  "update_collected env u s =
     (if ju_collected u = Some True \<and> meta_get (fst s) ''collected_at'' = None
      then (let v = JStr (format_rfc3339 (je_now env))
            in (meta_set ''collected_at'' v (fst s), meta_set ''collected_at'' v (snd s)))
      else s)"

definition apply_job_update :: "job_env \<Rightarrow> uuid \<Rightarrow> meta \<Rightarrow> job_update \<Rightarrow> job_error + meta \<times> meta" where
  "apply_job_update env actor existing u =
     bind_err (update_brief u (update_due u (existing, []))) (\<lambda>s.
     bind_err (update_attachments env u (update_design u s)) (\<lambda>s.
     bind_err (update_proof u s) (\<lambda>s.
     bind_err (update_stage env actor u s) (\<lambda>s.
       Inr (update_collected env u s)))))"

definition is_final_stage :: "service_profile \<Rightarrow> string \<Rightarrow> bool" where
  "is_final_stage p stage \<longleftrightarrow> sp_stages p \<noteq> [] \<and> fst (last (sp_stages p)) = stage"

definition job_of :: "meta \<Rightarrow> meta" where
  "job_of m = (case meta_get m ''job'' of Some (JObj j) \<Rightarrow> j | _ \<Rightarrow> [])"

definition job_gate :: "pos_order \<Rightarrow> job_error option" where
  "job_gate po =
     (if po_subtype po \<noteq> ''service_job'' then Some Not_A_Job
      else if po_status po \<in> {st_open, st_pending_payment, st_awaiting_acceptance} then None
      else if po_status po = st_completed
        then (if meta_get (job_of (po_metadata po)) ''collected_at'' \<noteq> None then Some Already_Collected else None)
      else Some (Job_Is (po_status po)))"

text \<open>
  \<open>UpdateJob\<close> on the orders and tickets; the last component is the audit event (order, changes).
  The three statements that follow the save are best effort, each with its own outcome.
\<close>

definition update_job ::
  "job_env \<Rightarrow> uuid \<Rightarrow> uuid \<Rightarrow> uuid \<Rightarrow> job_update \<Rightarrow> kds_db \<Rightarrow> (job_error + meta) \<times> kds_db \<times> (uuid \<times> meta) list" where
  "update_job env tid oid actor u db =
     (case find_order tid oid db of
        None \<Rightarrow> (Inl Job_Order_Not_Found, db, [])
      | Some po \<Rightarrow>
          (case job_gate po of
             Some e \<Rightarrow> (Inl e, db, [])
           | None \<Rightarrow>
               (case apply_job_update env actor (job_of (po_metadata po)) u of
                  Inl e \<Rightarrow> (Inl e, db, [])
                | Inr s \<Rightarrow>
                    if snd s = [] then (Inr (fst s), db, [])
                    else if \<not> je_save_ok env then (Inl Job_Save_Failed, db, [])
                    else
                      (let db = db\<lparr>kd_orders := (kd_orders db)(oid \<mapsto>
                              po\<lparr>po_metadata := meta_set ''job'' (JObj (fst s)) (po_metadata po)\<rparr>)\<rparr>;
                           evs = (if je_event_ok env then [(oid, snd s)] else []);
                           finished = (case (meta_get (snd s) ''stage'', je_profile env) of
                               (Some (JStr stage), Some p) \<Rightarrow> is_final_stage p stage | _ \<Rightarrow> False)
                       in if finished
                          then (Inr (fst s),
                                (let db = db\<lparr>kd_tickets :=
                                       close_order_tickets (je_close_ok env) (je_now env) tid oid Served (kd_tickets db)\<rparr>
                                 in if je_status_ok env then move_open_order (po_tenant po) oid st_pending_payment db else db), evs)
                          else (Inr (fst s), db, evs)))))"

section \<open>The dashboard\<close>

record job_summary =
  js_in_production :: nat
  js_ready :: nat
  js_due_today :: nat
  js_overdue :: nat
  js_awaiting_proof :: nat
  js_balance :: f64
  js_deposits :: f64

definition no_jobs :: job_summary where
  "no_jobs = \<lparr>js_in_production = 0, js_ready = 0, js_due_today = 0, js_overdue = 0, js_awaiting_proof = 0,
     js_balance = 0, js_deposits = 0\<rparr>"

definition job_window :: time where
  "job_window = 90 * 24 * 3600 * 1000000000"

definition summary_row :: "uuid \<Rightarrow> uuid \<Rightarrow> time \<Rightarrow> pos_order \<Rightarrow> bool" where
  "summary_row tid outlet now po \<longleftrightarrow>
     po_tenant po = tid \<and> po_outlet po = outlet \<and> po_subtype po = ''service_job'' \<and>
     (po_status po \<in> {st_open, st_pending_payment} \<or> po_status po = st_completed \<and> po_created_at po \<ge> now - job_window)"

text \<open>One row of the loop; \<open>day_start\<close> is midnight in the outlet's location.\<close>

definition count_job :: "time \<Rightarrow> time \<Rightarrow> pos_order \<Rightarrow> job_summary \<Rightarrow> job_summary" where
  "count_job now day_start po s =
     (let job = job_of (po_metadata po)
      in if po_status po = st_completed then
           (if meta_get job ''collected_at'' \<noteq> None then s else s\<lparr>js_ready := js_ready s + 1\<rparr>)
         else
           (let balance = fl (po_total_amount po - po_paid_total po);
                s = s\<lparr>js_balance := (if balance > 0 then fl (js_balance s + balance) else js_balance s),
                      js_deposits := fl (js_deposits s + po_paid_total po)\<rparr>
            in if po_status po = st_pending_payment then s\<lparr>js_ready := js_ready s + 1\<rparr>
               else
                 (let s = s\<lparr>js_in_production := js_in_production s + 1,
                            js_awaiting_proof := js_awaiting_proof s +
                              (if as_str (meta_get job ''proof_status'') = ''sent'' then 1 else 0)\<rparr>;
                      raw = as_str (meta_get job ''due_at'')
                  in case (if raw = [] then None else parse_rfc3339 raw) of
                       None \<Rightarrow> s
                     | Some due \<Rightarrow>
                         if due < now then s\<lparr>js_overdue := js_overdue s + 1\<rparr>
                         else if day_start \<le> due \<and> due < day_start + 86400000000000
                           then s\<lparr>js_due_today := js_due_today s + 1\<rparr>
                         else s)))"

definition job_summary_of :: "uuid \<Rightarrow> uuid \<Rightarrow> time \<Rightarrow> time \<Rightarrow> pos_order list option \<Rightarrow> job_summary option" where
  "job_summary_of tid outlet now day_start rows =
     map_option (\<lambda>rs. fold (count_job now day_start) (filter (summary_row tid outlet now) rs) no_jobs) rows"

section \<open>The header and its history\<close>

lemma format_rfc3339_nonempty: "format_rfc3339 t \<noteq> []"
  by (simp add: format_rfc3339_def Let_def)

definition entry_stage :: "json \<Rightarrow> string" where
  "entry_stage e = (case e of JObj m \<Rightarrow> as_str (meta_get m ''stage'') | _ \<Rightarrow> [])"

lemma entry_stage_history [simp]: "entry_stage (history_entry env actor stage) = stage"
  by (simp add: entry_stage_def history_entry_def)

definition stage_allowed :: "service_profile option \<Rightarrow> string \<Rightarrow> bool" where
  "stage_allowed prof stage \<longleftrightarrow>
     (case prof of Some p \<Rightarrow> sp_stages p = [] \<or> has_stage p stage | None \<Rightarrow> True)"

definition job_ok :: "service_profile option \<Rightarrow> meta \<Rightarrow> bool" where
  "job_ok prof job \<longleftrightarrow>
     stage_history job \<noteq> [] \<and> entry_stage (last (stage_history job)) = job_stage job \<and>
     as_str (meta_get job ''proof_status'') \<in> set valid_proof_statuses \<and>
     stage_allowed prof (job_stage job)"

lemma meta_reads:
  assumes "k \<notin> {''stage'', ''stage_history''}"
  shows "stage_history (meta_set k v job) = stage_history job" "job_stage (meta_set k v job) = job_stage job"
  using assms by (auto simp: stage_history_def job_stage_def)

lemma job_ok_set:
  "k \<notin> {''stage'', ''stage_history'', ''proof_status''} \<Longrightarrow> job_ok prof (meta_set k v job) = job_ok prof job"
  by (auto simp: job_ok_def meta_reads)

text \<open>What every step of an update keeps: the header stays well formed, its history only grows and a
  collection, once recorded, is never rewritten.\<close>

definition job_grows :: "meta \<Rightarrow> meta \<Rightarrow> bool" where
  "job_grows job job' \<longleftrightarrow>
     prefix (stage_history job) (stage_history job') \<and>
     (meta_get job ''collected_at'' \<noteq> None \<longrightarrow> meta_get job' ''collected_at'' = meta_get job ''collected_at'')"

lemma job_grows_refl [simp]: "job_grows job job"
  by (simp add: job_grows_def)

lemma job_grows_trans: "job_grows a b \<Longrightarrow> job_grows b c \<Longrightarrow> job_grows a c"
  unfolding job_grows_def by (auto intro: prefix_order.order_trans)

lemma job_grows_set:
  "k \<notin> {''stage_history'', ''collected_at''} \<Longrightarrow> job_grows job (meta_set k v job)"
  by (auto simp: job_grows_def stage_history_def)

definition step_ok :: "service_profile option \<Rightarrow> meta \<Rightarrow> meta \<Rightarrow> bool" where
  "step_ok prof job job' \<longleftrightarrow> (job_ok prof job \<longrightarrow> job_ok prof job') \<and> job_grows job job'"

lemma step_ok_refl [simp]: "step_ok prof job job"
  by (simp add: step_ok_def)

lemma step_ok_trans: "step_ok prof a b \<Longrightarrow> step_ok prof b c \<Longrightarrow> step_ok prof a c"
  unfolding step_ok_def using job_grows_trans by blast

lemma step_due: "step_ok prof (fst s) (fst (update_due u s))"
  by (simp add: update_due_def step_ok_def job_ok_set job_grows_set split: option.split)

lemma step_design: "step_ok prof (fst s) (fst (update_design u s))"
  by (simp add: update_design_def step_ok_def job_ok_set job_grows_set split: option.split)

lemma step_brief: "update_brief u s = Inr s' \<Longrightarrow> step_ok prof (fst s) (fst s')"
  by (auto simp: update_brief_def step_ok_def job_ok_set job_grows_set Let_def split: option.splits if_splits)

lemma step_attachments: "update_attachments env u s = Inr s' \<Longrightarrow> step_ok prof (fst s) (fst s')"
  by (auto simp: update_attachments_def step_ok_def job_ok_set job_grows_set bind_err_Inr split: option.splits)

lemma step_proof: "update_proof u s = Inr s' \<Longrightarrow> step_ok prof (fst s) (fst s')"
  by (auto simp: update_proof_def step_ok_def job_ok_def meta_reads job_grows_set Let_def split: option.splits if_splits)

lemma step_stage:
  assumes "update_stage env actor u s = Inr s'" "je_profile env = prof"
  shows "step_ok prof (fst s) (fst s')"
proof -
  have "step_ok prof job (meta_set ''stage_history'' (JArr (stage_history job @ [history_entry env actor st])) (meta_set ''stage'' (JStr st) job))"
    if "stage_allowed prof st" for job st
    using that by (simp add: step_ok_def job_ok_def job_grows_def stage_history_def job_stage_def)
  moreover have "stage_allowed prof st"
    if "\<not> (case je_profile env of Some p \<Rightarrow> sp_stages p \<noteq> [] \<and> \<not> has_stage p st | None \<Rightarrow> False)" for st
    using that assms(2) by (cases prof) (auto simp: stage_allowed_def)
  ultimately show ?thesis
    using assms(1) by (cases "ju_stage u") (auto simp: update_stage_def Let_def simp del: meta_get_set split: if_splits)
qed

lemma step_collected: "step_ok prof (fst s) (fst (update_collected env u s))"
  by (auto simp: update_collected_def step_ok_def job_ok_set job_grows_def stage_history_def Let_def)

lemma apply_job_update_steps:
  assumes "apply_job_update env actor job u = Inr s" "je_profile env = prof"
  shows "step_ok prof job (fst s)"
proof -
  obtain s1 s2 s3 s4 where s: "update_brief u (update_due u (job, [])) = Inr s1"
    "update_attachments env u (update_design u s1) = Inr s2" "update_proof u s2 = Inr s3"
    "update_stage env actor u s3 = Inr s4" "s = update_collected env u s4"
    using assms(1) unfolding apply_job_update_def bind_err_Inr by blast
  have "step_ok prof job (fst (update_due u (job, [])))" using step_due [of prof "(job, [])" u] by simp
  also note step_brief [OF s(1)]
  finally (step_ok_trans) have "step_ok prof job (fst s1)" .
  also note step_design
  also (step_ok_trans) note step_attachments [OF s(2)]
  also (step_ok_trans) note step_proof [OF s(3)]
  also (step_ok_trans) note step_stage [OF s(4) assms(2)]
  also (step_ok_trans) note step_collected
  finally (step_ok_trans) show ?thesis unfolding s(5) .
qed

lemma profile_first_stage:
  "profile_ok p \<Longrightarrow> sp_stages p \<noteq> [] \<Longrightarrow> first_stage (Some p) \<noteq> [] \<and> has_stage p (first_stage (Some p))"
  by (cases "sp_stages p") (auto simp: profile_ok_def first_stage_def has_stage_def)

lemma first_stage_empty: "first_stage prof = [] \<or> (\<exists>p. prof = Some p \<and> sp_stages p \<noteq> [])"
  by (cases prof) (auto simp: first_stage_def split: list.split)

lemma stamp_stage_ok:
  assumes "case je_profile env of Some p \<Rightarrow> profile_ok p | None \<Rightarrow> True" "meta_get job ''stage'' = None"
  shows "job_ok (je_profile env) (stamp_stage env actor job)"
proof (cases "je_profile env")
  case None
  then show ?thesis using assms(2)
    by (simp add: stamp_stage_def job_ok_def stage_history_def job_stage_def first_stage_def valid_proof_statuses_def
        stage_allowed_def Let_def)
next
  case (Some p)
  show ?thesis
  proof (cases "sp_stages p = []")
    case True
    then show ?thesis using assms(2) Some
      by (simp add: stamp_stage_def job_ok_def stage_history_def job_stage_def first_stage_def valid_proof_statuses_def
        stage_allowed_def Let_def)
  next
    case False
    then show ?thesis using profile_first_stage [of p] assms Some
      by (simp add: stamp_stage_def job_ok_def stage_history_def job_stage_def valid_proof_statuses_def
        stage_allowed_def Let_def)
  qed
qed

lemma normalize_keys:
  "normalize_due raw job = Inr job' \<Longrightarrow> meta_get job' ''stage'' = meta_get job ''stage''"
  "normalize_brief raw job = Inr job' \<Longrightarrow> meta_get job' ''stage'' = meta_get job ''stage''"
  "normalize_brief raw job = Inr job' \<Longrightarrow> meta_get job' ''due_at'' = meta_get job ''due_at''"
  by (auto simp: normalize_due_def normalize_brief_def Let_def split: if_splits option.splits)

lemma normalize_new_job_ok:
  assumes "normalize_new_job env actor raw = Inr job" "case je_profile env of Some p \<Rightarrow> profile_ok p | None \<Rightarrow> True"
  shows "job_ok (je_profile env) job"
proof -
  obtain j1 j2 atts where j: "normalize_due raw [] = Inr j1" "normalize_brief raw j1 = Inr j2"
    and s: "job = stamp_stage env actor
      (let j3 = (if as_bool (meta_get raw ''design_from_scratch'') then meta_set ''design_from_scratch'' (JBool True) j2 else j2)
       in if atts \<noteq> [] then meta_set ''attachments'' (JArr atts) j3 else j3)" (is "_ = stamp_stage env actor ?j3")
    using assms(1) unfolding normalize_new_job_def bind_err_Inr Let_def by blast
  have "meta_get ?j3 ''stage'' = meta_get j2 ''stage''" by (simp add: Let_def)
  then have "meta_get ?j3 ''stage'' = None" using j by (simp add: normalize_keys)
  then show ?thesis unfolding s by (rule stamp_stage_ok [OF assms(2)])
qed

definition storable_year :: "time \<Rightarrow> bool" where
  "storable_year t \<longleftrightarrow> (let y = fst (civil_from_days (t div 1000000000 div 86400)) in 0 \<le> y \<and> y \<le> 9999)"

lemma parse_format: "storable_year t \<Longrightarrow> parse_rfc3339 (format_rfc3339 t) = Some (t - t mod 1000000000)"
  by (simp add: storable_year_def Let_def parse_format_rfc3339)

lemma stamp_stage_due: "meta_get (stamp_stage env actor job) ''due_at'' = meta_get job ''due_at''"
  by (simp add: stamp_stage_def Let_def split: option.split)

text \<open>
  C39. A due time is stored in UTC. Whatever RFC 3339 text the client sends as \<open>due_at\<close> (any offset,
  fractions of a second, spaces around it), if it falls in a year the format can write, the created
  header holds a text that ends in the designator \<open>Z\<close> of UTC and reads back as the same instant, to the
  second; so the dashboard's overdue test sees the promised time.
\<close>

theorem due_at_roundtrip:
  assumes "normalize_new_job env actor raw = Inr job" "trim_space (as_str (meta_get raw ''due_at'')) = s"
    "parse_rfc3339 s = Some t" "storable_year t"
  shows "\<exists>x. meta_get job ''due_at'' = Some (JStr x) \<and> x \<noteq> [] \<and> last x = CHR ''Z'' \<and>
    parse_rfc3339 x = Some (t - t mod 1000000000)"
proof -
  obtain j1 j2 atts where j: "normalize_due raw [] = Inr j1" "normalize_brief raw j1 = Inr j2"
    and job: "job = stamp_stage env actor
      (let j3 = (if as_bool (meta_get raw ''design_from_scratch'') then meta_set ''design_from_scratch'' (JBool True) j2 else j2)
       in if atts \<noteq> [] then meta_set ''attachments'' (JArr atts) j3 else j3)"
    using assms(1) unfolding normalize_new_job_def bind_err_Inr Let_def by blast
  have "s \<noteq> []" using assms(3) by (auto simp: parse_rfc3339_def parse_ymd_def)
  then have "meta_get j1 ''due_at'' = Some (JStr (format_rfc3339 t))"
    using j(1) assms(2,3) by (auto simp: normalize_due_def Let_def)
  then have "meta_get job ''due_at'' = Some (JStr (format_rfc3339 t))"
    unfolding job stamp_stage_due by (simp add: Let_def normalize_keys(3) [OF j(2)])
  moreover have "format_rfc3339 t \<noteq> []" "last (format_rfc3339 t) = CHR ''Z''"
    by (simp_all add: format_rfc3339_def Let_def split: prod.split)
  ultimately show ?thesis by (simp add: parse_format assms(4))
qed

definition sample_job_env :: job_env where
  "sample_job_env = \<lparr>je_url = (\<lambda>s. if prefix ''https://'' s then Some (''https'', drop 8 s) else None),
     je_show = (\<lambda>_. ''u''), je_now = 1772323200000000000, je_profile = Some printing_profile,
     je_save_ok = True, je_event_ok = True, je_close_ok = True, je_status_ok = True\<rparr>"

definition sample_raw :: meta where
  "sample_raw = [(''due_at'', JStr '' 2026-03-01T03:00:00.5+03:00 ''), (''brief'', JStr ''500 flyers''),
     (''attachments'', JArr [JObj [(''kind'', JStr ''Link''), (''url'', JStr ''https://x.co/a'')]])]"

theorem due_at_roundtrip_witness:
  "\<exists>job. normalize_new_job sample_job_env 5 sample_raw = Inr job \<and>
     meta_get job ''due_at'' = Some (JStr ''2026-03-01T00:00:00Z'') \<and>
     parse_rfc3339 ''2026-03-01T00:00:00Z'' = Some 1772323200000000000"
proof -
  have ok: "case normalize_new_job sample_job_env 5 sample_raw of
      Inr job \<Rightarrow> as_str (meta_get job ''due_at'') = ''2026-03-01T00:00:00Z'' | Inl _ \<Rightarrow> False" by code_simp
  then obtain job where job: "normalize_new_job sample_job_env 5 sample_raw = Inr job"
    by (cases "normalize_new_job sample_job_env 5 sample_raw") auto
  have "trim_space (as_str (meta_get sample_raw ''due_at'')) = ''2026-03-01T03:00:00.5+03:00''"
    "parse_rfc3339 ''2026-03-01T03:00:00.5+03:00'' = Some 1772323200500000000" "storable_year 1772323200500000000"
    by code_simp+
  from due_at_roundtrip [OF job this] obtain x where "meta_get job ''due_at'' = Some (JStr x)"
    "parse_rfc3339 x = Some 1772323200000000000" by auto
  then show ?thesis using ok job by auto
qed

inductive job_run :: "service_profile option \<Rightarrow> meta \<Rightarrow> bool" for prof where
  created: "normalize_new_job env actor raw = Inr job \<Longrightarrow> je_profile env = prof \<Longrightarrow> job_run prof job"
| updated: "job_run prof job \<Longrightarrow> apply_job_update env actor job u = Inr (job', ch) \<Longrightarrow> je_profile env = prof
     \<Longrightarrow> job_run prof job'"

lemma job_run_ok:
  assumes "job_run prof job" "case prof of Some p \<Rightarrow> profile_ok p | None \<Rightarrow> True"
  shows "job_ok prof job"
  using assms(1)
proof induction
  case (created env actor raw job)
  then show ?case using normalize_new_job_ok assms(2) by blast
next
  case (updated job env actor u job' ch)
  then show ?case using apply_job_update_steps [OF updated.hyps(2,3)] by (simp add: step_ok_def)
qed

text \<open>
  C40. The job header is consistent with its history. From its creation and through every update the
  latest entry of the stage history is the job's stage, the stage is one of the outlet's profile, the
  proof status is one of the four; and an update only appends to the history and never rewrites the
  time of a collection.
\<close>

theorem job_header_invariant:
  assumes "prof = service_profile_from_metadata m" "job_run prof job" "je_profile env = prof"
    "apply_job_update env actor job u = Inr (job', ch)"
  shows "job_ok prof job \<and> job_ok prof job' \<and> job_grows job job'"
proof -
  have "case prof of Some p \<Rightarrow> profile_ok p | None \<Rightarrow> True"
    using assms(1) metadata_profile_ok by (auto split: option.split)
  then have "job_ok prof job" using assms(2) job_run_ok by blast
  then show ?thesis using apply_job_update_steps [OF assms(4,3)] by (simp add: step_ok_def)
qed

definition to_proof :: job_update where
  "to_proof = \<lparr>ju_due_at = None, ju_brief = None, ju_design = None, ju_attachments = None,
     ju_stage = Some '' Proof'', ju_proof = Some ''sent'', ju_collected = Some True\<rparr>"

theorem job_header_invariant_witness:
  "\<exists>job job' ch. normalize_new_job sample_job_env 5 sample_raw = Inr job \<and>
     apply_job_update sample_job_env 5 job to_proof = Inr (job', ch) \<and> job_stage job' = ''proof'' \<and>
     job_ok (Some printing_profile) job' \<and> job_grows job job'"
proof -
  let ?j = "normalize_new_job sample_job_env 5 sample_raw"
  have ok: "case ?j of Inr job \<Rightarrow> (case apply_job_update sample_job_env 5 job to_proof of
      Inr s \<Rightarrow> job_stage (fst s) = ''proof'' | Inl _ \<Rightarrow> False) | Inl _ \<Rightarrow> False" by code_simp
  then obtain job where job: "?j = Inr job" by (cases ?j) auto
  then obtain job' ch where u: "apply_job_update sample_job_env 5 job to_proof = Inr (job', ch)"
    using ok by (cases "apply_job_update sample_job_env 5 job to_proof") auto
  have prof: "je_profile sample_job_env = Some printing_profile" by (simp add: sample_job_env_def)
  have meta: "Some printing_profile = service_profile_from_metadata [(''service_profile'', JStr ''printing_branding'')]"
    using lookup_own_key [of printing_profile]
    by (simp add: service_profile_from_metadata_def service_profiles_def printing_profile_def Let_def)
  have "job_ok (Some printing_profile) job \<and> job_ok (Some printing_profile) job' \<and> job_grows job job'"
    using job_header_invariant [OF meta job_run.created [OF job prof] prof u] .
  then show ?thesis using ok job u by auto
qed

section \<open>What an update may touch\<close>

lemma job_gate_None:
  "job_gate po = None \<longleftrightarrow> po_subtype po = ''service_job'' \<and>
     (po_status po \<in> {st_open, st_pending_payment, st_awaiting_acceptance} \<or>
      po_status po = st_completed \<and> meta_get (job_of (po_metadata po)) ''collected_at'' = None)"
  by (auto simp: job_gate_def)

text \<open>An order with a new job header and, at most, the move from open to pending payment.\<close>

definition job_edit :: "pos_order \<Rightarrow> pos_order \<Rightarrow> bool" where
  "job_edit po po' \<longleftrightarrow>
     (\<exists>job st. po' = po\<lparr>po_metadata := meta_set ''job'' (JObj job) (po_metadata po), po_status := st\<rparr> \<and>
        (st = po_status po \<or> po_status po = st_open \<and> st = st_pending_payment))"

lemma job_edit_saved: "job_edit po (po\<lparr>po_metadata := meta_set ''job'' (JObj j) (po_metadata po)\<rparr>)"
  unfolding job_edit_def by (intro exI [of _ j] exI [of _ "po_status po"]) simp

lemma job_edit_moved:
  "po_status po = st_open \<Longrightarrow>
     job_edit po (po\<lparr>po_metadata := meta_set ''job'' (JObj j) (po_metadata po), po_status := st_pending_payment\<rparr>)"
  unfolding job_edit_def by (intro exI [of _ j] exI [of _ st_pending_payment]) simp

lemma close_order_tickets_others:
  "filter (\<lambda>t. kt_order t \<noteq> oid) (close_order_tickets ok now tid oid to ts) = filter (\<lambda>t. kt_order t \<noteq> oid) ts"
  by (induction ts) (auto simp: close_order_tickets_def)

lemma move_open_orders:
  "kd_orders (move_open_order tid oid to db) =
     (case kd_orders db oid of
        Some po \<Rightarrow> if po_tenant po = tid \<and> po_status po = st_open
                    then (kd_orders db)(oid \<mapsto> po\<lparr>po_status := to\<rparr>) else kd_orders db
      | None \<Rightarrow> kd_orders db)"
  by (simp add: move_open_order_def split: option.split)

text \<open>The database after the save, and after the best-effort statements of a finished job.\<close>

definition job_saved :: "uuid \<Rightarrow> pos_order \<Rightarrow> meta \<Rightarrow> kds_db \<Rightarrow> kds_db" where
  "job_saved oid po job db =
     db\<lparr>kd_orders := (kd_orders db)(oid \<mapsto> po\<lparr>po_metadata := meta_set ''job'' (JObj job) (po_metadata po)\<rparr>)\<rparr>"

definition job_finished :: "job_env \<Rightarrow> uuid \<Rightarrow> uuid \<Rightarrow> kds_db \<Rightarrow> kds_db" where
  "job_finished env tid oid db =
     (let db = db\<lparr>kd_tickets := close_order_tickets (je_close_ok env) (je_now env) tid oid Served (kd_tickets db)\<rparr>
      in if je_status_ok env then move_open_order tid oid st_pending_payment db else db)"

lemma update_job_cases:
  assumes "update_job env tid oid actor u db = (r, db', evs)"
  obtains e where "r = Inl e" "db' = db" "evs = []"
  | job where "r = Inr job" "db' = db" "evs = []"
  | po job ch where "kd_orders db oid = Some po" "po_tenant po = tid" "job_gate po = None"
      "apply_job_update env actor (job_of (po_metadata po)) u = Inr (job, ch)" "r = Inr job"
      "db' = job_saved oid po job db \<or> db' = job_finished env tid oid (job_saved oid po job db)"
proof -
  consider "find_order tid oid db = None" | po where "find_order tid oid db = Some po" by fastforce
  then show ?thesis
  proof cases
    case 1
    then show ?thesis using assms that(1) [of Job_Order_Not_Found] by (auto simp: update_job_def)
  next
    case (2 po)
    then have po: "kd_orders db oid = Some po" "po_tenant po = tid" by (simp_all add: find_order_Some)
    show ?thesis
    proof (cases "job_gate po")
      case (Some e)
      then show ?thesis using assms that(1) [of e] 2 by (auto simp: update_job_def)
    next
      case None
      show ?thesis
      proof (cases "apply_job_update env actor (job_of (po_metadata po)) u")
        case (Inl e)
        then show ?thesis using assms that(1) [of e] 2 None by (auto simp: update_job_def)
      next
        case (Inr s)
        then show ?thesis
          using assms that(1) [of Job_Save_Failed] that(2) [of "fst s"] that(3) [OF po None, of "fst s" "snd s"] 2 None po(2)
          by (auto simp: update_job_def job_saved_def job_finished_def Let_def split: if_splits)
      qed
    qed
  qed
qed

text \<open>
  What a job update may touch. Whatever statements fail, an update that reports an error has changed
  nothing; one that succeeds leaves every other order and every ticket of other orders as they were,
  and of its own order it changes nothing but the job header and, at most, the status from open to
  pending payment: no money, no line. It never succeeds on a closed order, except a paid job whose
  customer has not collected.
\<close>

theorem update_job_frame:
  assumes "update_job env tid oid actor u db = (r, db', evs)"
  shows "(isl r \<longrightarrow> db' = db \<and> evs = []) \<and>
    (\<forall>o'. o' \<noteq> oid \<longrightarrow> kd_orders db' o' = kd_orders db o') \<and>
    filter (\<lambda>t. kt_order t \<noteq> oid) (kd_tickets db') = filter (\<lambda>t. kt_order t \<noteq> oid) (kd_tickets db) \<and>
    (kd_orders db' oid = kd_orders db oid \<or>
     (\<exists>po po'. kd_orders db oid = Some po \<and> kd_orders db' oid = Some po' \<and> job_edit po po' \<and>
        po_status po \<notin> {st_draft, st_cancelled, st_voided, st_refunded}))"
  using assms
proof (cases rule: update_job_cases)
  case (3 po job ch)
  have st: "po_status po \<notin> {st_draft, st_cancelled, st_voided, st_refunded}"
    using 3(3) by (auto simp: job_gate_None)
  have saved: "kd_orders (job_saved oid po job db) = (kd_orders db)(oid \<mapsto> po\<lparr>po_metadata := meta_set ''job'' (JObj job) (po_metadata po)\<rparr>)"
    "kd_tickets (job_saved oid po job db) = kd_tickets db" by (simp_all add: job_saved_def)
  have "kd_tickets (job_finished env tid oid (job_saved oid po job db)) =
      close_order_tickets (je_close_ok env) (je_now env) tid oid Served (kd_tickets db)"
    by (simp add: job_finished_def saved Let_def)
  then have t: "filter (\<lambda>t. kt_order t \<noteq> oid) (kd_tickets db') = filter (\<lambda>t. kt_order t \<noteq> oid) (kd_tickets db)"
    using 3(6) saved(2) close_order_tickets_others by auto
  have "(\<forall>o'. o' \<noteq> oid \<longrightarrow> kd_orders db' o' = kd_orders db o') \<and> (\<exists>po'. kd_orders db' oid = Some po' \<and> job_edit po po')"
    using 3(6)
  proof
    assume "db' = job_saved oid po job db"
    then show ?thesis using saved job_edit_saved by simp
  next
    assume "db' = job_finished env tid oid (job_saved oid po job db)"
    then show ?thesis
      using job_edit_saved job_edit_moved 3(2)
      by (auto simp: job_finished_def Let_def move_open_orders saved)
  qed
  then show ?thesis using t st 3(1,5) by auto
qed simp_all

definition job_header :: meta where
  "job_header = [(''stage'', JStr ''finishing''), (''proof_status'', JStr ''approved''),
     (''stage_history'', JArr [JObj [(''stage'', JStr ''finishing'')]])]"

definition job_db :: kds_db where
  "job_db = \<lparr>kd_tickets = [\<lparr>kt_id = 9, kt_tenant = 2, kt_station = 4, kt_order = 50, kt_number = ''000050'', kt_status = In_Progress,
       kt_items = [1], kt_table_ref = [], kt_subtype = ''service_job'', kt_received_at = 0, kt_started_at = None, kt_completed_at = None\<rparr>],
     kd_orders = [50 \<mapsto> kitchen_order\<lparr>po_status := st_open, po_subtype := ''service_job'', po_metadata := [(''job'', JObj job_header)]\<rparr>],
     kd_external = (\<lambda>_. [])\<rparr>"

definition to_ready :: job_update where
  "to_ready = \<lparr>ju_due_at = None, ju_brief = None, ju_design = None, ju_attachments = None,
     ju_stage = Some ''ready'', ju_proof = None, ju_collected = None\<rparr>"

theorem update_job_frame_witness:
  "(let r = update_job sample_job_env 2 50 5 to_ready (job_db\<lparr>kd_orders := (kd_orders job_db)(51 \<mapsto> kitchen_order)\<rparr>)
    in kd_orders (fst (snd r)) 51 = Some kitchen_order \<and>
       map_option po_total_amount (kd_orders (fst (snd r)) 50) = map_option po_total_amount (kd_orders job_db 50))"
proof -
  let ?db = "job_db\<lparr>kd_orders := (kd_orders job_db)(51 \<mapsto> kitchen_order)\<rparr>"
  obtain r db' evs where r: "update_job sample_job_env 2 50 5 to_ready ?db = (r, db', evs)" by (metis prod_cases3)
  note f = update_job_frame [OF r]
  have "kd_orders db' 51 = Some kitchen_order" using conjunct1 [OF conjunct2 [OF f]] by simp
  moreover have "kd_orders ?db 50 = kd_orders job_db 50" by simp
  moreover have "map_option po_total_amount (kd_orders db' 50) = map_option po_total_amount (kd_orders ?db 50)"
    using conjunct2 [OF conjunct2 [OF conjunct2 [OF f]]] unfolding job_edit_def by fastforce
  ultimately show ?thesis unfolding Let_def r by simp
qed

text \<open>
  Finishing production hands the job over. When an update moves a job to the last stage of its
  profile and no statement fails, none of the order's tickets stays open on the production board, and
  an open order waits for payment; a job already paid stays completed.
\<close>

theorem finished_job_hand_over:
  assumes "find_order tid oid db = Some po" "job_gate po = None" "je_profile env = Some p"
    "apply_job_update env actor (job_of (po_metadata po)) u = Inr (job, ch)"
    "meta_get ch ''stage'' = Some (JStr stage)" "is_final_stage p stage"
    "je_save_ok env" "je_close_ok env" "je_status_ok env"
  shows "let db' = fst (snd (update_job env tid oid actor u db)) in
    fst (update_job env tid oid actor u db) = Inr job \<and>
    \<not> list_ex (\<lambda>t. kt_tenant t = tid \<and> kt_order t = oid \<and> ticket_open t) (kd_tickets db') \<and>
    map_option po_status (kd_orders db' oid) =
      Some (if po_status po = st_open then st_pending_payment else po_status po)"
proof -
  have po: "kd_orders db oid = Some po" "po_tenant po = tid" using assms(1) by (simp_all add: find_order_Some)
  have ch: "ch \<noteq> []" using assms(5) by auto
  have u: "update_job env tid oid actor u db =
      (Inr job, job_finished env tid oid (job_saved oid po job db), if je_event_ok env then [(oid, ch)] else [])"
    using assms ch po(2) by (simp add: update_job_def job_finished_def job_saved_def Let_def)
  have "\<not> list_ex (\<lambda>t. kt_tenant t = tid \<and> kt_order t = oid \<and> ticket_open t)
      (kd_tickets (job_finished env tid oid (job_saved oid po job db)))"
    using close_order_tickets_closed [of Served _ "je_now env" tid oid "kd_tickets (job_saved oid po job db)"] assms(8)
    by (simp add: job_finished_def Let_def list_ex_iff)
  moreover have "map_option po_status (kd_orders (job_finished env tid oid (job_saved oid po job db)) oid) =
      Some (if po_status po = st_open then st_pending_payment else po_status po)"
    using assms(9) po by (simp add: job_finished_def job_saved_def Let_def move_open_orders)
  ultimately show ?thesis by (simp add: u)
qed

theorem finished_job_hand_over_witness:
  "let r = update_job sample_job_env 2 50 5 to_ready job_db
   in map_option po_status (kd_orders (fst (snd r)) 50) = Some st_pending_payment \<and>
      filter ticket_open (kd_tickets (fst (snd r))) = []"
proof -
  let ?po = "kitchen_order\<lparr>po_status := st_open, po_subtype := ''service_job'', po_metadata := [(''job'', JObj job_header)]\<rparr>"
  let ?s = "apply_job_update sample_job_env 5 (job_of (po_metadata ?po)) to_ready"
  have ok: "case ?s of Inr s \<Rightarrow> snd s = [(''stage'', JStr ''ready'')] | Inl _ \<Rightarrow> False" by code_simp
  then obtain job where s: "?s = Inr (job, [(''stage'', JStr ''ready'')])" by (cases ?s) auto
  have "let db' = fst (snd (update_job sample_job_env 2 50 5 to_ready job_db)) in
      fst (update_job sample_job_env 2 50 5 to_ready job_db) = Inr job \<and>
      \<not> list_ex (\<lambda>t. kt_tenant t = 2 \<and> kt_order t = 50 \<and> ticket_open t) (kd_tickets db') \<and>
      map_option po_status (kd_orders db' 50) = Some (if po_status ?po = st_open then st_pending_payment else po_status ?po)"
  proof (rule finished_job_hand_over [where p = printing_profile, OF _ _ _ s])
    show "find_order 2 50 job_db = Some ?po" by code_simp
    show "job_gate ?po = None" by code_simp
    show "is_final_stage printing_profile ''ready''" by code_simp
  qed (simp_all add: sample_job_env_def)
  moreover have "list_all (\<lambda>t. kt_tenant t = 2 \<and> kt_order t = 50) (kd_tickets (fst (snd (update_job sample_job_env 2 50 5 to_ready job_db))))"
    by code_simp
  ultimately show ?thesis by (auto simp: Let_def list_ex_iff list_all_iff filter_empty_conv)
qed

section \<open>The dashboard adds up\<close>

definition waiting_job :: "pos_order \<Rightarrow> bool" where
  "waiting_job po \<longleftrightarrow>
     po_status po \<noteq> st_completed \<or> meta_get (job_of (po_metadata po)) ''collected_at'' = None"

definition summary_sound :: "job_summary \<Rightarrow> bool" where
  "summary_sound s \<longleftrightarrow> js_overdue s + js_due_today s \<le> js_in_production s \<and>
     js_awaiting_proof s \<le> js_in_production s \<and> 0 \<le> js_balance s"

lemma count_job_step:
  "summary_sound s \<Longrightarrow> summary_sound (count_job now day_start po s) \<and>
     js_in_production (count_job now day_start po s) + js_ready (count_job now day_start po s) =
     js_in_production s + js_ready s + (if waiting_job po then 1 else 0)"
  by (auto simp: count_job_def summary_sound_def waiting_job_def Let_def split: option.split if_splits)

lemma count_jobs:
  "summary_sound s \<Longrightarrow> summary_sound (fold (count_job now day_start) rs s) \<and>
     js_in_production (fold (count_job now day_start) rs s) + js_ready (fold (count_job now day_start) rs s) =
     js_in_production s + js_ready s + length (filter waiting_job rs)"
proof (induction rs arbitrary: s)
  case (Cons po rs)
  note c = count_job_step [OF Cons.prems, of now day_start po]
  then show ?case using Cons.IH [of "count_job now day_start po s"] by auto
qed simp

lemma count_unfinished:
  "js_in_production (fold (count_job now day_start) rs s) =
     js_in_production s + length (filter (\<lambda>po. po_status po \<noteq> st_completed \<and> po_status po \<noteq> st_pending_payment) rs)"
proof (induction rs arbitrary: s)
  case (Cons po rs)
  have "js_in_production (count_job now day_start po s) = js_in_production s +
      (if po_status po \<noteq> st_completed \<and> po_status po \<noteq> st_pending_payment then 1 else 0)"
    by (simp add: count_job_def Let_def split: option.split)
  then show ?case using Cons.IH [of "count_job now day_start po s"] by simp
qed simp

text \<open>
  The dashboard adds up. Every job the query returns is counted exactly once, in production or ready
  for collection, except a paid one already collected; the jobs in production are the open ones; the
  overdue and due-today counts are of jobs in production and never overlap; and the balance is never
  negative (an overpaid job does not reduce what the others owe).
\<close>

theorem job_summary_adds_up:
  assumes "job_summary_of tid outlet now day_start (Some rows) = Some s"
  shows "js_in_production s + js_ready s = length (filter waiting_job (filter (summary_row tid outlet now) rows)) \<and>
    js_in_production s = length (filter (\<lambda>po. summary_row tid outlet now po \<and> po_status po = st_open) rows) \<and>
    js_overdue s + js_due_today s \<le> js_in_production s \<and> js_awaiting_proof s \<le> js_in_production s \<and> 0 \<le> js_balance s"
proof -
  have s: "s = fold (count_job now day_start) (filter (summary_row tid outlet now) rows) no_jobs"
    using assms by (simp add: job_summary_of_def)
  have "summary_sound no_jobs" by (simp add: summary_sound_def no_jobs_def)
  note c = count_jobs [OF this, of now day_start "filter (summary_row tid outlet now) rows", folded s]
  have "(summary_row tid outlet now po \<and> po_status po \<noteq> st_completed \<and> po_status po \<noteq> st_pending_payment) =
      (summary_row tid outlet now po \<and> po_status po = st_open)" for po
    by (auto simp: summary_row_def)
  then have "js_in_production s = length (filter (\<lambda>po. summary_row tid outlet now po \<and> po_status po = st_open) rows)"
    unfolding s count_unfinished by (simp add: no_jobs_def conj_commute)
  then show ?thesis using c by (simp add: summary_sound_def no_jobs_def)
qed

definition job_rows :: "pos_order list" where
  "job_rows =
     [kitchen_order\<lparr>po_status := st_open, po_subtype := ''service_job'', po_metadata := [(''job'', JObj [(''due_at'', JStr ''2020-01-01T00:00:00Z'')])],
        po_total_amount := 100, po_paid_total := 30\<rparr>,
      kitchen_order\<lparr>po_status := st_completed, po_subtype := ''service_job'', po_metadata := [(''job'', JObj [(''collected_at'', JStr ''x'')])]\<rparr>,
      kitchen_order\<lparr>po_status := st_pending_payment, po_subtype := ''service_job'', po_total_amount := 50, po_paid_total := 80\<rparr>]"

theorem job_summary_adds_up_witness:
  "\<exists>s. job_summary_of (po_tenant kitchen_order) (po_outlet kitchen_order) (po_created_at kitchen_order + 1772323200000000000)
        1772323200000000000 (Some job_rows) = Some s
     \<and> js_in_production s + js_ready s = 2 \<and> js_overdue s = 1 \<and> js_balance s = 70"
proof -
  let ?o = "job_summary_of (po_tenant kitchen_order) (po_outlet kitchen_order) (po_created_at kitchen_order + 1772323200000000000)
        1772323200000000000 (Some job_rows)"
  obtain s where s: "?o = Some s" by (simp add: job_summary_of_def)
  have "length (filter waiting_job (filter (summary_row (po_tenant kitchen_order) (po_outlet kitchen_order)
      (po_created_at kitchen_order + 1772323200000000000)) job_rows)) = 2"
    by code_simp
  moreover have "map_option (\<lambda>s. (js_overdue s, js_balance s)) ?o = Some (1, 70)" by code_simp
  ultimately show ?thesis using job_summary_adds_up [OF s] s by auto
qed

end
