(* ===== verification/Order_Create.thy ===== *)
theory Order_Create
  imports Order_Lines Service_Jobs Settlement Doc_Sequence
begin

text \<open>
  \<open>CreateOrder\<close> and \<open>AddOrderLines\<close> of \<open>internal/modules/orders/service.go\<close>, whole: the idempotency
  lookup, the backdate, the number, the complimentary lines, variants, happy hour, taxes and totals,
  the subtype and job header, the transaction with its faults, and what follows the commit (promotion
  audit, event, boards). The state \<open>order_store\<close> holds the tables and caches the two touch;
  \<open>create_env\<close> holds the wired functions, the settings rows, the clock, the ids the database hands
  out and which statements succeed.
\<close>

section \<open>Requests and state\<close>

record create_request =
  rq_tenant :: uuid
  rq_slug :: string
  rq_outlet :: uuid
  rq_device :: uuid
  rq_user :: uuid
  rq_served_by :: uuid
  rq_number :: string
  rq_client_ref :: string
  rq_offline_at :: "time option"
  rq_currency :: string
  rq_lines :: "order_line_input list"
  rq_metadata :: meta
  rq_subtype :: string
  rq_table :: string
  rq_phone :: string
  rq_name :: string
  rq_discount :: f64
  rq_order_tax :: f64
  rq_charges :: "(string \<times> f64) list"
  rq_source :: string
  rq_business_date :: string
  rq_skip_discounts :: bool
  rq_hold :: bool

datatype create_error =
    Invalid_Business_Date date_error
  | Invalid_Order_Subtype string
  | Invalid_Job job_error
  | Add_Not_Found
  | Add_To_Closed string
  | Begin_Failed
  | Order_Insert_Failed
  | Line_Insert_Failed
  | Modifier_Insert_Failed
  | Totals_Update_Failed
  | Commit_Failed
  | Reload_Failed

datatype create_event =
    Order_Created uuid string rat
  | Live order_event
  | Additional_Chits uuid uuid

record order_store =
  or_seq :: seq_table
  or_orders :: "pos_order list"
  or_modifiers :: modifier_db
  or_taxes :: tax_cache
  or_variants :: variant_cache
  or_tickets :: "kds_ticket list"
  or_promos :: "(uuid \<times> uuid \<times> rat) list"
  or_events :: "create_event list"

record create_env =
  cn_dec :: dec_lib
  cn_tax :: tax_env
  cn_settings :: "outlet_setting option"
  cn_currency :: string
  cn_use_case :: string
  cn_overrides :: "catalog_override list"
  cn_variants :: variant_env
  cn_modifiers :: modifier_env
  cn_eval :: "(timed_line list \<Rightarrow> hh_outcome) option"
  cn_record :: bool
  cn_publisher :: bool
  cn_issue :: issue_env
  cn_job :: job_env
  cn_midnight :: "int \<Rightarrow> time"
  cn_today :: int
  cn_now :: time
  cn_seq :: "attempt list option"
  cn_prefix :: string
  cn_unix_ms :: int
  cn_order_id :: uuid
  cn_line_id :: "nat \<Rightarrow> uuid"
  cn_others :: "pos_order list \<Rightarrow> pos_order list"
  cn_lookup_ok :: bool
  cn_begin_ok :: bool
  cn_insert_ok :: bool
  cn_line_ok :: "nat \<Rightarrow> bool"
  cn_mods_ok :: "nat \<Rightarrow> bool"
  cn_update_ok :: bool
  cn_commit_ok :: bool
  cn_reload_ok :: bool

section \<open>The pieces of CreateOrder\<close>

definition find_by_ref :: "uuid \<Rightarrow> string \<Rightarrow> pos_order list \<Rightarrow> pos_order option" where
  "find_by_ref tid ref orders = find (\<lambda>po. po_tenant po = tid \<and> po_client_ref po = Some ref) orders"

text \<open>The two unique indexes of \<open>pos_orders\<close>.\<close>

definition conflicts_with :: "pos_order \<Rightarrow> pos_order \<Rightarrow> bool" where
  "conflicts_with po q \<longleftrightarrow> po_tenant q = po_tenant po \<and>
     (po_number q = po_number po \<or> po_client_ref po \<noteq> None \<and> po_client_ref q = po_client_ref po)"

definition generate_order_number ::
  "create_env \<Rightarrow> string" where
  "generate_order_number env = cn_prefix env @ ''-'' @ show_int (cn_unix_ms env)"

definition generate_order_number_ctx :: "create_env \<Rightarrow> uuid \<Rightarrow> seq_table \<Rightarrow> seq_table \<times> string" where
  "generate_order_number_ctx env tid t =
     (case cn_seq env of
        None \<Rightarrow> (t, generate_order_number env)
      | Some ats \<Rightarrow>
          (let r = generate_number tid ''order'' ats t
           in (fst r, case snd r of Inr n \<Rightarrow> if n \<noteq> [] then n else generate_order_number env
                      | Inl e \<Rightarrow> generate_order_number env)))"

definition zero_non_billable :: "order_line_input \<Rightarrow> order_line_input" where
  "zero_non_billable l =
     (if line_is_non_billable (li_metadata l) then l\<lparr>li_unit_price := 0, li_total_price := 0\<rparr> else l)"

definition no_outcome :: hh_outcome where
  "no_outcome = \<lparr>ho_promo = uuid_nil, ho_name = [], ho_discount = 0, ho_by_sku = Map.empty,
     ho_contributing = [], ho_per_promo = None\<rparr>"

definition evaluate_happy_hour :: "create_env \<Rightarrow> bool \<Rightarrow> order_line_input list \<Rightarrow> hh_outcome" where
  "evaluate_happy_hour env skip lines =
     (case cn_eval env of
        Some f \<Rightarrow>
          if skip then no_outcome
          else (let out = f (map (\<lambda>l. (l, cn_now env)) lines) in if ho_discount out > 0 then out else no_outcome)
      | None \<Rightarrow> no_outcome)"

definition added_tax :: "dec_lib \<Rightarrow> resolved_line_tax list \<Rightarrow> rat" where
  "added_tax L taxes =
     fold (\<lambda>t sum. if rt_has_info t \<and> \<not> rt_inclusive t \<and> rt_amount t > 0 then sum + of_float L (rt_amount t) else sum)
       taxes 0"

definition calculate_totals_with_taxes ::
  "dec_lib \<Rightarrow> order_line_input list \<Rightarrow> resolved_line_tax list \<Rightarrow> rat \<Rightarrow> rat \<Rightarrow> rat \<Rightarrow> order_totals" where
  "calculate_totals_with_taxes L lines taxes discount charges order_tax =
     finalize_totals L (fold (\<lambda>l sum. sum + input_total L l) lines 0) (added_tax L taxes) discount charges order_tax"

definition valid_order_subtypes :: "string list" where
  "valid_order_subtypes =
     [''dine_in'', ''takeaway'', ''room_service'', ''delivery'', ''bar_tab'', ''retail'', ''service_job'']"

definition resolve_subtype :: "string \<Rightarrow> string \<Rightarrow> create_error + string" where
  "resolve_subtype use_case requested =
     (let s = to_lower (trim_space requested)
      in if s = [] then Inr (default_order_subtype use_case)
         else if s = ''draft'' then Inr ''retail''
         else if s \<in> set valid_order_subtypes then Inr s
         else Inl (Invalid_Order_Subtype requested))"

definition job_meta :: "create_env \<Rightarrow> uuid \<Rightarrow> string \<Rightarrow> meta \<Rightarrow> create_error + meta" where
  "job_meta env actor subtype m =
     (if subtype \<noteq> ''service_job'' then Inr m
      else case normalize_new_job (cn_job env) actor (job_of m) of
        Inl e \<Rightarrow> Inl (Invalid_Job e)
      | Inr job \<Rightarrow> Inr (meta_set ''job'' (JObj job) m))"

definition order_meta ::
  "dec_lib \<Rightarrow> create_request \<Rightarrow> hh_outcome \<Rightarrow> order_totals \<Rightarrow> meta \<Rightarrow> meta" where
  "order_meta L rq out totals m =
     (let m = (if ho_discount out > 0
               then (let m = meta_set ''happy_hour_discount'' (JNum (to_float L (ho_discount out))) m
                     in if ho_name out \<noteq> [] then meta_set ''happy_hour_promo'' (JStr (ho_name out)) m else m)
               else m);
          m = (if ot_charges_total totals > 0 \<and> rq_charges rq \<noteq> []
               then meta_set ''charges'' (JObj (map (\<lambda>(k, v). (k, JNum v)) (filter (\<lambda>c. snd c > 0) (rq_charges rq)))) m
               else m)
      in if of_float L (rq_order_tax rq) > 0
         then meta_set ''order_tax'' (JObj [(''amount'', JNum (to_float L (of_float L (rq_order_tax rq))))]) m
         else m)"

definition set_opt :: "string \<Rightarrow> string option" where
  "set_opt s = (if s = [] then None else Some s)"

definition initial_status :: "bool \<Rightarrow> order_workflow \<Rightarrow> string" where
  "initial_status hold flow =
     (if hold then st_awaiting_acceptance else if open_on_create flow then st_open else st_draft)"

definition build_order ::
  "create_env \<Rightarrow> create_request \<Rightarrow> string \<Rightarrow> string \<Rightarrow> order_totals \<Rightarrow> meta \<Rightarrow> time option \<Rightarrow> order_line list \<Rightarrow> pos_order" where
  "build_order env rq number subtype t m business_date lines =
     (let L = cn_dec env
      in \<lparr>po_id = cn_order_id env, po_tenant = rq_tenant rq, po_outlet = rq_outlet rq, po_device = rq_device rq,
          po_user = rq_user rq,
          po_served_by = Some (if rq_served_by rq \<noteq> uuid_nil then rq_served_by rq else rq_user rq),
          po_number = number, po_client_ref = set_opt (rq_client_ref rq), po_offline_created_at = rq_offline_at rq,
          po_status = initial_status (rq_hold rq) (workflow_for (cn_use_case env) subtype),
          po_source = (if rq_source rq = [] then ''pos_terminal'' else rq_source rq),
          po_subtotal = to_float L (ot_subtotal t), po_tax_total = to_float L (ot_tax_total t),
          po_discount_total = to_float L (ot_discount_total t), po_total_amount = to_float L (ot_total_amount t),
          po_charges_total = to_float L (ot_charges_total t), po_round_off = to_float L (ot_round_off t), po_paid_total = 0,
          po_currency = (if rq_currency rq \<noteq> [] then rq_currency rq else outlet_currency (cn_currency env) (cn_settings env)),
          po_subtype = subtype, po_metadata = m, po_customer_phone = set_opt (rq_phone rq),
          po_customer_name = set_opt (rq_name rq), po_business_date = business_date, po_created_at = cn_now env,
          po_lines = lines\<rparr>)"

text \<open>The lines of one transaction, the \<open>n\<close>-th first: its row, then its modifiers.\<close>

fun save_lines ::
  "create_env \<Rightarrow> uuid \<Rightarrow> router \<Rightarrow> (string \<rightharpoonup> uuid) \<Rightarrow> (order_line_input \<Rightarrow> meta) \<Rightarrow> nat \<Rightarrow> order_line_input list
     \<Rightarrow> resolved_line_tax list \<Rightarrow> modifier_db \<Rightarrow> create_error + order_line list \<times> modifier_db" where
  "save_lines env tid r pins mk n (l # ls) (t # ts) db =
     (if \<not> cn_line_ok env n then Inl Line_Insert_Failed
      else
        (let row = store_line (cn_dec env) r pins (cn_now env) (cn_line_id env n) (mk l) l t
         in case create_line_modifiers (cn_modifiers env) (cn_mods_ok env n) tid (ol_id row) (li_modifiers l) db of
              None \<Rightarrow> Inl Modifier_Insert_Failed
            | Some db \<Rightarrow>
                bind_err (save_lines env tid r pins mk (Suc n) ls ts db) (\<lambda>(rows, db). Inr (row # rows, db))))"
| "save_lines env tid r pins mk n _ _ db = Inr ([], db)"

definition promo_audits :: "uuid \<Rightarrow> hh_outcome \<Rightarrow> (uuid \<times> uuid \<times> rat) list" where
  "promo_audits oid out =
     (case ho_per_promo out of
        Some shares \<Rightarrow>
          if ho_contributing out \<noteq> []
          then concat (map (\<lambda>pid. case shares pid of Some amt \<Rightarrow> if amt > 0 then [(pid, oid, amt)] else [] | None \<Rightarrow> [])
                 (ho_contributing out))
          else if ho_promo out \<noteq> uuid_nil \<and> ho_discount out > 0 then [(ho_promo out, oid, ho_discount out)] else []
      | None \<Rightarrow> if ho_promo out \<noteq> uuid_nil \<and> ho_discount out > 0 then [(ho_promo out, oid, ho_discount out)] else [])"

section \<open>CreateOrder\<close>

text \<open>What is computed before the transaction opens.\<close>

record create_plan =
  pl_lines :: "order_line_input list"
  pl_outcome :: hh_outcome
  pl_taxes :: "resolved_line_tax list"
  pl_totals :: order_totals

definition plan_lines :: "create_env \<Rightarrow> create_request \<Rightarrow> order_store \<Rightarrow> order_store \<times> create_plan" where
  "plan_lines env rq st =
     (let L = cn_dec env;
          v = stamp_line_variants (cn_variants env) (rq_tenant rq) (map zero_non_billable (rq_lines rq)) (or_variants st);
          out = evaluate_happy_hour env (rq_skip_discounts rq) (snd v);
          t = resolve_line_taxes L (cn_tax env) (cn_overrides env) (rq_tenant rq) (rq_slug rq) (snd v)
                (outlet_fallback_tax L (cn_settings env)) (or_taxes st)
      in (st\<lparr>or_variants := fst v, or_taxes := fst t\<rparr>,
          \<lparr>pl_lines = snd v, pl_outcome = out, pl_taxes = snd t,
           pl_totals = calculate_totals_with_taxes L (snd v) (snd t) (of_float L (rq_discount rq) + ho_discount out)
             (sum_charges L (rq_charges rq)) (of_float L (rq_order_tax rq))\<rparr>))"

text \<open>
  The transaction. Other sessions' orders (\<open>cn_others\<close>) may commit before the insert; when the insert
  meets one of the unique indexes and the request has a client reference, the order another session
  created for that reference is returned.
\<close>

definition create_tx ::
  "create_env \<Rightarrow> create_request \<Rightarrow> string \<Rightarrow> string \<Rightarrow> meta \<Rightarrow> time option \<Rightarrow> create_plan \<Rightarrow> order_store
     \<Rightarrow> order_store \<times> (create_error + pos_order \<times> bool)" where
  "create_tx env rq number subtype m business_date p st =
     (if \<not> cn_begin_ok env then (st, Inl Begin_Failed)
      else
        (let st = st\<lparr>or_orders := cn_others env (or_orders st)\<rparr>;
             po = build_order env rq number subtype (pl_totals p) m business_date [];
             r = new_router (ie_stations (cn_issue env)) (ie_tree (cn_issue env));
             rows = line_overrides (cn_overrides env) (rq_tenant rq) (pl_lines p);
             by = ho_by_sku (pl_outcome p);
             mk = create_line_meta (cn_dec env) (ho_name (pl_outcome p)) by (hh_sku_total (cn_dec env) by (pl_lines p))
         in if list_ex (conflicts_with po) (or_orders st) then
              (st, if rq_client_ref rq \<noteq> [] \<and> cn_lookup_ok env
                   then (case find_by_ref (rq_tenant rq) (rq_client_ref rq) (or_orders st) of
                           Some q \<Rightarrow> Inr (q, False) | None \<Rightarrow> Inl Order_Insert_Failed)
                   else Inl Order_Insert_Failed)
            else if \<not> cn_insert_ok env then (st, Inl Order_Insert_Failed)
            else case save_lines env (rq_tenant rq) r (kds_override_by_sku rows) mk 0 (pl_lines p) (pl_taxes p) (or_modifiers st) of
              Inl e \<Rightarrow> (st, Inl e)
            | Inr s \<Rightarrow>
                if \<not> cn_commit_ok env then (st, Inl Commit_Failed)
                else (let po = po\<lparr>po_lines := fst s\<rparr>
                      in (st\<lparr>or_orders := or_orders st @ [po], or_modifiers := snd s\<rparr>, Inr (po, True)))))"

definition after_create ::
  "create_env \<Rightarrow> create_request \<Rightarrow> string \<Rightarrow> create_plan \<Rightarrow> pos_order \<Rightarrow> order_store \<Rightarrow> order_store \<times> (create_error + pos_order)" where
  "after_create env rq subtype p po st =
     (let st = (if cn_record env then st\<lparr>or_promos := or_promos st @ promo_audits (po_id po) (pl_outcome p)\<rparr> else st)
      in if \<not> cn_reload_ok env then (st, Inl Reload_Failed)
         else
           (let st = (if cn_publisher env
                 then st\<lparr>or_events := or_events st @ [Order_Created (po_id po) (po_number po) (ot_total_amount (pl_totals p))]\<rparr>
                 else st);
                routed = route_new_order (cn_issue env) po (workflow_for (cn_use_case env) subtype) (or_tickets st)
            in if rq_hold rq then (st, Inr po)
               else (st\<lparr>or_tickets := fst routed, or_events := or_events st @ map Live (snd routed)\<rparr>, Inr po)))"

definition create_order ::
  "create_env \<Rightarrow> create_request \<Rightarrow> order_store \<Rightarrow> order_store \<times> (create_error + pos_order)" where
  "create_order env rq st =
     (case (if rq_client_ref rq \<noteq> [] \<and> cn_lookup_ok env
            then find_by_ref (rq_tenant rq) (rq_client_ref rq) (or_orders st) else None) of
        Some po \<Rightarrow> (st, Inr po)
      | None \<Rightarrow>
          (case (if trim_space (rq_business_date rq) = [] then Inr None
                 else (case parse_and_validate_effective_date (cn_midnight env) (cn_today env) (rq_business_date rq) of
                         Inl e \<Rightarrow> Inl (Invalid_Business_Date e) | Inr d \<Rightarrow> Inr (Some d))) of
             Inl e \<Rightarrow> (st, Inl e)
           | Inr business_date \<Rightarrow>
               (let num = (if rq_number rq = [] then generate_order_number_ctx env (rq_tenant rq) (or_seq st)
                           else (or_seq st, rq_number rq));
                    planned = plan_lines env rq (st\<lparr>or_seq := fst num\<rparr>);
                    st = fst planned; p = snd planned
                in case resolve_subtype (cn_use_case env) (rq_subtype rq) of
                     Inl e \<Rightarrow> (st, Inl e)
                   | Inr subtype \<Rightarrow>
                       (let m = (if rq_table rq \<noteq> [] then meta_set ''table_id'' (JStr (rq_table rq)) (rq_metadata rq)
                                 else rq_metadata rq)
                        in case job_meta env (rq_user rq) subtype m of
                             Inl e \<Rightarrow> (st, Inl e)
                           | Inr m \<Rightarrow>
                               (let r = create_tx env rq (snd num) subtype
                                      (order_meta (cn_dec env) rq (pl_outcome p) (pl_totals p) m) business_date p st
                                in case snd r of
                                     Inl e \<Rightarrow> (fst r, Inl e)
                                   | Inr (po, fresh) \<Rightarrow>
                                       if fresh then after_create env rq subtype p po (fst r) else (fst r, Inr po))))))"

section \<open>AddOrderLines\<close>

definition replace_order :: "pos_order \<Rightarrow> pos_order list \<Rightarrow> pos_order list" where
  "replace_order po = map (\<lambda>q. if po_id q = po_id po then po else q)"

definition add_reopens :: "create_env \<Rightarrow> pos_order \<Rightarrow> bool" where
  "add_reopens env po \<longleftrightarrow>
     po_status po = st_pending_payment \<or>
     po_status po = st_draft \<and> open_on_create (workflow_for (cn_use_case env) (po_subtype po))"

text \<open>The order with the added rows: the happy hour re-evaluated over all lines, the manual discount kept.\<close>

definition with_added_lines :: "create_env \<Rightarrow> pos_order \<Rightarrow> order_line list \<Rightarrow> pos_order" where
  "with_added_lines env po rows =
     (let L = cn_dec env;
          all_lines = po_lines po @ rows;
          agg = active_sums L all_lines;
          explicit = max 0 (of_float L (po_discount_total po) - hh_amount_from_meta L (po_metadata po));
          hh = recompute_stacked_happy_hour L (cn_eval env) po all_lines;
          discount = explicit + fst hh;
          totals = finalize_totals L (fst agg) (snd agg) discount (of_float L (po_charges_total po))
            (order_tax_of_meta L (po_metadata po))
      in store_totals L totals
           (po\<lparr>po_discount_total := to_float L discount, po_metadata := fst (snd hh), po_lines := snd (snd hh),
              po_status := (if add_reopens env po then st_open else po_status po)\<rparr>))"

definition add_order_lines ::
  "create_env \<Rightarrow> uuid \<Rightarrow> string \<Rightarrow> uuid \<Rightarrow> order_line_input list \<Rightarrow> order_store \<Rightarrow> order_store \<times> (create_error + pos_order)" where
  "add_order_lines env tid slug oid lines st =
     (case find (\<lambda>po. po_id po = oid \<and> po_tenant po = tid) (or_orders st) of
        None \<Rightarrow> (st, Inl Add_Not_Found)
      | Some po \<Rightarrow>
          if po_status po \<in> set closed_statuses then (st, Inl (Add_To_Closed (po_status po)))
          else
            (let L = cn_dec env;
                 v = stamp_line_variants (cn_variants env) tid lines (or_variants st);
                 rows = line_overrides (cn_overrides env) tid (snd v);
                 r = new_router (ie_stations (cn_issue env)) (ie_tree (cn_issue env));
                 t = resolve_line_taxes L (cn_tax env) (cn_overrides env) tid slug (snd v)
                       (outlet_fallback_tax L (cn_settings env)) (or_taxes st);
                 st = st\<lparr>or_variants := fst v, or_taxes := fst t\<rparr>
             in if \<not> cn_begin_ok env then (st, Inl Begin_Failed)
                else case save_lines env tid r (kds_override_by_sku rows) li_metadata 0 (snd v) (snd t) (or_modifiers st) of
                  Inl e \<Rightarrow> (st, Inl e)
                | Inr s \<Rightarrow>
                    if \<not> cn_update_ok env then (st, Inl Totals_Update_Failed)
                    else if \<not> cn_commit_ok env then (st, Inl Commit_Failed)
                    else
                      (let po' = with_added_lines env po (fst s);
                           st = st\<lparr>or_orders := replace_order po' (or_orders st), or_modifiers := snd s\<rparr>;
                           issued = create_kds_tickets_for_new_lines (cn_issue env) po' (fst s) (or_tickets st)
                       in if \<not> cn_reload_ok env then (st, Inl Reload_Failed)
                          else case fst s of
                            [] \<Rightarrow> (st, Inr po')
                          | l # _ \<Rightarrow>
                              (st\<lparr>or_tickets := fst issued,
                                  or_events := or_events st @ map (Live \<circ> Kds) (snd issued) @ [Additional_Chits oid (ol_id l)]\<rparr>,
                               Inr po'))))"

end
