(* ===== verification/Order_Create_Safety.thy ===== *)
theory Order_Create_Safety
  imports Order_Create
begin

text \<open>
  What \<open>CreateOrder\<close> and \<open>AddOrderLines\<close> guarantee: the header agrees with the stored lines, a replayed
  request returns the first order, an error leaves no order, complimentary lines are free, a held order
  reaches no board, an addition stores what was asked for; and, at the end, the places where the code does not
  do what its comments promise.
\<close>

section \<open>The ways a creation can go\<close>

text \<open>The tables, without the counter and the caches.\<close>

definition tables :: "order_store \<Rightarrow> pos_order list \<times> modifier_db \<times> kds_ticket list \<times> (uuid \<times> uuid \<times> rat) list \<times> create_event list" where
  "tables st = (or_orders st, or_modifiers st, or_tickets st, or_promos st, or_events st)"

lemma plan_lines_tables [simp]: "tables (fst (plan_lines env rq st)) = tables st"
  by (simp add: plan_lines_def tables_def Let_def)

lemma plan_lines_seq [simp]: "snd (plan_lines env rq (st\<lparr>or_seq := t\<rparr>)) = snd (plan_lines env rq st)"
  by (simp add: plan_lines_def Let_def)

lemma tables_seq [simp]: "tables (st\<lparr>or_seq := t\<rparr>) = tables st"
  by (simp add: tables_def)

lemma tables_orders: "tables st = tables st' \<Longrightarrow> or_orders st = or_orders st'"
  by (simp add: tables_def)

definition create_pins :: "create_env \<Rightarrow> create_request \<Rightarrow> create_plan \<Rightarrow> (string \<rightharpoonup> uuid)" where
  "create_pins env rq p = kds_override_by_sku (line_overrides (cn_overrides env) (rq_tenant rq) (pl_lines p))"

definition create_meta :: "create_env \<Rightarrow> create_plan \<Rightarrow> order_line_input \<Rightarrow> meta" where
  "create_meta env p = create_line_meta (cn_dec env) (ho_name (pl_outcome p)) (ho_by_sku (pl_outcome p))
     (hh_sku_total (cn_dec env) (ho_by_sku (pl_outcome p)) (pl_lines p))"

definition env_router :: "create_env \<Rightarrow> router" where
  "env_router env = new_router (ie_stations (cn_issue env)) (ie_tree (cn_issue env))"

text \<open>A fresh order: no row of the table has its number or reference, and its lines were all saved.\<close>

definition fresh_tx ::
  "create_env \<Rightarrow> create_request \<Rightarrow> string \<Rightarrow> string \<Rightarrow> meta \<Rightarrow> time option \<Rightarrow> create_plan \<Rightarrow> order_store \<Rightarrow> pos_order \<Rightarrow> order_store \<Rightarrow> bool" where
  "fresh_tx env rq number subtype m d p st po st' \<longleftrightarrow>
     (\<exists>rows db. save_lines env (rq_tenant rq) (env_router env) (create_pins env rq p) (create_meta env p) 0
          (pl_lines p) (pl_taxes p) (or_modifiers st) = Inr (rows, db) \<and>
        po = build_order env rq number subtype (pl_totals p) m d rows \<and>
        \<not> list_ex (conflicts_with po) (cn_others env (or_orders st)) \<and>
        st' = st\<lparr>or_orders := cn_others env (or_orders st) @ [po], or_modifiers := db\<rparr>)"

lemma conflicts_lines: "conflicts_with (build_order env rq n s t m d rows) = conflicts_with (build_order env rq n s t m d [])"
  by (simp add: fun_eq_iff conflicts_with_def build_order_def Let_def)

lemma build_order_lines: "(build_order env rq n s t m d [])\<lparr>po_lines := rows\<rparr> = build_order env rq n s t m d rows"
  by (simp add: build_order_def Let_def)

lemma save_lines_error:
  "save_lines env tid r pins mk n ls ts db = Inl e \<Longrightarrow> e = Line_Insert_Failed \<or> e = Modifier_Insert_Failed"
  by (induction env tid r pins mk n ls ts db rule: save_lines.induct)
     (auto simp: Let_def bind_err_def split: if_splits option.splits sum.splits)

lemma create_tx_cases:
  assumes "create_tx env rq number subtype m d p st = (st', r)"
  obtains (failed) e where "r = Inl e" "e \<noteq> Reload_Failed"
      "tables st' = tables st \<or> tables st' = tables (st\<lparr>or_orders := cn_others env (or_orders st)\<rparr>)"
  | (winner) q where "r = Inr (q, False)" "rq_client_ref rq \<noteq> []"
      "find_by_ref (rq_tenant rq) (rq_client_ref rq) (cn_others env (or_orders st)) = Some q"
      "st' = st\<lparr>or_orders := cn_others env (or_orders st)\<rparr>"
  | (fresh) po where "r = Inr (po, True)" "fresh_tx env rq number subtype m d p st po st'"
proof -
  let ?st = "st\<lparr>or_orders := cn_others env (or_orders st)\<rparr>"
  let ?po = "build_order env rq number subtype (pl_totals p) m d []"
  let ?save = "save_lines env (rq_tenant rq) (env_router env) (create_pins env rq p) (create_meta env p) 0 (pl_lines p) (pl_taxes p) (or_modifiers st)"
  note d = create_tx_def [of env rq number subtype m d p st, unfolded Let_def, folded env_router_def create_pins_def create_meta_def]
  consider "\<not> cn_begin_ok env" | "cn_begin_ok env" "list_ex (conflicts_with ?po) (or_orders ?st)"
    | "cn_begin_ok env" "\<not> list_ex (conflicts_with ?po) (or_orders ?st)" "\<not> cn_insert_ok env"
    | e where "cn_begin_ok env" "\<not> list_ex (conflicts_with ?po) (or_orders ?st)" "cn_insert_ok env" "?save = Inl e"
    | s where "cn_begin_ok env" "\<not> list_ex (conflicts_with ?po) (or_orders ?st)" "cn_insert_ok env" "?save = Inr s"
    by (cases ?save) blast+
  then show ?thesis
  proof cases
    case 1
    then show ?thesis using assms failed [of Begin_Failed] by (simp add: d)
  next
    case 2
    then show ?thesis
      using assms failed [of Order_Insert_Failed] winner
      by (auto simp: d split: if_splits option.splits)
  next
    case 3
    then show ?thesis using assms failed [of Order_Insert_Failed] by (simp add: d)
  next
    case (4 e)
    have "e \<noteq> Reload_Failed" using save_lines_error [OF 4(4)] by auto
    then show ?thesis using 4 assms failed [of e] by (simp add: d)
  next
    case (5 s)
    show ?thesis
    proof (cases "cn_commit_ok env")
      case False
      then show ?thesis using 5 assms failed [of Commit_Failed] by (simp add: d)
    next
      case True
      then show ?thesis
        using 5 assms fresh [of "build_order env rq number subtype (pl_totals p) m d (fst s)"]
          conflicts_lines [of env rq number subtype "pl_totals p" m d "fst s"]
        by (cases s) (auto simp: d fresh_tx_def build_order_lines)
    qed
  qed
qed

lemma after_create_cases:
  assumes "after_create env rq subtype p po st = (st', r)"
  shows "or_orders st' = or_orders st \<and> or_modifiers st' = or_modifiers st \<and>
    (if cn_reload_ok env then r = Inr po else r = Inl Reload_Failed) \<and>
    (rq_hold rq \<longrightarrow> or_tickets st' = or_tickets st)"
  using assms by (auto simp: after_create_def Let_def split: if_splits)

text \<open>What follows the lookup and the date, over the plan and the header metadata.\<close>

definition base_meta :: "create_request \<Rightarrow> meta" where
  "base_meta rq = (if rq_table rq \<noteq> [] then meta_set ''table_id'' (JStr (rq_table rq)) (rq_metadata rq) else rq_metadata rq)"

abbreviation the_plan :: "create_env \<Rightarrow> create_request \<Rightarrow> order_store \<Rightarrow> create_plan" where
  "the_plan env rq st \<equiv> snd (plan_lines env rq st)"

abbreviation full_meta :: "create_env \<Rightarrow> create_request \<Rightarrow> order_store \<Rightarrow> meta \<Rightarrow> meta" where
  "full_meta env rq st m \<equiv>
     order_meta (cn_dec env) rq (pl_outcome (the_plan env rq st)) (pl_totals (the_plan env rq st)) m"

definition finish_create ::
  "create_env \<Rightarrow> create_request \<Rightarrow> order_store \<Rightarrow> string \<Rightarrow> time option \<Rightarrow> order_store \<Rightarrow> order_store \<times> (create_error + pos_order)" where
  "finish_create env rq st number d stp =
     (case bind_err (resolve_subtype (cn_use_case env) (rq_subtype rq))
             (\<lambda>s. bind_err (job_meta env (rq_user rq) s (base_meta rq)) (\<lambda>m. Inr (s, m))) of
        Inl e \<Rightarrow> (stp, Inl e)
      | Inr (subtype, m) \<Rightarrow>
          (let r = create_tx env rq number subtype (full_meta env rq st m) d (the_plan env rq st) stp
           in case snd r of
                Inl e \<Rightarrow> (fst r, Inl e)
              | Inr (po, fresh) \<Rightarrow>
                  if fresh then after_create env rq subtype (the_plan env rq st) po (fst r) else (fst r, Inr po)))"

lemma create_order_finish:
  assumes "(if rq_client_ref rq \<noteq> [] \<and> cn_lookup_ok env then find_by_ref (rq_tenant rq) (rq_client_ref rq) (or_orders st) else None) = None"
    "(if trim_space (rq_business_date rq) = [] then Inr None
      else (case parse_and_validate_effective_date (cn_midnight env) (cn_today env) (rq_business_date rq) of
              Inl e \<Rightarrow> Inl (Invalid_Business_Date e) | Inr d \<Rightarrow> Inr (Some d))) = Inr d"
  obtains number stp where "tables stp = tables st" "create_order env rq st = finish_create env rq st number d stp"
proof -
  define num where "num = (if rq_number rq = [] then generate_order_number_ctx env (rq_tenant rq) (or_seq st) else (or_seq st, rq_number rq))"
  define stp where "stp = fst (plan_lines env rq (st\<lparr>or_seq := fst num\<rparr>))"
  have "create_order env rq st = finish_create env rq st (snd num) d stp"
    unfolding create_order_def assms option.case sum.case Let_def num_def [symmetric] stp_def [symmetric] plan_lines_seq
      base_meta_def [symmetric]
    by (simp add: finish_create_def bind_err_def Let_def split: sum.split)
  moreover have "tables stp = tables st" by (simp add: stp_def)
  ultimately show ?thesis using that by blast
qed

lemma early_errors:
  "bind_err (resolve_subtype u s) (\<lambda>s. bind_err (job_meta env a s m0) (\<lambda>m. Inr (s, m))) = Inl e \<Longrightarrow> e \<noteq> Reload_Failed"
  by (auto simp: bind_err_def resolve_subtype_def job_meta_def Let_def split: if_splits sum.splits)

text \<open>How a request ends: answered from the table, refused, lost to a concurrent replay, or created.\<close>

lemma create_order_cases:
  assumes "create_order env rq st = (st', r)"
  obtains (replay) po where "r = Inr po" "st' = st" "rq_client_ref rq \<noteq> []" "cn_lookup_ok env"
      "find_by_ref (rq_tenant rq) (rq_client_ref rq) (or_orders st) = Some po"
  | (refused) e where "r = Inl e" "e \<noteq> Reload_Failed"
      "tables st' = tables st \<or> tables st' = tables (st\<lparr>or_orders := cn_others env (or_orders st)\<rparr>)"
  | (winner) q where "r = Inr q" "rq_client_ref rq \<noteq> []"
      "find_by_ref (rq_tenant rq) (rq_client_ref rq) (cn_others env (or_orders st)) = Some q"
      "tables st' = tables (st\<lparr>or_orders := cn_others env (or_orders st)\<rparr>)"
  | (fresh) po number subtype m d stp st1 where
      "fresh_tx env rq number subtype (full_meta env rq st m) d (the_plan env rq st) stp po st1"
      "job_meta env (rq_user rq) subtype (base_meta rq) = Inr m"
      "resolve_subtype (cn_use_case env) (rq_subtype rq) = Inr subtype"
      "tables stp = tables st" "after_create env rq subtype (the_plan env rq st) po st1 = (st', r)"
proof (cases "if rq_client_ref rq \<noteq> [] \<and> cn_lookup_ok env then find_by_ref (rq_tenant rq) (rq_client_ref rq) (or_orders st) else None")
  case (Some po)
  then show ?thesis using assms replay [of po] by (auto simp: create_order_def split: if_splits)
next
  case None
  show ?thesis
  proof (cases "if trim_space (rq_business_date rq) = [] then Inr None
      else (case parse_and_validate_effective_date (cn_midnight env) (cn_today env) (rq_business_date rq) of
              Inl e \<Rightarrow> Inl (Invalid_Business_Date e) | Inr d \<Rightarrow> Inr (Some d))")
    case (Inl e)
    then show ?thesis using assms None refused [of e]
      by (auto simp: create_order_def split: if_splits sum.splits)
  next
    case (Inr d)
    obtain number stp where stp: "tables stp = tables st" and c: "create_order env rq st = finish_create env rq st number d stp"
      using create_order_finish [OF None Inr] .
    let ?pre = "bind_err (resolve_subtype (cn_use_case env) (rq_subtype rq))
      (\<lambda>s. bind_err (job_meta env (rq_user rq) s (base_meta rq)) (\<lambda>m. Inr (s, m)))"
    have orders: "or_orders stp = or_orders st" using stp by (rule tables_orders)
    have upd: "tables (stp\<lparr>or_orders := x\<rparr>) = tables (st\<lparr>or_orders := x\<rparr>)" for x using stp by (simp add: tables_def)
    show ?thesis
    proof (cases ?pre)
      case (Inl e)
      then show ?thesis using assms refused [of e] stp early_errors [OF Inl] by (simp add: c finish_create_def)
    next
      case (Inr sm)
      obtain subtype m where sm: "sm = (subtype, m)" by (cases sm)
      note pre = Inr [unfolded sm]
      then have sub: "resolve_subtype (cn_use_case env) (rq_subtype rq) = Inr subtype"
        "job_meta env (rq_user rq) subtype (base_meta rq) = Inr m" by (auto simp: bind_err_Inr)
      obtain st1 r1 where tx: "create_tx env rq number subtype (full_meta env rq st m) d (the_plan env rq st) stp = (st1, r1)"
        by fastforce
      note f = c [unfolded finish_create_def pre sum.case prod.case tx Let_def fst_conv snd_conv]
      from tx show ?thesis
      proof (cases rule: create_tx_cases)
        case (failed e)
        then show ?thesis using assms refused [of e] stp orders upd by (simp add: f)
      next
        case (winner q)
        then show ?thesis using assms that(3) [of q] orders upd by (auto simp: f)
      next
        case (fresh po)
        then have "after_create env rq subtype (the_plan env rq st) po st1 = (st', r)" using assms by (simp add: f)
        then show ?thesis using that(4) [OF fresh(2) sub(2,1) stp] by blast
      qed
    qed
  qed
qed

section \<open>Replays, errors, unique rows\<close>

lemma find_by_ref_Some:
  "find_by_ref tid ref xs = Some po \<Longrightarrow> po \<in> set xs \<and> po_tenant po = tid \<and> po_client_ref po = Some ref"
  by (auto simp: find_by_ref_def find_Some_iff)

lemma find_by_ref_fresh:
  assumes "\<not> list_ex (conflicts_with po) xs" "po_tenant po = tid" "po_client_ref po = Some ref"
  shows "find_by_ref tid ref (xs @ [po]) = Some po"
  using assms by (induction xs) (auto simp: find_by_ref_def conflicts_with_def)

lemma fresh_tx_props:
  assumes "fresh_tx env rq number subtype m d p stp po st1"
  shows "po_tenant po = rq_tenant rq" "po_client_ref po = set_opt (rq_client_ref rq)"
    "or_orders st1 = cn_others env (or_orders stp) @ [po]" "\<not> list_ex (conflicts_with po) (cn_others env (or_orders stp))"
    "or_tickets st1 = or_tickets stp" "po_id po = cn_order_id env"
    "po_status po = initial_status (rq_hold rq) (workflow_for (cn_use_case env) subtype)" "po_metadata po = m" "po_subtype po = subtype"
  using assms by (auto simp: fresh_tx_def build_order_def Let_def)

text \<open>
  C5. A replayed sale is answered with the order it created. When a request with a client reference
  succeeded, a later request of the tenant with the same reference, whatever else it says, returns
  that very order and changes nothing: no second order, number, ticket, event or promotion record. It
  holds also when the first request itself lost a race against another session.
\<close>

theorem replay_returns_first_order:
  assumes "create_order env rq st = (st', Inr po)" "rq_client_ref rq \<noteq> []"
    "rq_tenant rq' = rq_tenant rq" "rq_client_ref rq' = rq_client_ref rq" "cn_lookup_ok env'"
  shows "create_order env' rq' st' = (st', Inr po)"
proof -
  have "find_by_ref (rq_tenant rq) (rq_client_ref rq) (or_orders st') = Some po"
    using assms(1)
  proof (cases rule: create_order_cases)
    case (winner q)
    then have "or_orders st' = cn_others env (or_orders st)" by (simp add: tables_def)
    then show ?thesis using winner by simp
  next
    case (fresh q number subtype m d stp st1)
    note f = fresh_tx_props [OF fresh(1)] and a = after_create_cases [OF fresh(5)]
    have "q = po" "or_orders st' = cn_others env (or_orders stp) @ [q]" using a f(3) by (auto split: if_splits)
    then show ?thesis using f(1,2,4) assms(2) by (simp add: find_by_ref_fresh set_opt_def)
  qed simp_all
  then show ?thesis using assms by (simp add: create_order_def)
qed

text \<open>
  C7. An error leaves no order. When a creation is refused for any reason before its commit (the date, the
  subtype, the job header, a duplicate number, a failing statement at any line), the tables are those
  the other sessions left: no order, no line, no modifier, no kitchen ticket, no promotion record and
  no event of this request.
\<close>

theorem failed_create_leaves_nothing:
  assumes "create_order env rq st = (st', Inl e)" "e \<noteq> Reload_Failed"
  shows "tables st' = tables st \<or> tables st' = tables (st\<lparr>or_orders := cn_others env (or_orders st)\<rparr>)"
  using assms(1)
proof (cases rule: create_order_cases)
  case (fresh q number subtype m d stp st1)
  then show ?thesis using after_create_cases [OF fresh(5)] assms(2) by (auto split: if_splits)
qed auto

section \<open>The header agrees with the lines\<close>

definition storable :: "dec_lib \<Rightarrow> rat \<Rightarrow> bool" where
  "storable L d \<longleftrightarrow> of_float L (to_float L d) = d"

lemma save_lines_nth:
  assumes "save_lines env tid r pins mk n ls ts db = Inr (rows, db')" "length ts = length ls"
  shows "length rows = length ls \<and>
    (\<forall>i < length ls. rows ! i = store_line (cn_dec env) r pins (cn_now env) (cn_line_id env (n + i)) (mk (ls ! i)) (ls ! i) (ts ! i))"
  using assms
proof (induction env tid r pins mk n ls ts db arbitrary: rows db' rule: save_lines.induct)
  case (1 env tid r pins mk n l ls t ts db)
  let ?row = "store_line (cn_dec env) r pins (cn_now env) (cn_line_id env n) (mk l) l t"
  obtain db1 rows1 where s: "cn_line_ok env n"
    "create_line_modifiers (cn_modifiers env) (cn_mods_ok env n) tid (ol_id ?row) (li_modifiers l) db = Some db1"
    "save_lines env tid r pins mk (Suc n) ls ts db1 = Inr (rows1, db')" "rows = ?row # rows1"
    using "1.prems"(1) by (auto simp: Let_def bind_err_Inr split: if_splits option.splits)
  have "length rows1 = length ls \<and> (\<forall>i < length ls. rows1 ! i =
      store_line (cn_dec env) r pins (cn_now env) (cn_line_id env (Suc n + i)) (mk (ls ! i)) (ls ! i) (ts ! i))"
    using "1.IH" [OF _ refl s(2) s(3)] s(1) "1.prems"(2) by simp
  then show ?case unfolding s(4) by (auto simp: less_Suc_eq_0_disj)
qed auto

context decimal_lib begin

lemma is_f64_to_float: "is_f64 (to_float L d)"
  by (simp add: to_float_nearest is_f64_def)

lemma active_sums_stored:
  assumes "length rows = length ls" "length ts = length ls" "list_all (\<lambda>l. storable L (input_total L l)) ls" "list_all tax_sound ts"
    "\<forall>i < length ls. \<exists>r pins now k m. rows ! i = store_line L r pins now k m (ls ! i) (ts ! i)"
  shows "active_sums L rows = (fold (\<lambda>l sum. sum + input_total L l) ls 0, added_tax L ts)"
proof -
  have step: "(a + of_float L (fl (ol_total_price row * active_fraction row)),
      (case ol_tax_amount row of
         Some ta \<Rightarrow> if \<not> ol_inclusive row then b + of_float L (fl (ta * active_fraction row)) else b | None \<Rightarrow> b)) =
      (a + input_total L l,
       if rt_has_info t \<and> \<not> rt_inclusive t \<and> rt_amount t > 0 then b + of_float L (rt_amount t) else b)"
    if "row = store_line L r pins now k m l t" "storable L (input_total L l)" "tax_sound t" for row r pins now k m l t a b
  proof -
    have "fl (to_float L (input_total L l)) = to_float L (input_total L l)" using is_f64_to_float by (simp add: is_f64_def)
    moreover have "fl (rt_amount t) = rt_amount t" using that(3) by (simp add: tax_sound_def is_f64_def)
    ultimately show ?thesis
      using that by (auto simp: store_line_def active_fraction_def storable_def tax_sound_def)
  qed
  have "fold (\<lambda>ol (subtotal, tax_total).
        (subtotal + of_float L (fl (ol_total_price ol * active_fraction ol)),
         (case ol_tax_amount ol of
            Some ta \<Rightarrow> if \<not> ol_inclusive ol then tax_total + of_float L (fl (ta * active_fraction ol)) else tax_total
          | None \<Rightarrow> tax_total))) rows (a, b)
      = (fold (\<lambda>l sum. sum + input_total L l) ls a,
         fold (\<lambda>t sum. if rt_has_info t \<and> \<not> rt_inclusive t \<and> rt_amount t > 0 then sum + of_float L (rt_amount t) else sum) ts b)"
    for a b
    using assms
  proof (induction rows arbitrary: ls ts a b)
    case (Cons row rows)
    then obtain l ls' t ts' where l: "ls = l # ls'" "ts = t # ts'"
      by (cases ls; cases ts) simp_all
    have "\<exists>r pins now k m. row = store_line L r pins now k m l t" using Cons.prems(5) l by force
    then obtain r pins now k m where row: "row = store_line L r pins now k m l t" by blast
    have "\<forall>i < length ls'. \<exists>r pins now k m. rows ! i = store_line L r pins now k m (ls' ! i) (ts' ! i)"
      using Cons.prems(5) l by force
    then show ?case
      using step [OF row] Cons.prems(1-4) Cons.IH [of ls' ts'] by (simp add: l del: fold_Cons add: fold_simps)
  qed simp
  then show ?thesis by (simp add: active_sums_def added_tax_def)
qed

lemma finalize_again:
  assumes "t = finalize_totals L s x d c ot"
  shows "finalize_totals L s x (ot_discount_total t) (ot_charges_total t) (max 0 ot) = t"
proof -
  have d: "ot_discount_total t = dec_round L 2 (max 0 d)" and c: "ot_charges_total t = dec_round L 2 (max 0 c)"
    by (auto simp: assms finalize_totals_def Let_def max_def)
  have "0 \<le> dec_round L 2 (max 0 d)" "0 \<le> dec_round L 2 (max 0 c)" by simp_all
  then show ?thesis
    unfolding d c by (simp add: assms finalize_totals_def Let_def max_def not_less [symmetric])
qed

lemma finalize_max: "finalize_totals L s x d c (max 0 ot) = finalize_totals L s x d c ot"
  by (simp add: finalize_totals_def max_def)

lemma store_same:
  assumes "po_subtotal po = to_float L (ot_subtotal t)" "po_tax_total po = to_float L (ot_tax_total t)"
    "po_round_off po = to_float L (ot_round_off t)" "po_total_amount po = to_float L (ot_total_amount t)"
  shows "store_totals L t po = po"
  using assms by (simp add: store_totals_def)

lemma header_stored:
  assumes "t = calculate_totals_with_taxes L ls ts d c ot"
    "active_sums L (po_lines po) = (fold (\<lambda>l sum. sum + input_total L l) ls 0, added_tax L ts)"
    "order_tax_of_meta L (po_metadata po) = max 0 ot" "storable L (ot_discount_total t)" "storable L (ot_charges_total t)"
    "po_subtotal po = to_float L (ot_subtotal t)" "po_tax_total po = to_float L (ot_tax_total t)"
    "po_discount_total po = to_float L (ot_discount_total t)" "po_charges_total po = to_float L (ot_charges_total t)"
    "po_round_off po = to_float L (ot_round_off t)" "po_total_amount po = to_float L (ot_total_amount t)"
  shows "recompute_totals L po = po"
proof -
  have "finalize_totals L (fold (\<lambda>l sum. sum + input_total L l) ls 0) (added_tax L ts) (ot_discount_total t) (ot_charges_total t) (max 0 ot) = t"
    using assms(1) by (intro finalize_again) (simp add: calculate_totals_with_taxes_def)
  then show ?thesis
    using assms(2-) store_same [of po t] by (simp add: recompute_totals_def storable_def)
qed

end

lemma order_tax_meta:
  assumes "job_meta env u s (base_meta rq) = Inr m" "decimal_lib L" "L = cn_dec env"
    "is_f64 (rq_order_tax rq)" "order_tax_of_meta L (rq_metadata rq) = 0"
  shows "order_tax_of_meta L (order_meta L rq out totals m) = max 0 (of_float L (rq_order_tax rq))"
proof -
  have m: "meta_get m ''order_tax'' = meta_get (rq_metadata rq) ''order_tax''"
    using assms(1) by (auto simp: job_meta_def base_meta_def split: if_splits sum.splits)
  have keep: "meta_get (order_meta L rq out totals m) ''order_tax'' = meta_get m ''order_tax''"
    if "\<not> of_float L (rq_order_tax rq) > 0"
    using that by (simp add: order_meta_def Let_def)
  have set: "meta_get (order_meta L rq out totals m) ''order_tax'' = Some (JObj [(''amount'', JNum (rq_order_tax rq))])"
    if "of_float L (rq_order_tax rq) > 0"
    using that decimal_lib.of_to_float [OF assms(2,4)] by (simp add: order_meta_def Let_def)
  have pos: "rq_order_tax rq > 0" if "of_float L (rq_order_tax rq) > 0"
    using that decimal_lib.of_float_mono [OF assms(2), of "rq_order_tax rq" 0] decimal_lib.of_float_0 [OF assms(2)] by force
  show ?thesis
  proof (cases "of_float L (rq_order_tax rq) > 0")
    case True
    then show ?thesis using set pos by (simp add: order_tax_of_meta_def)
  next
    case False
    have "order_tax_of_meta L (order_meta L rq out totals m) = order_tax_of_meta L (rq_metadata rq)"
      unfolding order_tax_of_meta_def keep [OF False] m by (rule refl)
    then show ?thesis using False assms(5) by simp
  qed
qed

lemma plan_simps:
  "pl_totals (the_plan env rq st) = calculate_totals_with_taxes (cn_dec env) (pl_lines (the_plan env rq st)) (pl_taxes (the_plan env rq st))
     (of_float (cn_dec env) (rq_discount rq) + ho_discount (pl_outcome (the_plan env rq st)))
     (sum_charges (cn_dec env) (rq_charges rq)) (of_float (cn_dec env) (rq_order_tax rq))"
  "pl_lines (the_plan env rq st) = snd (stamp_line_variants (cn_variants env) (rq_tenant rq) (map zero_non_billable (rq_lines rq)) (or_variants st))"
  "\<exists>c. pl_taxes (the_plan env rq st) = snd (resolve_line_taxes (cn_dec env) (cn_tax env) (cn_overrides env) (rq_tenant rq) (rq_slug rq)
     (pl_lines (the_plan env rq st)) (outlet_fallback_tax (cn_dec env) (cn_settings env)) c)"
  by (auto simp: plan_lines_def Let_def)

lemma plan_line_totals:
  "map (input_total L) (pl_lines (the_plan env rq st)) = map (input_total L \<circ> zero_non_billable) (rq_lines rq)"
proof -
  obtain found where "pl_lines (the_plan env rq st) = map (stamp_variant (cn_variants env) found \<circ> drop_variant) (map zero_non_billable (rq_lines rq))"
    using stamp_variants_shape plan_simps(2) by metis
  then show ?thesis by (simp add: input_total_def stamp_variant_keeps drop_variant_keeps)
qed

lemma storable_zeroed:
  assumes "decimal_lib L" "storable L (input_total L l)"
  shows "storable L (input_total L (zero_non_billable l))"
proof -
  have z: "to_float L 0 = 0" "of_float L 0 = 0"
    using decimal_lib.to_float_nearest [OF assms(1)] decimal_lib.of_float_0 [OF assms(1)] by simp_all
  show ?thesis
  proof (cases "line_is_non_billable (li_metadata l)")
    case True
    then show ?thesis by (simp add: zero_non_billable_def input_total_def line_total_def storable_def Let_def z)
  qed (use assms(2) in \<open>simp add: zero_non_billable_def\<close>)
qed

text \<open>
  C6. A new order's headline totals are those its own lines give. Whatever happy hour, order-level tax,
  charges and complimentary lines the request has, recomputing the stored order from its stored rows
  (what \<open>RecomputeTotals\<close> does after a void) changes no field: the tax lines, the discounts and
  the charges were counted once each. The amounts are assumed to be ones a float64 column holds
  exactly, and the request not to smuggle an \<open>order_tax\<close> of its own into the metadata.
\<close>

theorem header_matches_lines:
  assumes "create_order env rq st = (st', Inr po)" "po \<notin> set (or_orders st)" "po \<notin> set (cn_others env (or_orders st))"
    "decimal_lib (cn_dec env)" "vat_lib (te_split (cn_tax env))"
    "list_all (\<lambda>l. storable (cn_dec env) (input_total (cn_dec env) l)) (rq_lines rq)"
    "storable (cn_dec env) (ot_discount_total (pl_totals (snd (plan_lines env rq st))))"
    "storable (cn_dec env) (ot_charges_total (pl_totals (snd (plan_lines env rq st))))"
    "is_f64 (rq_order_tax rq)" "order_tax_of_meta (cn_dec env) (rq_metadata rq) = 0"
  shows "recompute_totals (cn_dec env) po = po"
  using assms(1)
proof (cases rule: create_order_cases)
  case (fresh q number subtype m d stp st1)
  let ?L = "cn_dec env" and ?p = "the_plan env rq st"
  have q: "q = po" using after_create_cases [OF fresh(5)] by (auto split: if_splits)
  obtain rows db where save: "save_lines env (rq_tenant rq) (env_router env) (create_pins env rq ?p) (create_meta env ?p) 0
      (pl_lines ?p) (pl_taxes ?p) (or_modifiers stp) = Inr (rows, db)"
    and po: "po = build_order env rq number subtype (pl_totals ?p) (full_meta env rq st m) d rows"
    using fresh(1) unfolding fresh_tx_def q by blast
  obtain c where c: "pl_taxes ?p = snd (resolve_line_taxes ?L (cn_tax env) (cn_overrides env) (rq_tenant rq) (rq_slug rq)
     (pl_lines ?p) (outlet_fallback_tax ?L (cn_settings env)) c)" using plan_simps(3) by blast
  have len: "length (pl_taxes ?p) = length (pl_lines ?p)" and sound: "list_all tax_sound (pl_taxes ?p)"
    using line_taxes_shape [OF assms(5)] by (simp_all add: c)
  have stor: "list_all (\<lambda>l. storable ?L (input_total ?L l)) (pl_lines ?p)"
  proof -
    have "list_all (storable ?L) (map (input_total ?L) (pl_lines ?p))"
      unfolding plan_line_totals using assms(6) storable_zeroed [OF assms(4)] by (auto simp: list_all_iff)
    then show ?thesis by (simp add: list_all_iff)
  qed
  have sums: "active_sums ?L rows = (fold (\<lambda>l sum. sum + input_total ?L l) (pl_lines ?p) 0, added_tax ?L (pl_taxes ?p))"
    using save_lines_nth [OF save len] by (intro decimal_lib.active_sums_stored [OF assms(4) _ len stor sound]) blast+
  show ?thesis
    by (rule decimal_lib.header_stored [OF assms(4) plan_simps(1) _ _ assms(7,8)])
      (simp_all add: po build_order_def Let_def sums order_tax_meta [OF fresh(2) assms(4) refl assms(9,10)])
next
  case (replay q)
  then show ?thesis using assms(2) find_by_ref_Some by fastforce
next
  case (winner q)
  then show ?thesis using assms(3) find_by_ref_Some by fastforce
qed simp_all

section \<open>Complimentary lines and held orders\<close>

lemma free_line_untaxed:
  assumes "li_unit_price l = 0" "li_total_price l = 0"
  shows "rt_amount (snd (resolve_line_tax L env slug by_sku fb l c)) = 0"
proof -
  have a: "line_amount l = 0" and z: "fst (compute_line_tax env 0 rate incl) = 0" for rate incl
    using assms by (simp_all add: line_amount_def compute_line_tax_def)
  have tiers: "rt_amount r = 0 \<Longrightarrow> rt_amount (snd (try_code env slug code incl 0 r c')) = 0"
    "rt_amount r = 0 \<Longrightarrow> rt_amount (till_rate env l r) = 0" "rt_amount r = 0 \<Longrightarrow> rt_amount (fallback_rate L env fb l r) = 0"
    for code incl r c'
    by (auto simp: try_code_def till_rate_def fallback_rate_def a z Let_def split: option.split)
  show ?thesis by (simp add: resolve_line_tax_def a tiers no_tax_def Let_def)
qed

lemma fresh_line:
  assumes "fresh_tx env rq number subtype m d (the_plan env rq st) stp po st1" "vat_lib (te_split (cn_tax env))" "i < length (rq_lines rq)"
  obtains l c where "length (po_lines po) = length (rq_lines rq)"
    "po_lines po ! i = store_line (cn_dec env) (env_router env) (create_pins env rq (the_plan env rq st)) (cn_now env) (cn_line_id env i)
       (create_meta env (the_plan env rq st) l) l
       (snd (resolve_line_tax (cn_dec env) (cn_tax env) (rq_slug rq)
          (tax_by_sku (line_overrides (cn_overrides env) (rq_tenant rq) (pl_lines (the_plan env rq st))))
          (outlet_fallback_tax (cn_dec env) (cn_settings env)) l c))"
    "li_sku l = li_sku (rq_lines rq ! i)" "li_unit_price l = li_unit_price (zero_non_billable (rq_lines rq ! i))"
    "li_total_price l = li_total_price (zero_non_billable (rq_lines rq ! i))" "li_quantity l = li_quantity (rq_lines rq ! i)"
proof -
  let ?p = "the_plan env rq st"
  obtain rows db where save: "save_lines env (rq_tenant rq) (env_router env) (create_pins env rq ?p) (create_meta env ?p) 0
      (pl_lines ?p) (pl_taxes ?p) (or_modifiers stp) = Inr (rows, db)" and po: "po_lines po = rows"
    using assms(1) unfolding fresh_tx_def by (auto simp: build_order_def Let_def)
  obtain c where c: "pl_taxes ?p = snd (resolve_line_taxes (cn_dec env) (cn_tax env) (cn_overrides env) (rq_tenant rq) (rq_slug rq)
     (pl_lines ?p) (outlet_fallback_tax (cn_dec env) (cn_settings env)) c)" using plan_simps(3) by blast
  have len: "length (pl_taxes ?p) = length (pl_lines ?p)" using line_taxes_shape [OF assms(2)] by (simp add: c)
  obtain found where f: "pl_lines ?p = map (stamp_variant (cn_variants env) found \<circ> drop_variant) (map zero_non_billable (rq_lines rq))"
    using stamp_variants_shape plan_simps(2) by metis
  then have n: "length (pl_lines ?p) = length (rq_lines rq)" by simp
  then have i: "i < length (pl_lines ?p)" using assms(3) by simp
  obtain c' where "pl_taxes ?p ! i = snd (resolve_line_tax (cn_dec env) (cn_tax env) (rq_slug rq)
      (tax_by_sku (line_overrides (cn_overrides env) (rq_tenant rq) (pl_lines ?p)))
      (outlet_fallback_tax (cn_dec env) (cn_settings env)) (pl_lines ?p ! i) c')"
    using resolve_lines_nth [OF i] unfolding c resolve_line_taxes_def by blast
  moreover have "zero_non_billable x = x\<lparr>li_unit_price := li_unit_price (zero_non_billable x), li_total_price := li_total_price (zero_non_billable x)\<rparr>" for x
    by (simp add: zero_non_billable_def)
  then have "li_sku (zero_non_billable x) = li_sku x" "li_quantity (zero_non_billable x) = li_quantity x" for x
    by (simp_all add: zero_non_billable_def)
  ultimately show ?thesis
    using that [of "pl_lines ?p ! i" c'] save_lines_nth [OF save len] i n assms(3)
    by (simp add: po f stamp_variant_keeps drop_variant_keeps)
qed

text \<open>
  A new order stores one row per requested line, in order, with the line's SKU and quantity; a line
  marked complimentary or non-billable is stored free: price 0, total 0 and no tax, whatever price,
  code or rate the till sent. The order starts where its outlet's workflow says: \<open>awaiting_acceptance\<close>
  when held, else \<open>open\<close> or \<open>draft\<close>; and a held order reaches no kitchen board.
\<close>

theorem complimentary_lines_are_free:
  assumes "create_order env rq st = (st', Inr po)" "po \<notin> set (or_orders st)" "po \<notin> set (cn_others env (or_orders st))"
    "decimal_lib (cn_dec env)" "vat_lib (te_split (cn_tax env))" "i < length (rq_lines rq)"
  shows "length (po_lines po) = length (rq_lines rq) \<and>
    ol_sku (po_lines po ! i) = li_sku (rq_lines rq ! i) \<and> ol_quantity (po_lines po ! i) = li_quantity (rq_lines rq ! i) \<and>
    (line_is_non_billable (li_metadata (rq_lines rq ! i)) \<longrightarrow>
       ol_unit_price (po_lines po ! i) = 0 \<and> ol_total_price (po_lines po ! i) = 0 \<and> ol_tax_amount (po_lines po ! i) = None) \<and>
    po_status po = initial_status (rq_hold rq) (workflow_for (cn_use_case env) (po_subtype po)) \<and>
    (rq_hold rq \<longrightarrow> or_tickets st' = or_tickets st)"
  using assms(1)
proof (cases rule: create_order_cases)
  case (fresh q number subtype m d stp st1)
  note a = after_create_cases [OF fresh(5)]
  have q: "q = po" using a by (auto split: if_splits)
  note p = fresh_tx_props [OF fresh(1), unfolded q]
  have t: "or_tickets stp = or_tickets st" using fresh(4) by (simp add: tables_def)
  have z: "to_float (cn_dec env) 0 = 0" "of_float (cn_dec env) 0 = 0"
    using decimal_lib.to_float_nearest [OF assms(4)] decimal_lib.of_float_0 [OF assms(4)] by simp_all
  obtain l c where l: "length (po_lines po) = length (rq_lines rq)"
    "po_lines po ! i = store_line (cn_dec env) (env_router env) (create_pins env rq (the_plan env rq st)) (cn_now env) (cn_line_id env i)
       (create_meta env (the_plan env rq st) l) l
       (snd (resolve_line_tax (cn_dec env) (cn_tax env) (rq_slug rq)
          (tax_by_sku (line_overrides (cn_overrides env) (rq_tenant rq) (pl_lines (the_plan env rq st))))
          (outlet_fallback_tax (cn_dec env) (cn_settings env)) l c))"
    "li_sku l = li_sku (rq_lines rq ! i)" "li_unit_price l = li_unit_price (zero_non_billable (rq_lines rq ! i))"
    "li_total_price l = li_total_price (zero_non_billable (rq_lines rq ! i))" "li_quantity l = li_quantity (rq_lines rq ! i)"
    using fresh_line [OF fresh(1)[unfolded q] assms(5,6)] .
  have "line_is_non_billable (li_metadata (rq_lines rq ! i)) \<Longrightarrow>
      ol_unit_price (po_lines po ! i) = 0 \<and> ol_total_price (po_lines po ! i) = 0 \<and> ol_tax_amount (po_lines po ! i) = None"
    using free_line_untaxed [of l] l(4,5)
    by (simp add: l(2) store_line_def input_total_def line_total_def zero_non_billable_def Let_def z)
  moreover have "rq_hold rq \<Longrightarrow> or_tickets st' = or_tickets st" using a p(5) t by simp
  moreover have "ol_sku (po_lines po ! i) = li_sku (rq_lines rq ! i)" "ol_quantity (po_lines po ! i) = li_quantity (rq_lines rq ! i)"
    by (simp_all add: l store_line_def)
  ultimately show ?thesis using l(1) p(7,9) by blast
next
  case (replay q)
  then show ?thesis using assms(2) find_by_ref_Some by fastforce
next
  case (winner q)
  then show ?thesis using assms(3) find_by_ref_Some by fastforce
qed simp_all

section \<open>Adding lines\<close>

lemma restamp_keeps:
  "ol_id (restamp_line L out t ol) = ol_id ol" "ol_total_price (restamp_line L out t ol) = ol_total_price ol"
  "ol_tax_amount (restamp_line L out t ol) = ol_tax_amount ol" "ol_inclusive (restamp_line L out t ol) = ol_inclusive ol"
  "ol_quantity (restamp_line L out t ol) = ol_quantity ol" "ol_voided_qty (restamp_line L out t ol) = ol_voided_qty ol"
  by (simp_all add: restamp_line_def split: option.split)

lemma active_sums_map:
  assumes "\<And>ol. ol_total_price (f ol) = ol_total_price ol" "\<And>ol. ol_tax_amount (f ol) = ol_tax_amount ol"
    "\<And>ol. ol_inclusive (f ol) = ol_inclusive ol" "\<And>ol. active_fraction (f ol) = active_fraction ol"
  shows "active_sums L (map f lines) = active_sums L lines"
  unfolding active_sums_def fold_map comp_def assms by (rule refl)

lemma active_sums_restamped [simp]:
  "active_sums L (snd (snd (recompute_stacked_happy_hour L eval po lines))) = active_sums L lines"
proof -
  have "active_fraction (restamp_line L out t ol) = active_fraction ol" for out t ol
    unfolding active_fraction_def restamp_keeps by (rule refl)
  then show ?thesis
    by (auto simp: recompute_stacked_happy_hour_def Let_def restamp_keeps split: option.split intro!: active_sums_map)
qed

lemma order_tax_restamped [simp]:
  "order_tax_of_meta L (fst (snd (recompute_stacked_happy_hour L eval po lines))) = order_tax_of_meta L (po_metadata po)"
proof -
  have "meta_get (hh_order_meta L out m) ''order_tax'' = meta_get m ''order_tax''" for out m
    by (simp add: hh_order_meta_def Let_def)
  then have "order_tax_of_meta L (hh_order_meta L out m) = order_tax_of_meta L m" for out m
    unfolding order_tax_of_meta_def by (simp only:)
  then show ?thesis by (simp add: recompute_stacked_happy_hour_def Let_def split: option.split)
qed

definition added_discount :: "create_env \<Rightarrow> pos_order \<Rightarrow> order_line list \<Rightarrow> rat" where
  "added_discount env po rows =
     max 0 (of_float (cn_dec env) (po_discount_total po) - hh_amount_from_meta (cn_dec env) (po_metadata po))
       + fst (recompute_stacked_happy_hour (cn_dec env) (cn_eval env) po (po_lines po @ rows))"

lemma with_added_simps:
  "po_discount_total (with_added_lines env po rows) = to_float (cn_dec env) (added_discount env po rows)"
  "po_status (with_added_lines env po rows) = (if add_reopens env po then st_open else po_status po)"
  "po_id (with_added_lines env po rows) = po_id po" "po_tenant (with_added_lines env po rows) = po_tenant po"
  "po_number (with_added_lines env po rows) = po_number po" "po_client_ref (with_added_lines env po rows) = po_client_ref po"
  "po_paid_total (with_added_lines env po rows) = po_paid_total po"
  "po_charges_total (with_added_lines env po rows) = po_charges_total po"
  by (simp_all add: with_added_lines_def store_totals_def added_discount_def Let_def)

lemma with_added_recompute:
  assumes "decimal_lib (cn_dec env)" "storable (cn_dec env) (added_discount env po rows)"
  shows "recompute_totals (cn_dec env) (with_added_lines env po rows) = with_added_lines env po rows"
proof -
  let ?hh = "recompute_stacked_happy_hour (cn_dec env) (cn_eval env) po (po_lines po @ rows)"
  let ?po = "po\<lparr>po_discount_total := to_float (cn_dec env) (added_discount env po rows), po_metadata := fst (snd ?hh),
    po_lines := snd (snd ?hh), po_status := (if add_reopens env po then st_open else po_status po)\<rparr>"
  have "with_added_lines env po rows = recompute_totals (cn_dec env) ?po"
    using assms(2) by (simp add: with_added_lines_def recompute_totals_def added_discount_def storable_def Let_def)
  then show ?thesis by (simp add: decimal_lib.recompute_idem [OF assms(1)])
qed

lemma recompute_lines_ids:
  "map ol_id (snd (snd (recompute_stacked_happy_hour L eval po lines))) = map ol_id lines"
  by (simp add: recompute_stacked_happy_hour_def Let_def restamp_keeps comp_def split: option.split)

lemma with_added_ids: "map ol_id (po_lines (with_added_lines env po rows)) = map ol_id (po_lines po @ rows)"
  by (simp add: with_added_lines_def store_totals_def recompute_lines_ids Let_def)

definition the_order :: "uuid \<Rightarrow> uuid \<Rightarrow> order_store \<Rightarrow> pos_order option" where
  "the_order tid oid st = find (\<lambda>po. po_id po = oid \<and> po_tenant po = tid) (or_orders st)"

lemma save_lines_not_reload: "save_lines env tid r pins mk n ls ts db = Inl e \<Longrightarrow> e \<noteq> Reload_Failed"
  using save_lines_error by fastforce

lemma saved_length:
  assumes "save_lines env tid r pins mk n (snd (stamp_line_variants ve t lines c)) (snd (resolve_line_taxes L te rows tid' slug
      (snd (stamp_line_variants ve t lines c)) fb tc)) db = Inr (rs, db')"
  shows "length rs = length lines"
  using save_lines_nth [OF assms] by (simp add: resolve_line_taxes_def)

definition saved_rows :: "create_env \<Rightarrow> uuid \<Rightarrow> string \<Rightarrow> order_line_input list \<Rightarrow> order_store \<Rightarrow> order_line list \<Rightarrow> bool" where
  "saved_rows env tid slug lines st rows \<longleftrightarrow>
     (\<exists>pins db. save_lines env tid (env_router env) pins li_metadata 0
        (snd (stamp_line_variants (cn_variants env) tid lines (or_variants st)))
        (snd (resolve_line_taxes (cn_dec env) (cn_tax env) (cn_overrides env) tid slug
           (snd (stamp_line_variants (cn_variants env) tid lines (or_variants st)))
           (outlet_fallback_tax (cn_dec env) (cn_settings env)) (or_taxes st)))
        (or_modifiers st) = Inr (rows, db))"

text \<open>How an addition ends: refused with the tables as they were, or the order rewritten.\<close>

lemma add_order_lines_cases:
  assumes "add_order_lines env tid slug oid lines st = (st', r)"
  obtains (refused) e where "r = Inl e" "e \<noteq> Reload_Failed" "tables st' = tables st"
  | (added) po rows where "the_order tid oid st = Some po" "po_status po \<notin> set closed_statuses" "length rows = length lines"
      "saved_rows env tid slug lines st rows"
      "or_orders st' = replace_order (with_added_lines env po rows) (or_orders st)"
      "if cn_reload_ok env then r = Inr (with_added_lines env po rows) else r = Inl Reload_Failed"
proof (cases "the_order tid oid st")
  case None
  then show ?thesis using assms refused [of Add_Not_Found] by (simp add: add_order_lines_def the_order_def)
next
  case (Some po)
  note f = Some [unfolded the_order_def]
  show ?thesis
  proof (cases "po_status po \<in> set closed_statuses")
    case True
    then show ?thesis using assms f refused [of "Add_To_Closed (po_status po)"] by (simp add: add_order_lines_def)
  next
    case False
    let ?v = "stamp_line_variants (cn_variants env) tid lines (or_variants st)"
    let ?t = "resolve_line_taxes (cn_dec env) (cn_tax env) (cn_overrides env) tid slug (snd ?v)
      (outlet_fallback_tax (cn_dec env) (cn_settings env)) (or_taxes st)"
    let ?save = "save_lines env tid (new_router (ie_stations (cn_issue env)) (ie_tree (cn_issue env)))
      (kds_override_by_sku (line_overrides (cn_overrides env) tid (snd ?v))) li_metadata 0 (snd ?v) (snd ?t) (or_modifiers st)"
    note d = add_order_lines_def [of env tid slug oid lines st, unfolded f option.case if_not_P [OF False] Let_def]
    show ?thesis
    proof (cases ?save)
      case (Inl e)
      then show ?thesis
        using assms refused save_lines_not_reload [OF Inl] unfolding d by (auto simp: tables_def split: if_splits)
    next
      case (Inr s)
      obtain rows db where s: "?save = Inr (rows, db)" using Inr by (cases s) simp
      then have saved: "saved_rows env tid slug lines st rows" unfolding saved_rows_def env_router_def by blast
      show ?thesis
        using assms refused added [OF Some False saved_length [OF s] saved] s
        unfolding d by (auto simp: tables_def split: if_splits list.splits)
    qed
  qed
qed

text \<open>
  What a row must hold of the requested line \<open>l\<close> and its resolved tax \<open>x\<close>: the goods, the quantity and
  the price as sent, the total sent or else price times quantity, the tax, and nothing voided.
\<close>

definition row_holds :: "create_env \<Rightarrow> order_line_input \<Rightarrow> resolved_line_tax \<Rightarrow> order_line \<Rightarrow> bool" where
  "row_holds env l x r \<longleftrightarrow>
     ol_sku r = li_sku l \<and> ol_name r = li_name l \<and> ol_category r = li_category l \<and>
     (li_catalog_item l \<noteq> uuid_nil \<longrightarrow> ol_catalog_item r = li_catalog_item l) \<and>
     ol_quantity r = li_quantity l \<and> ol_unit_price r = li_unit_price l \<and>
     ol_total_price r = to_float (cn_dec env) (if of_float (cn_dec env) (li_total_price l) = 0
        then of_float (cn_dec env) (li_unit_price l) * of_float (cn_dec env) (li_quantity l)
        else of_float (cn_dec env) (li_total_price l)) \<and>
     ol_tax_code r = rt_code_id x \<and> ol_kra_code r = rt_kra_code x \<and> ol_inclusive r = rt_inclusive x \<and>
     ol_tax_rate r = (if rt_rate x > 0 then Some (rt_rate x) else None) \<and>
     ol_tax_amount r = (if rt_amount x > 0 then Some (rt_amount x) else None) \<and>
     ol_course r = li_course l \<and> ol_created_at r = Some (cn_now env) \<and> ol_voided_qty r = None"

text \<open>The taxes of the added lines, with the variants the server stamped on them.\<close>

definition added_taxes :: "create_env \<Rightarrow> uuid \<Rightarrow> string \<Rightarrow> order_line_input list \<Rightarrow> order_store \<Rightarrow> resolved_line_tax list" where
  "added_taxes env tid slug lines st =
     snd (resolve_line_taxes (cn_dec env) (cn_tax env) (cn_overrides env) tid slug
       (snd (stamp_line_variants (cn_variants env) tid lines (or_variants st)))
       (outlet_fallback_tax (cn_dec env) (cn_settings env)) (or_taxes st))"

lemma stamped_line:
  assumes "i < length lines"
  shows "let l = snd (stamp_line_variants venv tid lines c) ! i in
    li_sku l = li_sku (lines ! i) \<and> li_name l = li_name (lines ! i) \<and> li_category l = li_category (lines ! i) \<and>
    (li_catalog_item (lines ! i) \<noteq> uuid_nil \<longrightarrow> li_catalog_item l = li_catalog_item (lines ! i)) \<and>
    li_quantity l = li_quantity (lines ! i) \<and> li_unit_price l = li_unit_price (lines ! i) \<and>
    li_total_price l = li_total_price (lines ! i) \<and> li_course l = li_course (lines ! i)"
proof -
  obtain found where f: "snd (stamp_line_variants venv tid lines c) = map (stamp_variant venv found \<circ> drop_variant) lines"
    using stamp_variants_shape by blast
  show ?thesis using assms
    by (simp add: f stamp_variant_def drop_variant_def Let_def split: option.split)
qed

lemma saved_rows_hold:
  assumes "saved_rows env tid slug lines st rows" "i < length lines"
  shows "row_holds env (lines ! i) (added_taxes env tid slug lines st ! i) (rows ! i) \<and> ol_id (rows ! i) = cn_line_id env i"
proof -
  let ?v = "snd (stamp_line_variants (cn_variants env) tid lines (or_variants st))"
  obtain pins db where s: "save_lines env tid (env_router env) pins li_metadata 0 ?v (added_taxes env tid slug lines st)
      (or_modifiers st) = Inr (rows, db)"
    using assms(1) unfolding saved_rows_def added_taxes_def by blast
  have "length (added_taxes env tid slug lines st) = length ?v" by (simp add: added_taxes_def resolve_line_taxes_def)
  from save_lines_nth [OF s this] assms(2)
  have "rows ! i = store_line (cn_dec env) (env_router env) pins (cn_now env) (cn_line_id env i) (li_metadata (?v ! i)) (?v ! i)
      (added_taxes env tid slug lines st ! i)" by simp
  then show ?thesis
    using stamped_line [OF assms(2), of "cn_variants env" tid "or_variants st"]
    by (simp add: row_holds_def store_line_def input_total_def line_total_def Let_def)
qed

text \<open>The happy hour rewrites nothing of a row but its metadata.\<close>

lemma restamp_only_meta: "(restamp_line L out t ol)\<lparr>ol_metadata := m\<rparr> = ol\<lparr>ol_metadata := m\<rparr>"
  by (simp add: restamp_line_def split: option.split)

lemma with_added_rows:
  "map (\<lambda>l. l\<lparr>ol_metadata := m\<rparr>) (po_lines (with_added_lines env po rows)) = map (\<lambda>l. l\<lparr>ol_metadata := m\<rparr>) (po_lines po @ rows)"
proof -
  have "map (\<lambda>l. l\<lparr>ol_metadata := m\<rparr>) (snd (snd (recompute_stacked_happy_hour L eval po ls))) = map (\<lambda>l. l\<lparr>ol_metadata := m\<rparr>) ls"
    for L eval ls
    by (simp add: recompute_stacked_happy_hour_def Let_def restamp_only_meta split: option.split)
  then show ?thesis by (simp add: with_added_lines_def store_totals_def Let_def)
qed


text \<open>
  An addition that fails changes nothing: a missing or closed order, or a failing statement before the
  commit, leaves every order, line, modifier, ticket and event as it was; and an order that is closed
  always refuses.
\<close>

theorem add_order_lines_refused:
  assumes "add_order_lines env tid slug oid lines st = (st', r)"
  shows "(\<forall>e. r = Inl e \<and> e \<noteq> Reload_Failed \<longrightarrow> tables st' = tables st) \<and>
    ((case find (\<lambda>q. po_id q = oid \<and> po_tenant q = tid) (or_orders st) of
        None \<Rightarrow> True | Some po \<Rightarrow> po_status po \<in> set closed_statuses) \<longrightarrow> (\<exists>e. r = Inl e \<and> e \<noteq> Reload_Failed))"
  using assms
proof (cases rule: add_order_lines_cases)
  case (added po rows)
  then show ?thesis by (auto simp: the_order_def split: if_splits)
qed auto

section \<open>Concrete requests\<close>

definition till_env :: create_env where
  "till_env = \<lparr>cn_dec = shop_decimal, cn_tax = sample_tax_env, cn_settings = None, cn_currency = ''KES'', cn_use_case = ''restaurant'',
     cn_overrides = [], cn_variants = sample_variant_env, cn_modifiers = sample_modifier_env, cn_eval = None, cn_record = False,
     cn_publisher = True, cn_issue = sample_env, cn_job = sample_job_env, cn_midnight = (\<lambda>d. d), cn_today = 20000, cn_now = 0,
     cn_seq = None, cn_prefix = ''ORD'', cn_unix_ms = 1000, cn_order_id = 70, cn_line_id = (\<lambda>n. 700 + n), cn_others = (\<lambda>xs. xs),
     cn_lookup_ok = True, cn_begin_ok = True, cn_insert_ok = True, cn_line_ok = (\<lambda>_. True), cn_mods_ok = (\<lambda>_. True),
     cn_update_ok = True, cn_commit_ok = True, cn_reload_ok = True\<rparr>"

definition till_request :: create_request where
  "till_request = \<lparr>rq_tenant = 2, rq_slug = ''acme'', rq_outlet = 3, rq_device = 4, rq_user = 5, rq_served_by = 0, rq_number = [],
     rq_client_ref = ''ref1'', rq_offline_at = None, rq_currency = [],
     rq_lines = [taxed_input, taxed_input\<lparr>li_sku := ''CAKE'', li_metadata := [(''complimentary'', JBool True)]\<rparr>],
     rq_metadata = [], rq_subtype = [], rq_table = ''t5'', rq_phone = [], rq_name = [], rq_discount = 0, rq_order_tax = 0,
     rq_charges = [(''service'', 10)], rq_source = [], rq_business_date = [], rq_skip_discounts = False, rq_hold = False\<rparr>"

definition empty_store :: order_store where
  "empty_store = \<lparr>or_seq = [], or_orders = [], or_modifiers = no_mirror, or_taxes = empty_cache, or_variants = Map.empty,
     or_tickets = [], or_promos = [], or_events = []\<rparr>"

lemma till_creates:
  "case create_order till_env till_request empty_store of
     (st', Inr po) \<Rightarrow> po_total_amount po = 126 \<and> po_status po = ''open'' \<and> map ol_total_price (po_lines po) = [100, 0] \<and>
       length (or_orders st') = 1 \<and> length (or_events st') = 3
   | _ \<Rightarrow> False"
  by code_simp

lemma till_created:
  obtains st' po where "create_order till_env till_request empty_store = (st', Inr po)" "po_total_amount po = 126"
    "po_status po = ''open''" "map ol_total_price (po_lines po) = [100, 0]" "length (or_orders st') = 1"
  using till_creates by (auto split: prod.splits sum.splits)

theorem replay_returns_first_order_witness:
  "\<exists>st' po. create_order till_env till_request empty_store = (st', Inr po) \<and> length (or_orders st') = 1 \<and>
     create_order till_env (till_request\<lparr>rq_lines := []\<rparr>) st' = (st', Inr po)"
proof -
  obtain st' po where c: "create_order till_env till_request empty_store = (st', Inr po)" and n: "length (or_orders st') = 1"
    using till_created by blast
  have "create_order till_env (till_request\<lparr>rq_lines := []\<rparr>) st' = (st', Inr po)"
    by (rule replay_returns_first_order [OF c]) (simp_all add: till_request_def till_env_def)
  then show ?thesis using c n by blast
qed

lemma planned_totals:
  "ot_discount_total (pl_totals (the_plan till_env till_request empty_store)) = 0"
  "ot_charges_total (pl_totals (the_plan till_env till_request empty_store)) = 10"
proof -
  have L: "cn_dec till_env = shop_decimal" by (simp add: till_env_def)
  have o: "ho_discount (pl_outcome (the_plan till_env till_request empty_store)) = 0"
    by (simp add: plan_lines_def evaluate_happy_hour_def till_env_def no_outcome_def Let_def)
  show "ot_discount_total (pl_totals (the_plan till_env till_request empty_store)) = 0"
    unfolding plan_simps(1) o
    by (simp add: calculate_totals_with_taxes_def finalize_totals_def L till_request_def Let_def)
  have "dec_round shop_decimal 2 10 = 10" using shop.round_int [of 2 10] by simp
  then show "ot_charges_total (pl_totals (the_plan till_env till_request empty_store)) = 10"
    unfolding plan_simps(1) o
    by (simp add: calculate_totals_with_taxes_def finalize_totals_def L till_request_def sum_charges_def Let_def)
      (simp add: shop_decimal_def)
qed

theorem header_matches_lines_witness:
  "\<exists>st' po. create_order till_env till_request empty_store = (st', Inr po) \<and> po_total_amount po = 126 \<and>
     recompute_totals shop_decimal po = po"
proof -
  obtain st' po where c: "create_order till_env till_request empty_store = (st', Inr po)" and t: "po_total_amount po = 126"
    using till_created by blast
  have d: "cn_dec till_env = shop_decimal" "or_orders empty_store = []" "cn_others till_env [] = []"
    "te_split (cn_tax till_env) = percent_split"
    by (simp_all add: till_env_def empty_store_def sample_tax_env_def)
  have "recompute_totals (cn_dec till_env) po = po"
  proof (rule header_matches_lines [OF c])
    show "list_all (\<lambda>l. storable (cn_dec till_env) (input_total (cn_dec till_env) l)) (rq_lines till_request)"
      by (simp add: till_env_def till_request_def storable_def shop_decimal_def input_total_def line_total_def taxed_input_def)
    show "storable (cn_dec till_env) (ot_discount_total (pl_totals (snd (plan_lines till_env till_request empty_store))))"
      "storable (cn_dec till_env) (ot_charges_total (pl_totals (snd (plan_lines till_env till_request empty_store))))"
      unfolding planned_totals by (simp_all add: storable_def till_env_def shop_decimal_def)
    show "order_tax_of_meta (cn_dec till_env) (rq_metadata till_request) = 0" "is_f64 (rq_order_tax till_request)"
      by (simp_all add: till_request_def order_tax_of_meta_def is_f64_def)
  qed (simp_all add: d shop.decimal_lib_axioms percent.vat_lib_axioms)
  then show ?thesis using c t by (auto simp: d)
qed

theorem complimentary_lines_are_free_witness:
  "\<exists>st' po. create_order till_env till_request empty_store = (st', Inr po) \<and> length (po_lines po) = 2 \<and>
     ol_total_price (po_lines po ! 0) = 100 \<and> ol_unit_price (po_lines po ! 1) = 0 \<and> ol_tax_amount (po_lines po ! 1) = None"
proof -
  obtain st' po where c: "create_order till_env till_request empty_store = (st', Inr po)"
    and t: "map ol_total_price (po_lines po) = [100, 0]" by (rule till_created)
  have d: "or_orders empty_store = []" "cn_others till_env [] = []" "length (rq_lines till_request) = 2"
    by (simp_all add: till_env_def empty_store_def till_request_def)
  have n: "line_is_non_billable (li_metadata (rq_lines till_request ! 1))"
    by (simp add: till_request_def line_is_non_billable_def meta_flag_def)
  have lib: "decimal_lib (cn_dec till_env)" "vat_lib (te_split (cn_tax till_env))"
    by (simp_all add: till_env_def shop.decimal_lib_axioms percent.vat_lib_axioms sample_tax_env_def)
  have fresh: "po \<notin> set (or_orders empty_store)" "po \<notin> set (cn_others till_env (or_orders empty_store))" "1 < length (rq_lines till_request)"
    by (simp_all add: d)
  note free = complimentary_lines_are_free [OF c fresh(1,2) lib fresh(3)]
  have "ol_unit_price (po_lines po ! 1) = 0 \<and> ol_tax_amount (po_lines po ! 1) = None"
    using mp [OF conjunct1 [OF conjunct2 [OF conjunct2 [OF conjunct2 [OF free]]]] n] by (elim conjE) (intro conjI)
  moreover have "length (map ol_total_price (po_lines po)) = 2" unfolding t by simp
  then have "length (po_lines po) = 2" by simp
  moreover from this have "ol_total_price (po_lines po ! 0) = map ol_total_price (po_lines po) ! 0" by simp
  then have "ol_total_price (po_lines po ! 0) = 100" unfolding t by simp
  ultimately show ?thesis using c by (intro exI [of _ st'] exI [of _ po] conjI) simp_all
qed

theorem failed_create_leaves_nothing_witness:
  "snd (create_order (till_env\<lparr>cn_commit_ok := False\<rparr>) till_request empty_store) = Inl Commit_Failed \<and>
   or_orders (fst (create_order (till_env\<lparr>cn_commit_ok := False\<rparr>) till_request empty_store)) = []"
proof -
  let ?c = "create_order (till_env\<lparr>cn_commit_ok := False\<rparr>) till_request empty_store"
  have e: "snd ?c = Inl Commit_Failed" by code_simp
  then have "?c = (fst ?c, Inl Commit_Failed)" by (metis prod.collapse)
  from failed_create_leaves_nothing [OF this] have "tables (fst ?c) = tables empty_store"
    by (simp add: till_env_def)
  then show ?thesis using e by (simp add: tables_def empty_store_def)
qed

definition bill_store :: order_store where
  "bill_store = empty_store\<lparr>or_orders := [kitchen_order]\<rparr>"


theorem add_order_lines_refused_witness:
  "\<exists>e. snd (add_order_lines till_env 2 ''acme'' 50 [taxed_input] (empty_store\<lparr>or_orders := [kitchen_order\<lparr>po_status := st_voided\<rparr>]\<rparr>)) = Inl e"
proof -
  let ?st = "empty_store\<lparr>or_orders := [kitchen_order\<lparr>po_status := st_voided\<rparr>]\<rparr>"
  have "case find (\<lambda>q. po_id q = 50 \<and> po_tenant q = 2) (or_orders ?st) of None \<Rightarrow> True | Some po \<Rightarrow> po_status po \<in> set closed_statuses"
    by code_simp
  from mp [OF conjunct2 [OF add_order_lines_refused [OF surjective_pairing [of "add_order_lines till_env 2 ''acme'' 50 [taxed_input] ?st"]]] this]
  show ?thesis by blast
qed

section \<open>Where the code departs from its intent\<close>

text \<open>
  When the reload after the commit fails, \<open>CreateOrder\<close> answers an error although the order is stored;
  the till's retry is then answered with that order, and it never reaches the kitchen, the printers
  or the event bus: neither call issues a ticket or an event.
\<close>

lemma failed_reload_strands_order:
  assumes "create_order env rq st = (st', Inl Reload_Failed)" "rq_client_ref rq \<noteq> []" "cn_lookup_ok env'"
    "rq_tenant rq' = rq_tenant rq" "rq_client_ref rq' = rq_client_ref rq"
  shows "\<exists>po. or_orders st' = cn_others env (or_orders st) @ [po] \<and> or_tickets st' = or_tickets st \<and> or_events st' = or_events st \<and>
    create_order env' rq' st' = (st', Inr po)"
  using assms(1)
proof (cases rule: create_order_cases)
  case (fresh po number subtype m d stp st1)
  note p = fresh_tx_props [OF fresh(1)]
  have e: "or_events st1 = or_events stp" using fresh(1) by (auto simp: fresh_tx_def)
  have stp: "or_orders stp = or_orders st" "or_tickets stp = or_tickets st" "or_events stp = or_events st"
    using fresh(4) by (simp_all add: tables_def)
  have a: "or_orders st' = or_orders st1" "or_tickets st' = or_tickets st1" "or_events st' = or_events st1"
    using fresh(5) by (auto simp: after_create_def Let_def split: if_splits)
  have "find_by_ref (rq_tenant rq) (rq_client_ref rq) (or_orders st') = Some po"
    using p(1,2,4) assms(2) by (simp add: a p(3) find_by_ref_fresh set_opt_def)
  then have "create_order env' rq' st' = (st', Inr po)" using assms(2-5) by (simp add: create_order_def)
  then show ?thesis using a p(3,5) e stp by simp
qed simp_all

text \<open>
  Adding items to an order that awaits acceptance sends them to the kitchen at once, before anyone
  accepted the order; and when the order is then accepted, the station that got them is taken for
  served, so the lines the order was created with never get a ticket there.
\<close>

definition held_bill :: pos_order where
  "held_bill = kitchen_order\<lparr>po_status := st_awaiting_acceptance, po_lines := [kitchen_line 11 ''Steak'' ''Mains'']\<rparr>"

definition added_dish :: order_line_input where
  "added_dish = taxed_input\<lparr>li_sku := ''RIBS'', li_name := ''Ribs'', li_category := ''Mains''\<rparr>"

definition held_added :: "order_store \<times> (create_error + pos_order)" where
  "held_added = add_order_lines till_env 2 ''acme'' 50 [added_dish] (empty_store\<lparr>or_orders := [held_bill]\<rparr>)"

lemma held_order_reaches_kitchen:
  "case held_added of
     (st', Inr po') \<Rightarrow> po_status po' = st_awaiting_acceptance \<and> map kt_items (or_tickets st') = [[700]] \<and>
       map ol_id (po_lines po') = [11, 700] \<and>
       (case release_held_order sample_status_env 2 50
               \<lparr>kd_tickets = or_tickets st', kd_orders = [50 \<mapsto> po'], kd_external = (\<lambda>_. [])\<rparr> of
          (released, _, db) \<Rightarrow> released \<and> map kt_items (kd_tickets db) = [[700]])
   | _ \<Rightarrow> False"
  by code_simp

text \<open>
  \<open>CreateOrder\<close> stores a complimentary line free; \<open>AddOrderLines\<close> has no such step, so the same line
  added to a bill is charged, and its row still carries the complimentary mark.
\<close>

lemma added_complimentary_line_is_charged:
  "case add_order_lines till_env 2 ''acme'' 50 [taxed_input\<lparr>li_metadata := [(''complimentary'', JBool True)]\<rparr>] bill_store of
     (_, Inr po') \<Rightarrow> ol_total_price (po_lines po' ! 2) = 100 \<and> line_is_non_billable (ol_metadata (po_lines po' ! 2)) \<and>
       po_total_amount po' = 316
   | _ \<Rightarrow> False"
  by code_simp

text \<open>
  The header agrees with the lines only when the request's metadata carries no \<open>order_tax\<close>: the handler
  passes the client's metadata through, \<open>CreateOrder\<close> overwrites the key only when the request has an
  order-level tax, and every later recomputation adds the client's figure.
\<close>

lemma smuggled_order_tax:
  "case create_order till_env (till_request\<lparr>rq_metadata := [(''order_tax'', JObj [(''amount'', JNum 50)])]\<rparr>) empty_store of
     (_, Inr po) \<Rightarrow> po_total_amount po = 126 \<and> po_total_amount (recompute_totals shop_decimal po) = 176
   | _ \<Rightarrow> False"
  by code_simp

end
