(* ===== verification/Promo_Orders.thy ===== *)
theory Promo_Orders
  imports Promo_Safety Promo_Caps Order_Create_Safety
begin

text \<open>
  Promotions and orders together: what \<open>CreateOrder\<close> relies on in its happy-hour evaluator, stated as a
  contract, the evaluator of \<open>internal/app/app.go\<close> as its provider, and what follows for the discount of
  a stored order; then the places where the promotions code does not do what its comments say.
\<close>

section \<open>The contract of an evaluator\<close>

text \<open>
  A discount is some amount, at most the sum of the line totals it was given, rounded to cents.
\<close>

locale deal_source =
  fixes L :: dec_lib and evaluate :: "timed_line list \<Rightarrow> hh_outcome"
  assumes capped: "0 < ho_discount (evaluate lines) \<Longrightarrow>
      \<exists>d. d \<le> sum_list (map (\<lambda>l. of_float L (li_total_price (fst l))) lines) \<and> ho_discount (evaluate lines) = dec_round L 2 d"

definition plain_input :: "order_line_input \<Rightarrow> bool" where
  "plain_input l \<longleftrightarrow> 0 \<le> li_unit_price l \<and> 0 \<le> li_quantity l \<and> 0 \<le> li_total_price l"

lemma plain_input_total:
  "decimal_lib L \<Longrightarrow> plain_input l \<Longrightarrow> of_float L (li_total_price l) \<le> input_total L l"
  using decimal_lib.of_float_nonneg [of L "li_unit_price l"] decimal_lib.of_float_nonneg [of L "li_quantity l"]
  by (simp add: plain_input_def input_total_def line_total_def Let_def)

lemma plain_zeroed: "plain_input l \<Longrightarrow> plain_input (zero_non_billable l)"
  by (simp add: plain_input_def zero_non_billable_def)

lemma plan_lines_plain:
  assumes "list_all plain_input (rq_lines rq)"
  shows "list_all plain_input (pl_lines (the_plan env rq st))"
proof -
  obtain found where "pl_lines (the_plan env rq st) = map (stamp_variant (cn_variants env) found \<circ> drop_variant) (map zero_non_billable (rq_lines rq))"
    using stamp_variants_shape plan_simps(2) by metis
  then show ?thesis
    using assms plain_zeroed by (auto simp: list_all_iff plain_input_def stamp_variant_keeps drop_variant_keeps)
qed

lemma fold_input_total: "fold (\<lambda>l sum. sum + f l) ls (a :: rat) = a + sum_list (map f ls)"
  by (induction ls arbitrary: a) simp_all

context deal_source
begin

lemma evaluated_capped:
  assumes "decimal_lib L" "cn_eval env = Some evaluate" "list_all plain_input ls"
  shows "0 \<le> ho_discount (evaluate_happy_hour env skip ls)"
    "ho_discount (evaluate_happy_hour env skip ls) \<le> dec_round L 2 (sum_list (map (input_total L) ls))"
proof -
  let ?timed = "map (\<lambda>l. (l, cn_now env)) ls"
  have prices: "sum_list (map (\<lambda>l. of_float L (li_total_price l)) ls) \<le> sum_list (map (input_total L) ls)"
    using assms(3) plain_input_total [OF assms(1)] by (intro sum_list_mono) (simp add: list_all_iff)
  have nonneg: "0 \<le> sum_list (map (input_total L) ls)"
  proof -
    have "0 \<le> of_float L (li_total_price l)" if "l \<in> set ls" for l
      using assms(3) that decimal_lib.of_float_nonneg [OF assms(1)] by (simp add: list_all_iff plain_input_def)
    then have "0 \<le> sum_list (map (\<lambda>l. of_float L (li_total_price l)) ls)" by (intro sum_list_nonneg) auto
    then show ?thesis using prices by simp
  qed
  have "dec_round L 2 d \<le> dec_round L 2 (sum_list (map (input_total L) ls))"
    if "d \<le> sum_list (map (\<lambda>l. of_float L (li_total_price (fst l))) ?timed)" for d
    using that prices by (intro decimal_lib.round_mono [OF assms(1)]) (simp add: comp_def)
  then have "0 < ho_discount (evaluate ?timed) \<Longrightarrow> ho_discount (evaluate ?timed) \<le> dec_round L 2 (sum_list (map (input_total L) ls))"
    using capped [of ?timed] by auto
  then show "ho_discount (evaluate_happy_hour env skip ls) \<le> dec_round L 2 (sum_list (map (input_total L) ls))"
    using decimal_lib.round_nonneg [OF assms(1) nonneg] assms(2)
    by (simp add: evaluate_happy_hour_def no_outcome_def Let_def)
  show "0 \<le> ho_discount (evaluate_happy_hour env skip ls)"
    using assms(2) by (simp add: evaluate_happy_hour_def no_outcome_def Let_def)
qed

lemma planned_discount:
  assumes "decimal_lib L" "cn_dec env = L" "cn_eval env = Some evaluate" "list_all plain_input (rq_lines rq)" "rq_discount rq = 0"
  shows "0 \<le> ot_discount_total (pl_totals (the_plan env rq st)) \<and>
    ot_discount_total (pl_totals (the_plan env rq st)) \<le> ot_subtotal (pl_totals (the_plan env rq st))"
proof -
  let ?p = "the_plan env rq st"
  have out: "pl_outcome ?p = evaluate_happy_hour env (rq_skip_discounts rq) (pl_lines ?p)"
    by (simp add: plan_lines_def Let_def)
  note e = evaluated_capped [OF assms(1,3) plan_lines_plain [OF assms(4), of env st], of "rq_skip_discounts rq", folded out]
  have "dec_round L 2 (ho_discount (pl_outcome ?p)) \<le> dec_round L 2 (sum_list (map (input_total L) (pl_lines ?p)))"
    using decimal_lib.round_mono [OF assms(1) e(2), of 2] by (simp add: decimal_lib.round_idem [OF assms(1)])
  moreover have "0 \<le> dec_round L 2 (ho_discount (pl_outcome ?p))"
    by (rule decimal_lib.round_nonneg [OF assms(1) e(1)])
  ultimately show ?thesis
    using e(1) assms(2,5) decimal_lib.of_float_0 [OF assms(1)]
    by (simp add: plan_simps(1) calculate_totals_with_taxes_def finalize_totals_def fold_input_total Let_def)
qed

end

text \<open>The service behind the adapter keeps the contract, for any promotions and clock.\<close>

lemma combined_capped:
  assumes "0 < au_discount (combine_timed_discounts L off now items lines)"
  shows "\<exists>d. d \<le> order_subtotal lines \<and> au_discount (combine_timed_discounts L off now items lines) = dec_round L 2 d"
proof -
  let ?cs = "fold (apply_deal L off now lines) (newest_first items) no_deals"
  let ?grand = "cs_storewide ?cs + per_sku_total (cs_per_sku ?cs)"
  have "au_discount (combine_timed_discounts L off now items lines) = dec_round L 2 (min ?grand (order_subtotal lines))"
    using assms by (auto simp: combine_timed_discounts_def Let_def min_def split: if_splits)
  then show ?thesis by (intro exI [of _ "min ?grand (order_subtotal lines)"]) simp
qed

interpretation happy_hour: deal_source "pe_dec env" "happy_hour_evaluator env tid outlet" for env tid outlet
proof
  fix lines :: "timed_line list"
  let ?ls = "map (to_discount_line (pe_dec env)) lines"
  let ?r = "evaluate_timed_order_discounts env tid outlet ?ls"
  have s: "order_subtotal ?ls = sum_list (map (\<lambda>l. of_float (pe_dec env) (li_total_price (fst l))) lines)"
    by (simp add: order_subtotal_def to_discount_line_def comp_def)
  have "0 < au_discount ?r \<Longrightarrow> \<exists>d. d \<le> order_subtotal ?ls \<and> au_discount ?r = dec_round (pe_dec env) 2 d"
    by (rule evaluator_cases [OF refl, of env tid outlet ?ls]) (use combined_capped in auto)
  then show "0 < ho_discount (happy_hour_evaluator env tid outlet lines) \<Longrightarrow>
      \<exists>d. d \<le> sum_list (map (\<lambda>l. of_float (pe_dec env) (li_total_price (fst l))) lines) \<and>
        ho_discount (happy_hour_evaluator env tid outlet lines) = dec_round (pe_dec env) 2 d"
    unfolding s by (simp add: happy_hour_evaluator_def Let_def)
qed

text \<open>
  C9. A deal never costs more than the goods. An order whose only discount is the happy hour is stored
  with a discount between zero and its subtotal, whatever promotions are set up and however they stack.
\<close>

theorem deals_never_exceed_goods:
  assumes "create_order env rq st = (st', Inr po)" "po \<notin> set (or_orders st)" "po \<notin> set (cn_others env (or_orders st))"
    "decimal_lib (cn_dec env)" "pe_dec deals = cn_dec env" "cn_eval env = Some (happy_hour_evaluator deals tid outlet)"
    "rq_discount rq = 0" "list_all plain_input (rq_lines rq)"
  shows "0 \<le> po_discount_total po \<and> po_discount_total po \<le> po_subtotal po"
  using assms(1)
proof (cases rule: create_order_cases)
  case (fresh q number subtype m d stp st1)
  have q: "q = po" using after_create_cases [OF fresh(5)] by (auto split: if_splits)
  let ?t = "pl_totals (the_plan env rq st)"
  have po: "po_discount_total po = to_float (cn_dec env) (ot_discount_total ?t)" "po_subtotal po = to_float (cn_dec env) (ot_subtotal ?t)"
    using fresh(1) unfolding fresh_tx_def q by (auto simp: build_order_def Let_def)
  have "0 \<le> ot_discount_total ?t \<and> ot_discount_total ?t \<le> ot_subtotal ?t"
    by (rule happy_hour.planned_discount [OF _ _ assms(6,8,7)]) (use assms(4,5) in simp_all)
  then show ?thesis
    unfolding po decimal_lib.to_float_nearest [OF assms(4)] by (simp add: fl_mono)
next
  case (replay q)
  then show ?thesis using assms(2) find_by_ref_Some by fastforce
next
  case (winner q)
  then show ?thesis using assms(3) find_by_ref_Some by fastforce
qed simp_all

section \<open>Concrete deals\<close>

definition soda_rule :: promo_rule where
  "soda_rule = \<lparr>rl_promotion = 1, rl_scope_type = ''item'', rl_scope_ids = [''soda''], rl_get_scope_ids = [], rl_pair_map = [],
     rl_type = ''percentage'', rl_value = 50, rl_buy = 1, rl_get = 1, rl_percent = 100, rl_meal = None, rl_max_discount = None\<rparr>"

definition soda_deal :: promotion where
  "soda_deal = \<lparr>pm_id = 1, pm_tenant = 2, pm_outlet = Some 3, pm_name = ''Half soda'', pm_code = None, pm_kind = ''happy_hour'',
     pm_days = [], pm_window_start = [], pm_window_end = [], pm_auto = True, pm_status = ''active'',
     pm_start = zero_time, pm_end = None, pm_usage_limit = None, pm_max_units = None\<rparr>"

text \<open>Half price at one outlet; the clock stands at three in the morning in Nairobi.\<close>

definition shop_deals :: promo_env where
  "shop_deals = \<lparr>pe_dec = shop_decimal, pe_promos = [soda_deal], pe_rules = [soda_rule], pe_query_ok = True, pe_rule_ok = (\<lambda>_. True),
     pe_timezone = (\<lambda>_. None), pe_zone = (\<lambda>n. if n = ''Africa/Nairobi'' then Some (\<lambda>_. 10800) else None), pe_now = 0\<rparr>"

definition soda_lines :: "timed_discount_line list" where
  "soda_lines = [(cart_line ''SODA'' 50 2, zero_time)]"

definition soda_items :: "(promotion \<times> promo_rule) list" where
  "soda_items = [(soda_deal, soda_rule), (soda_deal\<lparr>pm_id := 4\<rparr>, soda_rule\<lparr>rl_value := 20\<rparr>)]"

definition soda_saving :: line_discount where
  "soda_saving = \<lparr>ld_sku = ''SODA'', ld_amount = 50, ld_free = 0, ld_type = ''percentage'', ld_label = ''50% off''\<rparr>"

theorem best_deal_per_item_witness:
  "\<exists>pid. cs_owner (fold (apply_deal shop_decimal (\<lambda>_. 10800) 0 soda_lines) (newest_first soda_items) no_deals) ''SODA'' = Some pid \<and>
     (pid, ''SODA'', soda_saving) \<in> offers (deal_results shop_decimal (\<lambda>_. 10800) 0 soda_lines (newest_first soda_items) Map.empty)"
proof -
  have "map_of (cs_per_sku (fold (apply_deal shop_decimal (\<lambda>_. 10800) 0 soda_lines) (newest_first soda_items) no_deals)) ''SODA''
      = Some soda_saving"
    by code_simp
  then show ?thesis
    using best_deal_per_item [OF refl refl, of shop_decimal "\<lambda>_. 10800" 0 soda_lines soda_items] by blast
qed

definition deal_till :: create_env where
  "deal_till = till_env\<lparr>cn_eval := Some (happy_hour_evaluator shop_deals 2 3), cn_record := True\<rparr>"

definition deal_request :: create_request where
  "deal_request = till_request\<lparr>rq_lines := [taxed_input], rq_charges := []\<rparr>"

lemma deal_created:
  "case create_order deal_till deal_request empty_store of
     (st', Inr po) \<Rightarrow> po_subtotal po = 100 \<and> po_discount_total po = 50 \<and> or_promos st' = [(1, 70, 50)]
   | _ \<Rightarrow> False"
  by code_simp

theorem deals_never_exceed_goods_witness:
  "\<exists>st' po. create_order deal_till deal_request empty_store = (st', Inr po) \<and> po_discount_total po = 50 \<and>
     po_discount_total po \<le> po_subtotal po"
proof -
  obtain st' po where c: "create_order deal_till deal_request empty_store = (st', Inr po)" "po_discount_total po = 50"
    using deal_created by (auto split: prod.splits sum.splits)
  have "0 \<le> po_discount_total po \<and> po_discount_total po \<le> po_subtotal po"
  proof (rule deals_never_exceed_goods [OF c(1), of shop_deals 2 3])
    show "list_all plain_input (rq_lines deal_request)"
      by (simp add: deal_request_def till_request_def taxed_input_def plain_input_def)
  qed (simp_all add: deal_till_def till_env_def empty_store_def deal_request_def till_request_def shop_deals_def
      shop.decimal_lib_axioms)
  then show ?thesis using c by blast
qed

section \<open>What the code does not keep\<close>

text \<open>
  Finding. \<open>max_discount\<close> is the cap on a rule's computed discount, but the combination of deals adds up
  the per-item amounts, which a "buy X get Y" rule leaves uncapped: four sodas, two free, at a cap of
  20 take off 100.
\<close>

lemma bogo_cap_is_lost:
  "let r = soda_rule\<lparr>rl_type := ''bogo'', rl_max_discount := Some 20\<rparr>; ls = [(cart_line ''SODA'' 50 4, zero_time)]
   in fst (evaluate_rule shop_decimal r (map fst ls)) = 20 \<and>
      au_discount (combine_timed_discounts shop_decimal (\<lambda>_. 10800) 0 [(soda_deal, r)] ls) = 100"
  by code_simp

text \<open>
  Finding. \<open>CreateOrder\<close> prices a line sent without a total at unit price times quantity, the adapter
  hands the evaluator the total as sent: two sodas at 50 are charged 100 and earn nothing.
\<close>

lemma unpriced_line_earns_nothing:
  "let l = taxed_input\<lparr>li_total_price := 0\<rparr>
   in input_total shop_decimal l = 100 \<and> ho_discount (happy_hour_evaluator shop_deals 2 3 [(l, 0)]) = 0 \<and>
      ho_discount (happy_hour_evaluator shop_deals 2 3 [(taxed_input, 0)]) = 50"
  by code_simp

text \<open>
  Finding. The audit rows of stacked storewide deals are written before the cap at the subtotal: two
  deals of sixty percent take 100 off goods of 100 and are recorded with 60 each.
\<close>

lemma audit_rows_exceed_discount:
  "let r = soda_rule\<lparr>rl_scope_type := ''storewide'', rl_scope_ids := [], rl_value := 60\<rparr>;
       env = shop_deals\<lparr>pe_promos := [soda_deal, soda_deal\<lparr>pm_id := 4\<rparr>], pe_rules := [r, r\<lparr>rl_promotion := 4\<rparr>]\<rparr>;
       out = happy_hour_evaluator env 2 3 [(taxed_input, 0)]
   in ho_discount out = 100 \<and> sum_list (map (snd \<circ> snd) (promo_audits 70 out)) = 120"
  by code_simp

text \<open>
  Finding. A cap of 0 is documented as no cap; the check refuses every unit.
\<close>

lemma zero_cap_refuses:
  "cap_check (redeem_db\<lparr>rn_promos := [tea_promo\<lparr>pm_usage_limit := Some 0, pm_max_units := None\<rparr>]\<rparr>) 9 1 [] 1 []
     = Inr (Some Usage_Limit_Reached)"
  by code_simp


text \<open>
  Finding. The preview of a code promises to let nothing through that the final reservation would
  refuse, but it counts only the units the code applies to, while the reservation counts every unit of
  the order: one tea is let through at a cap of 3, the order of a tea and three cakes is refused.
\<close>

lemma preview_passes_reservation_refuses:
  "preview_redemption redeem_db 9 1 ''ann'' (sum_fl 0 (map dl_quantity
     (code_lines (\<lambda>_. 10800) 0 tea_promo (soda_rule\<lparr>rl_meal := Some ''breakfast''\<rparr>)
       [(cart_line ''SODA'' 50 1, 14400000000000), (cart_line ''CAKE'' 80 3, zero_time)]))) [] = Inr Reserved \<and>
   reserve_order_promotion redeem_db 9 1 ''ann'' ''ref'' [] [] [1, 3] [] = (False, [])"
  by code_simp

end
