(* ===== verification/Return_Lines.thy ===== *)
theory Return_Lines
  imports Order_Create Payment_Admin "HOL-Library.Char_ord" "HOL-Library.List_Lexorder"
begin

text \<open>
  The rules of a return (\<open>internal/modules/returns\<close>): which quantity may come back and at which value
  (\<open>lines.go\<close>), how the customer may be settled (\<open>policy.go\<close>), whether the goods go back to stock
  (\<open>restock_policy.go\<close>), and the lines, VAT and cost a refund reverses (\<open>fiscal_refund.go\<close>,
  \<open>service.go\<close>, \<open>orders/refund_lines.go\<close>, \<open>saletax/discount_vat.go\<close>). The rounding of
  \<open>httpware/money\<close> is an argument. A float is a rational number, so the tests for NaN and infinity are
  void here.
\<close>

section \<open>Rows and requests\<close>

record return_line =
  bl_order_line :: uuid
  bl_sku :: string
  bl_name :: string
  bl_quantity :: f64
  bl_unit_price :: f64
  bl_total_price :: f64
  bl_reason :: string

record sale_return =
  bk_id :: uuid
  bk_tenant :: uuid
  bk_outlet :: uuid
  bk_order :: uuid
  bk_number :: string
  bk_type :: string
  bk_status :: string
  bk_reason :: string
  bk_code :: "string option"
  bk_amount :: f64
  bk_exchange :: "uuid option"
  bk_requested_by :: uuid
  bk_approved_by :: "uuid option"
  bk_channel :: "string option"
  bk_refund_ref :: "string option"
  bk_meta :: meta
  bk_created_at :: time
  bk_lines :: "return_line list"

record return_input =
  ri_order_line :: uuid
  ri_item :: uuid
  ri_sku :: string
  ri_name :: string
  ri_quantity :: f64
  ri_unit_price :: f64
  ri_total_price :: f64
  ri_reason :: string
  ri_tax_code :: string
  ri_inclusive :: bool
  ri_tax_rate :: "f64 option"

definition bs_pending :: string where "bs_pending = ''pending''"
definition bs_approved :: string where "bs_approved = ''approved''"
definition bs_rejected :: string where "bs_rejected = ''rejected''"
definition bs_completed :: string where "bs_completed = ''completed''"

lemmas bs_defs = bs_pending_def bs_approved_def bs_rejected_def bs_completed_def

lemma bs_neq [simp]:
  "bs_pending \<noteq> bs_approved" "bs_pending \<noteq> bs_rejected" "bs_pending \<noteq> bs_completed" "bs_approved \<noteq> bs_pending"
  "bs_approved \<noteq> bs_rejected" "bs_approved \<noteq> bs_completed" "bs_rejected \<noteq> bs_pending" "bs_rejected \<noteq> bs_approved"
  "bs_rejected \<noteq> bs_completed" "bs_completed \<noteq> bs_pending" "bs_completed \<noteq> bs_approved" "bs_completed \<noteq> bs_rejected"
  by (simp_all add: bs_defs)

definition return_types :: "string list" where
  "return_types = [''refund'', ''exchange'', ''store_credit'']"

text \<open>Strings outside the schema's enums read as unset.\<close>

definition refund_channel_ptr :: "string \<Rightarrow> string option" where
  "refund_channel_ptr s =
     (if s \<in> set [''cash'', ''mpesa'', ''bank'', ''cheque'', ''store_credit'', ''offset_invoice''] then Some s else None)"

definition reason_code_ptr :: "string \<Rightarrow> string option" where
  "reason_code_ptr s =
     (if s \<in> set [''changed_mind'', ''defective'', ''damaged'', ''wrong_item'', ''expired'', ''other''] then Some s else None)"

datatype return_error =
    No_Lines
  | Sale_Not_Found
  | Return_Fault
  | Window_Expired
  | Bad_Quantity
  | Not_On_Sale string
  | Over_Return f64 string f64
  | Not_Returnable "string list"
  | Store_Credit_Blocked string
  | Offset_Required string
  | Nothing_To_Offset
  | Return_Not_Found
  | Not_Pending
  | Not_Approved
  | Exchange_Unwired
  | Exchange_Needs_Lines
  | Bad_Replacement string
  | Replacement_Failed create_error

section \<open>Which quantity may come back\<close>

definition qty_epsilon :: f64 where
  "qty_epsilon = fl (1 / 1000000)"

definition match_order_line_by_sku :: "order_line list \<Rightarrow> string \<Rightarrow> order_line option" where
  "match_order_line_by_sku lines sku =
     (if sku = [] then None else case filter (\<lambda>l. ol_sku l = sku) lines of [l] \<Rightarrow> Some l | _ \<Rightarrow> None)"

definition find_order_line :: "order_line list \<Rightarrow> return_input \<Rightarrow> order_line option" where
  "find_order_line lines l =
     (case find (\<lambda>x. ol_id x = ri_order_line l) lines of
        Some x \<Rightarrow> Some x
      | None \<Rightarrow> match_order_line_by_sku lines (ri_sku l))"

text \<open>The lines of an order's returns that hold quantity: Edit Sale counts completed returns only.\<close>

definition holding_statuses :: "bool \<Rightarrow> string list" where
  "holding_statuses completed_only = (if completed_only then [bs_completed] else [bs_pending, bs_approved, bs_completed])"

definition held_lines :: "uuid \<Rightarrow> bool \<Rightarrow> sale_return list \<Rightarrow> return_line list" where
  "held_lines oid completed_only rets =
     concat (map bk_lines (filter (\<lambda>r. bk_order r = oid \<and> bk_status r \<in> set (holding_statuses completed_only)) rets))"

definition held_return_qty :: "uuid \<Rightarrow> bool \<Rightarrow> sale_return list \<Rightarrow> uuid \<Rightarrow> f64" where
  "held_return_qty oid completed_only rets i =
     sum_fl 0 (map bl_quantity (filter (\<lambda>l. bl_order_line l = i) (held_lines oid completed_only rets)))"

definition voided_of :: "order_line \<Rightarrow> f64" where
  "voided_of ol = (case ol_voided_qty ol of Some v \<Rightarrow> v | None \<Rightarrow> 0)"

definition left_to_return :: "order_line \<Rightarrow> (uuid \<Rightarrow> f64) \<Rightarrow> (uuid \<Rightarrow> f64) \<Rightarrow> f64" where
  "left_to_return ol held claimed =
     fl (fl (fl (ol_quantity ol - voided_of ol) - held (ol_id ol)) - claimed (ol_id ol))"

text \<open>
  The line that is stored. On the customer's path its value is what the sale charged for the quantity
  (a line sold with quantity zero can only match a return below the tolerance; Go's quotient is then
  not a number, here it is zero).
\<close>

definition resolved_line :: "(f64 \<Rightarrow> f64) \<Rightarrow> bool \<Rightarrow> order_line \<Rightarrow> return_input \<Rightarrow> return_input" where
  "resolved_line round2 internal ol l =
     (let l = l\<lparr>ri_order_line := ol_id ol, ri_sku := ol_sku ol, ri_name := ol_name ol\<rparr>
      in if internal then l
         else l\<lparr>ri_unit_price := ol_unit_price ol,
                ri_total_price := round2 (fl (ol_total_price ol * fl (ri_quantity l / ol_quantity ol)))\<rparr>)"

fun resolve_inputs ::
  "(f64 \<Rightarrow> f64) \<Rightarrow> order_line list \<Rightarrow> (uuid \<Rightarrow> f64) \<Rightarrow> bool \<Rightarrow> (uuid \<Rightarrow> f64) \<Rightarrow> return_input list
     \<Rightarrow> return_error + return_input list" where
  "resolve_inputs round2 lines held internal claimed [] = Inr []"
| "resolve_inputs round2 lines held internal claimed (l # ls) =
     (if ri_quantity l \<le> 0 then Inl Bad_Quantity
      else case find_order_line lines l of
        None \<Rightarrow> Inl (Not_On_Sale (if ri_name l = [] then ri_sku l else ri_name l))
      | Some ol \<Rightarrow>
          (let remaining = left_to_return ol held claimed
           in if ri_quantity l > fl (remaining + qty_epsilon)
              then Inl (Over_Return (ri_quantity l) (ol_name ol) (if remaining < 0 then 0 else remaining))
              else bind_err
                (resolve_inputs round2 lines held internal
                   (claimed(ol_id ol := fl (claimed (ol_id ol) + ri_quantity l))) ls)
                (\<lambda>rest. Inr (resolved_line round2 internal ol l # rest))))"

definition resolve_return_lines ::
  "(f64 \<Rightarrow> f64) \<Rightarrow> bool \<Rightarrow> bool \<Rightarrow> pos_order \<Rightarrow> sale_return list \<Rightarrow> bool \<Rightarrow> return_input list \<Rightarrow> return_error + return_input list" where
  "resolve_return_lines round2 lines_ok held_ok po rets internal ls =
     (if \<not> lines_ok \<or> \<not> held_ok then Inl Return_Fault
      else resolve_inputs round2 (po_lines po) (held_return_qty (po_id po) internal rets) internal (\<lambda>_. 0) ls)"

definition sold_qty_by_sku :: "bool \<Rightarrow> pos_order option \<Rightarrow> string \<Rightarrow> f64" where
  "sold_qty_by_sku ok po sku =
     (case po of
        Some po \<Rightarrow> if ok then sum_fl 0 (map ol_quantity (filter (\<lambda>l. ol_sku l = sku) (po_lines po))) else 0
      | None \<Rightarrow> 0)"

definition fmt_qty :: "f64 \<Rightarrow> string" where
  "fmt_qty q =
     (if q = of_int \<lfloor>q\<rfloor> then show_int \<lfloor>q\<rfloor>
      else (let m = round_even (\<bar>q\<bar> * 100)
            in (if q < 0 then ''-'' else []) @ show_int (m div 100) @ ''.'' @ pad_int 2 (m mod 100)))"

section \<open>How the customer is settled\<close>

definition store_credit_blocked_reasons :: "string list" where
  "store_credit_blocked_reasons = [''defective'', ''damaged'', ''expired'', ''wrong_item'']"

definition validate_refund_channel :: "string option \<Rightarrow> string \<Rightarrow> string \<Rightarrow> bool \<Rightarrow> bool \<Rightarrow> return_error option" where
  "validate_refund_channel code rtype channel on_account restrict =
     (let wants_credit = (channel = ''store_credit'' \<or> channel = [] \<and> rtype = ''store_credit'')
      in if wants_credit \<and> (case code of Some c \<Rightarrow> c \<in> set store_credit_blocked_reasons | None \<Rightarrow> False)
         then Some (Store_Credit_Blocked (case code of Some c \<Rightarrow> c | None \<Rightarrow> []))
         else if on_account \<and> restrict \<and> channel \<noteq> [] \<and> channel \<noteq> ''offset_invoice'' then Some (Offset_Required channel)
         else if \<not> on_account \<and> channel = ''offset_invoice'' then Some Nothing_To_Offset
         else None)"

definition meta_bool_default :: "meta \<Rightarrow> string \<Rightarrow> bool \<Rightarrow> bool" where
  "meta_bool_default m k d = (case meta_get m k of Some (JBool b) \<Rightarrow> b | _ \<Rightarrow> d)"

record return_setting =
  rs_window_days :: int
  rs_metadata :: meta

definition credit_sale_refund_restricted :: "pos_order option \<Rightarrow> (uuid \<Rightarrow> return_setting option) \<Rightarrow> bool" where
  "credit_sale_refund_restricted po settings =
     (case po of
        None \<Rightarrow> True
      | Some po \<Rightarrow>
          (case settings (po_outlet po) of
             None \<Rightarrow> True
           | Some s \<Rightarrow> meta_bool_default (rs_metadata s) ''restrict_credit_sale_refund_to_offset'' True))"

definition default_refund_channel :: "string \<Rightarrow> bool \<Rightarrow> string" where
  "default_refund_channel rtype on_account =
     (if on_account then ''offset_invoice'' else if rtype = ''store_credit'' then ''store_credit'' else ''cash'')"

text \<open>\<open>SettledOnAccount\<close> (\<open>orders/settlement.go\<close>): the mark on the order, or a credit tender among its payments.\<close>

definition settled_on_account ::
  "pos_order option \<Rightarrow> bool \<Rightarrow> bool \<Rightarrow> uuid \<Rightarrow> uuid \<Rightarrow> pos_payment list \<Rightarrow> tender list \<Rightarrow> bool" where
  "settled_on_account po pays_ok count_ok tid oid pays tenders \<longleftrightarrow>
     (case po of Some po \<Rightarrow> is_on_account (po_metadata po) | None \<Rightarrow> False) \<or>
     pays_ok \<and> count_ok \<and>
     (let ids = map pp_tender (filter (\<lambda>p. pp_order p = oid \<and> pp_status p = ps_completed) pays)
      in ids \<noteq> [] \<and> list_ex (\<lambda>t. td_id t \<in> set ids \<and> td_tenant t = tid \<and> td_type t = ''on_account'') tenders)"

section \<open>Whether the goods go back to stock\<close>

definition default_no_restock_reasons :: "string list" where
  "default_no_restock_reasons = [''damaged'', ''defective'', ''expired'']"

definition no_restock_reasons :: "meta \<Rightarrow> string list" where
  "no_restock_reasons m =
     (case meta_get m ''return_no_restock_reasons'' of
        None \<Rightarrow> default_no_restock_reasons
      | Some JNull \<Rightarrow> default_no_restock_reasons
      | Some (JArr xs) \<Rightarrow> concat (map (\<lambda>x. case x of JStr s \<Rightarrow> [s] | _ \<Rightarrow> []) xs)
      | _ \<Rightarrow> [])"

definition sanitize_no_restock_reasons :: "string list \<Rightarrow> string list" where
  "sanitize_no_restock_reasons rs =
     sort (remdups (filter (\<lambda>r. reason_code_ptr r \<noteq> None) rs))"

definition restock_by_policy :: "return_setting option \<Rightarrow> string option \<Rightarrow> bool" where
  "restock_by_policy setting code =
     (case code of
        None \<Rightarrow> True
      | Some c \<Rightarrow>
          c = [] \<or> c \<notin> set (no_restock_reasons (case setting of Some s \<Rightarrow> rs_metadata s | None \<Rightarrow> [])))"

section \<open>What a refund reverses\<close>

definition line_gross :: "order_line \<Rightarrow> f64" where
  "line_gross l =
     (case ol_tax_amount l of
        Some t \<Rightarrow> if \<not> ol_inclusive l \<and> t > 0 then fl (ol_total_price l + t) else ol_total_price l
      | None \<Rightarrow> ol_total_price l)"

definition order_discount_ratio :: "f64 \<Rightarrow> order_line list \<Rightarrow> f64" where
  "order_discount_ratio order_total lines =
     (let gross = sum_fl 0 (map line_gross lines)
      in if gross > order_total \<and> gross > 0 then fl (fl (gross - order_total) / gross) else 0)"

record refund_input =
  fi_sku :: string
  fi_name :: string
  fi_quantity :: f64
  fi_gross :: f64
  fi_tax :: f64
  fi_tax_code :: string

record refund_line =
  fr_sku :: string
  fr_name :: string
  fr_quantity :: f64
  fr_unit_price :: f64
  fr_tax_code :: string
  fr_tax_rate :: f64

definition refund_line_of :: "(f64 \<Rightarrow> nat \<Rightarrow> f64) \<Rightarrow> f64 \<Rightarrow> refund_input \<Rightarrow> refund_line" where
  "refund_line_of rnd ratio l =
     (let eff = fl (fi_gross l * fl (1 - ratio));
          tax = (if fi_tax l > 0 then fl (fi_tax l * fl (1 - ratio)) else 0);
          net = fl (eff - tax)
      in \<lparr>fr_sku = fi_sku l, fr_name = fi_name l, fr_quantity = fi_quantity l,
          fr_unit_price = rnd (fl (net / fi_quantity l)) 6, fr_tax_code = fi_tax_code l,
          fr_tax_rate = (if net > 0 then rnd (fl (fl (tax / net) * 100)) 4 else 0)\<rparr>)"

definition build_refund_lines :: "(f64 \<Rightarrow> nat \<Rightarrow> f64) \<Rightarrow> f64 \<Rightarrow> refund_input list \<Rightarrow> refund_line list" where
  "build_refund_lines rnd ratio ls =
     map (refund_line_of rnd ratio) (filter (\<lambda>l. \<not> (fi_quantity l \<le> 0 \<or> fi_gross l \<le> 0)) ls)"

definition tax_share :: "order_line \<Rightarrow> f64 \<Rightarrow> f64" where
  "tax_share ol qty =
     (case ol_tax_amount ol of
        Some t \<Rightarrow> (let ratio = fl (qty / ol_quantity ol) in fl (t * (if ratio > 1 then 1 else ratio)))
      | None \<Rightarrow> 0)"

definition refund_input_of :: "order_line list \<Rightarrow> return_line \<Rightarrow> refund_input" where
  "refund_input_of lines l =
     (let base = \<lparr>fi_sku = bl_sku l, fi_name = bl_name l, fi_quantity = bl_quantity l, fi_gross = bl_total_price l,
            fi_tax = 0, fi_tax_code = []\<rparr>
      in case find (\<lambda>ol. ol_id ol = bl_order_line l) lines of
           None \<Rightarrow> base
         | Some ol \<Rightarrow>
             (let tax = (case ol_tax_amount ol of
                    Some t \<Rightarrow> if t > 0 \<and> ol_quantity ol > 0 then tax_share ol (bl_quantity l) else 0 | None \<Rightarrow> 0)
              in base\<lparr>fi_tax_code := ol_tax_code ol, fi_tax := tax,
                   fi_gross := (if ol_inclusive ol then bl_total_price l else fl (bl_total_price l + tax))\<rparr>))"

definition resolve_return_tax :: "bool \<Rightarrow> pos_order option \<Rightarrow> return_line list \<Rightarrow> f64" where
  "resolve_return_tax ok po ls =
     (case po of
        None \<Rightarrow> 0
      | Some po \<Rightarrow>
          if \<not> ok then 0
          else sum_fl 0 (concat (map (\<lambda>l.
            case find (\<lambda>ol. ol_id ol = bl_order_line l) (po_lines po) of
              None \<Rightarrow> []
            | Some ol \<Rightarrow>
                if ol_tax_amount ol \<in> {None, Some 0} \<or> ol_quantity ol \<le> 0 then [] else [tax_share ol (bl_quantity l)])
            (filter (\<lambda>l. bl_order_line l \<noteq> uuid_nil) ls))))"

text \<open>\<open>CatalogCostBySKU\<close>: the cost on the tenant-wide catalog row; the last row of a SKU counts.\<close>

definition catalog_cost_by_sku :: "bool \<Rightarrow> uuid \<Rightarrow> (uuid \<times> uuid option \<times> string \<times> meta) list \<Rightarrow> string list \<Rightarrow> string \<Rightarrow> f64" where
  "catalog_cost_by_sku ok tid rows skus =
     (if \<not> ok \<or> skus = [] then (\<lambda>_. 0)
      else fold (\<lambda>(t, oid, sku, m) costs.
        if t = tid \<and> oid = None \<and> sku \<in> set skus
        then costs(sku := (case meta_get m ''cost_price'' of Some (JNum v) \<Rightarrow> v | _ \<Rightarrow> 0)) else costs) rows (\<lambda>_. 0))"

definition resolve_return_cost :: "bool \<Rightarrow> uuid \<Rightarrow> (uuid \<times> uuid option \<times> string \<times> meta) list \<Rightarrow> return_line list \<Rightarrow> f64" where
  "resolve_return_cost ok tid rows ls =
     (let costs = catalog_cost_by_sku ok tid rows (filter (\<lambda>s. s \<noteq> []) (map bl_sku ls))
      in if filter (\<lambda>s. s \<noteq> []) (map bl_sku ls) = [] then 0
         else sum_fl 0 (map (\<lambda>l. fl (costs (bl_sku l) * bl_quantity l)) ls))"

end
