(* ===== verification/Returns.thy ===== *)
theory Returns
  imports Return_Lines
begin

text \<open>
  The life of a return (\<open>internal/modules/returns/service.go\<close>, \<open>exchange.go\<close>, \<open>fiscal_refund.go\<close>,
  \<open>credit_note_retry.go\<close>, \<open>restock.go\<close>): initiated, approved or rejected, completed with its refund,
  its exchange order and its restock, and then told by inventory what became of the goods. The answers
  of treasury and which statements succeed are arguments; an exchange creates its order with
  \<open>create_order\<close>. Audit entries are left out, and the customer details of a refund. The row of a return is
  locked while it is completed, so a completion is one step; an approval is not, so it is given by the
  row it read and its write.
\<close>

section \<open>State and environment\<close>

record refund_request =
  fq_return :: uuid
  fq_reference :: string
  fq_amount :: f64
  fq_tax :: f64
  fq_cost :: f64
  fq_currency :: string
  fq_channel :: string
  fq_order :: "uuid option"
  fq_lines :: "refund_line list"
  fq_exchange_credit :: f64

record completed_payload =
  cp_return :: uuid
  cp_number :: string
  cp_type :: string
  cp_amount :: f64
  cp_ref :: string
  cp_restock :: bool
  cp_lines :: "(uuid \<times> string \<times> f64 \<times> f64) list"    \<comment> \<open>order line, SKU, quantity, sold quantity\<close>

datatype return_event =
    Return_Initiated uuid string f64
  | Return_Completed completed_payload
  | Exchange_Completed completed_payload "(uuid \<times> f64 \<times> f64) option"
  | Restock_Requested completed_payload

record return_db =
  rb_returns :: "sale_return list"
  rb_store :: order_store
  rb_payments :: "pos_payment list"
  rb_refunds :: "refund_request list"
  rb_notes :: "uuid list"
  rb_events :: "return_event list"
  rb_rechecks :: "(uuid \<times> uuid) list"

datatype return_stmt =
    Load_Order | Helper_Order | Load_Pays | Count_Tenders | Begin_Return | Lock_Order | Load_Lines | Load_Return_Lines | Load_Held
  | Load_Overrides | Load_Catalog | Insert_Return | Insert_Line nat | Load_Return | Save_Return | Commit_Return
  | Insert_Credit | Stamp_Credit | Publish_Return | List_Returns | Load_Outlets

record treasury_env =
  tq_fiscal :: "uuid \<Rightarrow> bool option"
  tq_refund :: "refund_request \<Rightarrow> string option"
  tq_note_ok :: "uuid \<Rightarrow> bool"

record return_env =
  qe_ok :: "return_stmt \<Rightarrow> bool"
  qe_settings :: "uuid \<Rightarrow> return_setting option"
  qe_tenders :: "tender list"
  qe_unreturnable :: "(uuid \<times> string) list"
  qe_catalog :: "(uuid \<times> uuid option \<times> string \<times> meta) list"
  qe_round2 :: "f64 \<Rightarrow> f64"
  qe_round :: "f64 \<Rightarrow> nat \<Rightarrow> f64"
  qe_show :: "uuid \<Rightarrow> string"
  qe_now :: time
  qe_return_id :: uuid
  qe_payment_id :: uuid
  qe_fallback_number :: string
  qe_seq :: "attempt list option"
  qe_till :: "create_env option"
  qe_completion :: bool
  qe_publisher :: bool
  qe_treasury :: "treasury_env option"

definition order_of :: "return_db \<Rightarrow> uuid \<Rightarrow> uuid \<Rightarrow> pos_order option" where
  "order_of db tid oid = find (\<lambda>po. po_id po = oid \<and> po_tenant po = tid) (or_orders (rb_store db))"

definition any_order :: "return_db \<Rightarrow> uuid \<Rightarrow> pos_order option" where
  "any_order db oid = find (\<lambda>po. po_id po = oid) (or_orders (rb_store db))"

definition find_return :: "return_db \<Rightarrow> uuid \<Rightarrow> sale_return option" where
  "find_return db rid = find (\<lambda>r. bk_id r = rid) (rb_returns db)"

definition put_return :: "uuid \<Rightarrow> (sale_return \<Rightarrow> sale_return) \<Rightarrow> return_db \<Rightarrow> return_db" where
  "put_return rid f db = db\<lparr>rb_returns := map (\<lambda>r. if bk_id r = rid then f r else r) (rb_returns db)\<rparr>"

definition on_account_sale :: "return_env \<Rightarrow> return_db \<Rightarrow> uuid \<Rightarrow> uuid \<Rightarrow> bool" where
  "on_account_sale env db tid oid =
     settled_on_account (if qe_ok env Helper_Order then order_of db tid oid else None) (qe_ok env Load_Pays)
       (qe_ok env Count_Tenders) tid oid (rb_payments db) (qe_tenders env)"

definition refund_restricted :: "return_env \<Rightarrow> return_db \<Rightarrow> uuid \<Rightarrow> uuid \<Rightarrow> bool" where
  "refund_restricted env db tid oid =
     credit_sale_refund_restricted (if qe_ok env Helper_Order then order_of db tid oid else None) (qe_settings env)"

section \<open>CreateReturn\<close>

record return_request =
  zr_order :: uuid
  zr_outlet :: uuid
  zr_type :: string
  zr_reason :: string
  zr_code :: string
  zr_channel :: string
  zr_lines :: "return_input list"
  zr_by :: uuid
  zr_date :: "time option"
  zr_bypass :: bool

definition window_expired :: "return_env \<Rightarrow> pos_order \<Rightarrow> bool" where
  "window_expired env po \<longleftrightarrow>
     (case qe_settings env (po_outlet po) of
        None \<Rightarrow> False
      | Some s \<Rightarrow> rs_window_days s > 0 \<and> qe_now env - po_created_at po > rs_window_days s * 24 * 3600000000000)"

definition unreturnable_skus :: "return_env \<Rightarrow> uuid \<Rightarrow> return_input list \<Rightarrow> string list" where
  "unreturnable_skus env tid ls =
     (let skus = filter (\<lambda>s. s \<noteq> []) (map ri_sku ls)
      in if skus = [] \<or> \<not> qe_ok env Load_Overrides then []
         else map snd (filter (\<lambda>r. fst r = tid \<and> snd r \<in> set skus) (qe_unreturnable env)))"

definition return_number_for :: "return_env \<Rightarrow> uuid \<Rightarrow> seq_table \<Rightarrow> seq_table \<times> string" where
  "return_number_for env tid t =
     (case qe_seq env of
        None \<Rightarrow> (t, qe_fallback_number env)
      | Some ats \<Rightarrow>
          (let r = generate_number tid ''pos_return'' ats t
           in (fst r, case snd r of Inr n \<Rightarrow> if n \<noteq> [] then n else qe_fallback_number env | Inl e \<Rightarrow> qe_fallback_number env)))"

definition return_line_of :: "return_input \<Rightarrow> return_line" where
  "return_line_of l = \<lparr>bl_order_line = ri_order_line l, bl_sku = ri_sku l, bl_name = ri_name l, bl_quantity = ri_quantity l,
     bl_unit_price = ri_unit_price l, bl_total_price = ri_total_price l, bl_reason = ri_reason l\<rparr>"

definition new_return ::
  "return_env \<Rightarrow> uuid \<Rightarrow> return_request \<Rightarrow> pos_order \<Rightarrow> string \<Rightarrow> string \<Rightarrow> bool \<Rightarrow> return_input list \<Rightarrow> sale_return" where
  "new_return env tid rq po number rtype on_account ls =
     \<lparr>bk_id = qe_return_id env, bk_tenant = tid,
      bk_outlet = (if zr_outlet rq = uuid_nil then po_outlet po else zr_outlet rq), bk_order = zr_order rq,
      bk_number = number, bk_type = rtype, bk_status = bs_pending, bk_reason = zr_reason rq,
      bk_code = reason_code_ptr (zr_code rq), bk_amount = sum_fl 0 (map ri_total_price ls), bk_exchange = None,
      bk_requested_by = zr_by rq, bk_approved_by = None, bk_channel = refund_channel_ptr (zr_channel rq), bk_refund_ref = None,
      bk_meta = (''on_account_sale'', JBool on_account) # (if zr_bypass rq then [(''source'', JStr ''edit_sale'')] else []),
      bk_created_at = (case zr_date rq of Some d \<Rightarrow> d | None \<Rightarrow> qe_now env), bk_lines = map return_line_of ls\<rparr>"

text \<open>The row and its lines are stored in one transaction, under the primary key and the index on tenant and number.\<close>

definition store_return :: "return_env \<Rightarrow> sale_return \<Rightarrow> return_db \<Rightarrow> (return_error + sale_return) \<times> return_db" where
  "store_return env r db =
     (if bk_type r \<notin> set return_types \<or> \<not> qe_ok env Insert_Return \<or>
         list_ex (\<lambda>q. bk_id q = bk_id r \<or> bk_tenant q = bk_tenant r \<and> bk_number q = bk_number r) (rb_returns db) \<or>
         \<not> list_all (\<lambda>n. qe_ok env (Insert_Line n)) [0..<length (bk_lines r)] \<or> \<not> qe_ok env Commit_Return
      then (Inl Return_Fault, db)
      else (Inr r, db\<lparr>rb_returns := rb_returns db @ [r],
              rb_events := (if qe_publisher env then rb_events db @ [Return_Initiated (bk_id r) (bk_type r) (bk_amount r)]
                            else rb_events db)\<rparr>))"

definition create_return ::
  "return_env \<Rightarrow> uuid \<Rightarrow> return_request \<Rightarrow> return_db \<Rightarrow> (return_error + sale_return) \<times> return_db" where
  "create_return env tid rq db =
     (if zr_lines rq = [] then (Inl No_Lines, db)
      else if \<not> qe_ok env Load_Order then (Inl Return_Fault, db)
      else case order_of db tid (zr_order rq) of
        None \<Rightarrow> (Inl Sale_Not_Found, db)
      | Some po \<Rightarrow>
          if \<not> zr_bypass rq \<and> window_expired env po then (Inl Window_Expired, db)
          else if \<not> qe_ok env Begin_Return \<or> \<not> qe_ok env Lock_Order then (Inl Return_Fault, db)
          else case resolve_return_lines (qe_round2 env) (qe_ok env Load_Lines) (qe_ok env Load_Held) po (rb_returns db)
                  (zr_bypass rq) (zr_lines rq) of
            Inl e \<Rightarrow> (Inl e, db)
          | Inr ls \<Rightarrow>
              (let blocked = (if zr_bypass rq then [] else unreturnable_skus env tid ls);
                   rtype = (if zr_type rq = [] then ''refund'' else zr_type rq);
                   on_account = on_account_sale env db tid (zr_order rq)
               in if blocked \<noteq> [] then (Inl (Not_Returnable blocked), db)
                  else case validate_refund_channel (reason_code_ptr (zr_code rq)) rtype (zr_channel rq) on_account
                         (refund_restricted env db tid (zr_order rq)) of
                    Some e \<Rightarrow> (Inl e, db)
                  | None \<Rightarrow>
                      (let num = return_number_for env tid (or_seq (rb_store db))
                       in store_return env (new_return env tid rq po (snd num) rtype on_account ls)
                            (db\<lparr>rb_store := rb_store db\<lparr>or_seq := fst num\<rparr>\<rparr>))))"

section \<open>ApproveReturn\<close>

record decision =
  zd_action :: string
  zd_notes :: string
  zd_channel :: string
  zd_by :: uuid

text \<open>The change an approval makes, decided on the row it read.\<close>

definition decide_return ::
  "return_env \<Rightarrow> uuid \<Rightarrow> decision \<Rightarrow> sale_return \<Rightarrow> return_db \<Rightarrow> return_error + (sale_return \<Rightarrow> sale_return)" where
  "decide_return env tid d ret db =
     (if bk_tenant ret \<noteq> tid then Inl Return_Not_Found
      else if bk_status ret \<noteq> bs_pending then Inl Not_Pending
      else
        (let status = (if zd_action d = ''reject'' then bs_rejected else bs_approved)
         in case (case refund_channel_ptr (zd_channel d) of
                    None \<Rightarrow> None
                  | Some c \<Rightarrow> validate_refund_channel (bk_code ret) (bk_type ret) c (on_account_sale env db tid (bk_order ret))
                      (refund_restricted env db tid (bk_order ret))) of
              Some e \<Rightarrow> Inl e
            | None \<Rightarrow>
                Inr (\<lambda>r. r\<lparr>bk_status := status,
                    bk_approved_by := (if zd_by d \<noteq> uuid_nil then Some (zd_by d) else bk_approved_by r),
                    bk_channel := (case refund_channel_ptr (zd_channel d) of Some c \<Rightarrow> Some c | None \<Rightarrow> bk_channel r),
                    bk_meta := (if trim_space (zd_notes d) \<noteq> []
                      then meta_set (if status = bs_rejected then ''rejection_notes'' else ''approval_notes'') (JStr (zd_notes d))
                        (bk_meta ret)
                      else bk_meta r)\<rparr>)))"

definition approve_write :: "return_env \<Rightarrow> uuid \<Rightarrow> (sale_return \<Rightarrow> sale_return) \<Rightarrow> return_db \<Rightarrow> (return_error + unit) \<times> return_db" where
  "approve_write env rid f db = (if \<not> qe_ok env Save_Return then (Inl Return_Fault, db) else (Inr (), put_return rid f db))"

definition approve_return :: "return_env \<Rightarrow> uuid \<Rightarrow> uuid \<Rightarrow> decision \<Rightarrow> return_db \<Rightarrow> (return_error + unit) \<times> return_db" where
  "approve_return env tid rid d db =
     (if \<not> qe_ok env Load_Return then (Inl Return_Fault, db)
      else case find_return db rid of
        None \<Rightarrow> (Inl Return_Not_Found, db)
      | Some ret \<Rightarrow> (case decide_return env tid d ret db of Inl e \<Rightarrow> (Inl e, db) | Inr f \<Rightarrow> approve_write env rid f db))"

section \<open>The exchange order\<close>

record completion =
  zc_notes :: string
  zc_channel :: string
  zc_exchange :: "return_input list"
  zc_by :: uuid
  zc_restock :: "bool option"

record exchange_result =
  xr_order :: uuid
  xr_number :: string
  xr_total :: f64
  xr_credit :: f64
  xr_payable :: f64
  xr_leftover :: f64

definition min_settle :: f64 where
  "min_settle = fl (9 / 1000)"

definition replacement_line :: "return_input \<Rightarrow> order_line_input" where
  "replacement_line l =
     \<lparr>li_catalog_item = ri_item l, li_sku = ri_sku l, li_name = ri_name l, li_category = [], li_quantity = ri_quantity l,
      li_unit_price = ri_unit_price l,
      li_total_price = (if ri_total_price l \<le> 0 then fl (ri_unit_price l * ri_quantity l) else ri_total_price l),
      li_tax_status = [], li_tax_code = ri_tax_code l, li_inclusive = ri_inclusive l, li_tax_rate = ri_tax_rate l, li_course = 0,
      li_metadata = [], li_modifiers = []\<rparr>"

definition replacement_request ::
  "return_env \<Rightarrow> uuid \<Rightarrow> sale_return \<Rightarrow> completion \<Rightarrow> pos_order option \<Rightarrow> string \<Rightarrow> create_request" where
  "replacement_request env tid ret c original currency =
     \<lparr>rq_tenant = tid, rq_slug = [], rq_outlet = bk_outlet ret, rq_device = uuid_nil, rq_user = zc_by c, rq_served_by = uuid_nil,
      rq_number = [], rq_client_ref = [], rq_offline_at = None, rq_currency = currency,
      rq_lines = map replacement_line (zc_exchange c),
      rq_metadata = [(''exchange_return_id'', JStr (qe_show env (bk_id ret))),
        (''exchange_for_order'', JStr (qe_show env (bk_order ret))), (''exchange_return_num'', JStr (bk_number ret))],
      rq_subtype = ''retail'', rq_table = [],
      rq_phone = (case original of Some po \<Rightarrow> (case po_customer_phone po of Some s \<Rightarrow> s | None \<Rightarrow> []) | None \<Rightarrow> []),
      rq_name = (case original of Some po \<Rightarrow> (case po_customer_name po of Some s \<Rightarrow> s | None \<Rightarrow> []) | None \<Rightarrow> []),
      rq_discount = 0, rq_order_tax = 0, rq_charges = [], rq_source = ''back_office'', rq_business_date = [],
      rq_skip_discounts = False, rq_hold = False\<rparr>"

definition exchange_payment :: "return_env \<Rightarrow> sale_return \<Rightarrow> uuid \<Rightarrow> f64 \<Rightarrow> string \<Rightarrow> pos_payment" where
  "exchange_payment env ret oid credit currency =
     \<lparr>pp_id = qe_payment_id env, pp_order = oid, pp_tender = uuid_nil, pp_amount = credit, pp_currency = currency,
      pp_status = ps_completed, pp_reference = Some (bk_number ret),
      pp_data = [(''method'', JStr ''exchange_credit''), (''return_id'', JStr (qe_show env (bk_id ret)))],
      pp_occurred = qe_now env\<rparr>"

definition stamp_exchange_credit :: "return_env \<Rightarrow> pos_order \<Rightarrow> f64 \<Rightarrow> return_db \<Rightarrow> return_db" where
  "stamp_exchange_credit env po credit db =
     (if \<not> qe_ok env Stamp_Credit then db
      else db\<lparr>rb_store := rb_store db\<lparr>or_orders := map (\<lambda>q. if po_id q = po_id po
             then q\<lparr>po_metadata := meta_set ''exchange_credit'' (JNum credit) (po_metadata po)\<rparr> else q) (or_orders (rb_store db))\<rparr>\<rparr>)"

text \<open>What follows the creation of the replacement: its credit, and its completion when nothing is left to pay.\<close>

definition credit_exchange ::
  "return_env \<Rightarrow> uuid \<Rightarrow> sale_return \<Rightarrow> pos_order \<Rightarrow> string \<Rightarrow> return_db \<Rightarrow> (return_error + exchange_result) \<times> return_db" where
  "credit_exchange env tid ret po currency db =
     (let credit = min (bk_amount ret) (po_total_amount po);
          leftover = max (fl (bk_amount ret - credit)) 0;
          payable = max (fl (po_total_amount po - credit)) 0
      in if credit > min_settle \<and> \<not> qe_ok env Insert_Credit then (Inl Return_Fault, db)
         else
           (let db = (if credit > min_settle
                      then stamp_exchange_credit env po credit
                        (db\<lparr>rb_payments := rb_payments db @ [exchange_payment env ret (po_id po) credit currency]\<rparr>)
                      else db);
                db = (if payable \<le> min_settle \<and> qe_completion env
                      then db\<lparr>rb_rechecks := rb_rechecks db @ [(tid, po_id po)]\<rparr> else db)
            in (Inr \<lparr>xr_order = po_id po, xr_number = po_number po, xr_total = po_total_amount po, xr_credit = credit,
                  xr_payable = (if payable \<le> min_settle then 0 else payable), xr_leftover = leftover\<rparr>, db)))"

definition fulfil_exchange ::
  "return_env \<Rightarrow> uuid \<Rightarrow> sale_return \<Rightarrow> completion \<Rightarrow> return_db \<Rightarrow> (return_error + exchange_result option) \<times> return_db" where
  "fulfil_exchange env tid ret c db =
     (if bk_type ret \<noteq> ''exchange'' then (Inr None, db)
      else case qe_till env of
        None \<Rightarrow> (Inl Exchange_Unwired, db)
      | Some till \<Rightarrow>
          if zc_exchange c = [] then (Inl Exchange_Needs_Lines, db)
          else case find (\<lambda>l. ri_quantity l \<le> 0 \<or> ri_unit_price l < 0) (zc_exchange c) of
            Some l \<Rightarrow> (Inl (Bad_Replacement (ri_name l)), db)
          | None \<Rightarrow>
              (let original = (if qe_ok env Load_Order then order_of db tid (bk_order ret) else None);
                   currency = (case original of Some po \<Rightarrow> if po_currency po \<noteq> [] then po_currency po else ''KES'' | None \<Rightarrow> ''KES'');
                   r = create_order till (replacement_request env tid ret c original currency) (rb_store db);
                   db = db\<lparr>rb_store := fst r\<rparr>
               in case snd r of
                    Inl e \<Rightarrow> (Inl (Replacement_Failed e), db)
                  | Inr po \<Rightarrow>
                      (let x = credit_exchange env tid ret po currency db
                       in (case fst x of Inl e \<Rightarrow> Inl e | Inr y \<Rightarrow> Inr (Some y), snd x))))"

section \<open>CompleteReturn\<close>

text \<open>The refund lines of a fiscalised sale; none when the sale is known not to have reached KRA.\<close>

definition fiscal_refund_for :: "return_env \<Rightarrow> sale_return \<Rightarrow> return_db \<Rightarrow> refund_line list" where
  "fiscal_refund_for env ret db =
     (case qe_treasury env of
        None \<Rightarrow> []
      | Some tr \<Rightarrow>
          if bk_type ret \<notin> set return_types \<or> tq_fiscal tr (bk_order ret) = Some False then []
          else case (if qe_ok env Load_Order then any_order db (bk_order ret) else None) of
            None \<Rightarrow> []
          | Some po \<Rightarrow>
              if \<not> qe_ok env Load_Lines then []
              else build_refund_lines (qe_round env) (order_discount_ratio (po_total_amount po) (po_lines po))
                     (map (refund_input_of (po_lines po)) (bk_lines ret)))"

definition refund_call ::
  "return_env \<Rightarrow> uuid \<Rightarrow> sale_return \<Rightarrow> bool \<Rightarrow> string \<Rightarrow> f64 \<Rightarrow> refund_line list \<Rightarrow> return_db \<Rightarrow> refund_request" where
  "refund_call env tid ret restock channel credit lines db =
     (let po = any_order db (bk_order ret)
      in \<lparr>fq_return = bk_id ret, fq_reference = bk_number ret, fq_amount = bk_amount ret,
          fq_tax = resolve_return_tax (qe_ok env Load_Lines) po (bk_lines ret),
          fq_cost = (if restock then resolve_return_cost (qe_ok env Load_Catalog) tid (qe_catalog env) (bk_lines ret) else 0),
          fq_currency = (case (if qe_ok env Load_Order then po else None) of
             Some po \<Rightarrow> if po_currency po \<noteq> [] then po_currency po else ''KES'' | None \<Rightarrow> ''KES''),
          fq_channel = channel, fq_order = (if lines = [] then None else Some (bk_order ret)), fq_lines = lines,
          fq_exchange_credit = credit\<rparr>)"

text \<open>
  The refund, where money is settled, and the credit note, where the refund did not carry it: the
  channel used, treasury's reference, and the state of the credit note.
\<close>

definition settle_return ::
  "return_env \<Rightarrow> uuid \<Rightarrow> sale_return \<Rightarrow> bool \<Rightarrow> bool \<Rightarrow> string \<Rightarrow> f64 \<Rightarrow> return_db
     \<Rightarrow> (string \<times> string option \<times> string) \<times> return_db" where
  "settle_return env tid ret on_account restock channel credit db =
     (case qe_treasury env of
        None \<Rightarrow> ((channel, None, []), db)
      | Some tr \<Rightarrow>
          (let lines = fiscal_refund_for env ret db;
               pays = (bk_amount ret > min_settle);
               channel = (if pays \<and> bk_type ret = ''store_credit'' \<and> \<not> on_account then ''store_credit'' else channel);
               req = refund_call env tid ret restock channel credit lines db;
               ref = (if pays then tq_refund tr req else None);
               db = (if ref \<noteq> None then db\<lparr>rb_refunds := rb_refunds db @ [req]\<rparr> else db)
           in if lines = [] then ((channel, ref, []), db)
              else if ref \<noteq> None then ((channel, ref, ''done''), db)
              else if tq_note_ok tr (bk_id ret) then ((channel, ref, ''done''), db\<lparr>rb_notes := rb_notes db @ [bk_id ret]\<rparr>)
              else ((channel, ref, ''pending''), db)))"

definition completion_meta ::
  "return_env \<Rightarrow> sale_return \<Rightarrow> completion \<Rightarrow> bool \<Rightarrow> string \<Rightarrow> f64 \<Rightarrow> string \<Rightarrow> meta" where
  "completion_meta env ret c restock channel paid_out note =
     (let m = bk_meta ret;
          m = (if note \<noteq> [] then meta_set ''fiscal_credit_note'' (JStr note) m else m);
          m = meta_set ''completed_at'' (JStr (format_rfc3339 (qe_now env))) m;
          m = (if zc_by c \<noteq> uuid_nil then meta_set ''completed_by'' (JStr (qe_show env (zc_by c))) m else m);
          m = (if trim_space (zc_notes c) \<noteq> [] then meta_set ''completion_notes'' (JStr (zc_notes c)) m else m);
          m = (if channel = ''cash'' \<and> paid_out > min_settle then meta_set ''cash_paid_out'' (JNum paid_out) m else m)
      in if restock
         then (let m = meta_set ''restock_decision'' (JStr ''restock'') m
               in if qe_publisher env \<and> bk_lines ret \<noteq> [] then meta_set ''restock_status'' (JStr ''pending'') m else m)
         else meta_set ''restock_updated_at'' (JStr (format_rfc3339 (qe_now env)))
                (meta_set ''restock_status'' (JStr ''not_restocked'')
                  (meta_set ''restock_decision'' (JStr ''write_off'') m)))"

definition completed_payload_of :: "return_env \<Rightarrow> sale_return \<Rightarrow> string \<Rightarrow> return_db \<Rightarrow> completed_payload" where
  "completed_payload_of env ret ref db =
     \<lparr>cp_return = bk_id ret, cp_number = bk_number ret, cp_type = bk_type ret, cp_amount = bk_amount ret, cp_ref = ref,
      cp_restock = (meta_get (bk_meta ret) ''restock_decision'' \<noteq> Some (JStr ''write_off'')),
      cp_lines = map (\<lambda>l. (bl_order_line l, bl_sku l, bl_quantity l,
         sold_qty_by_sku (qe_ok env Load_Lines) (any_order db (bk_order ret)) (bl_sku l))) (bk_lines ret)\<rparr>"

definition publish_completed ::
  "return_env \<Rightarrow> sale_return \<Rightarrow> string \<Rightarrow> exchange_result option \<Rightarrow> return_db \<Rightarrow> return_db" where
  "publish_completed env ret ref x db =
     (if \<not> qe_publisher env \<or> \<not> qe_ok env Publish_Return then db
      else (let p = completed_payload_of env ret ref db
            in db\<lparr>rb_events := rb_events db @ [if bk_type ret = ''exchange''
                    then Exchange_Completed p (map_option (\<lambda>x. (xr_order x, xr_credit x, xr_payable x)) x)
                    else Return_Completed p]\<rparr>))"

definition completion_channel :: "sale_return \<Rightarrow> completion \<Rightarrow> bool \<Rightarrow> string" where
  "completion_channel ret c on_account =
     (let chosen = (case refund_channel_ptr (zc_channel c) of
            Some s \<Rightarrow> s | None \<Rightarrow> (case bk_channel ret of Some s \<Rightarrow> s | None \<Rightarrow> []))
      in if chosen = [] then default_refund_channel (bk_type ret) on_account else chosen)"

definition restock_decided :: "return_env \<Rightarrow> sale_return \<Rightarrow> completion \<Rightarrow> bool" where
  "restock_decided env ret c =
     (case zc_restock c of Some b \<Rightarrow> b | None \<Rightarrow> restock_by_policy (qe_settings env (bk_outlet ret)) (bk_code ret))"

text \<open>After the exchange: settle, mark completed, publish. Calls and orders stay when the write fails.\<close>

definition finish_return ::
  "return_env \<Rightarrow> uuid \<Rightarrow> sale_return \<Rightarrow> completion \<Rightarrow> bool \<Rightarrow> string \<Rightarrow> exchange_result option \<Rightarrow> return_db
     \<Rightarrow> (return_error + sale_return \<times> exchange_result option) \<times> return_db" where
  "finish_return env tid ret c on_account channel x db =
     (let restock = restock_decided env ret c;
          credit = (case x of Some y \<Rightarrow> xr_credit y | None \<Rightarrow> 0);
          s = settle_return env tid ret on_account restock channel credit db;
          done = ret\<lparr>bk_status := bs_completed, bk_channel := Some channel,
            bk_exchange := (case x of Some y \<Rightarrow> Some (xr_order y) | None \<Rightarrow> bk_exchange ret),
            bk_refund_ref := (case fst (snd (fst s)) of Some ref \<Rightarrow> Some ref | None \<Rightarrow> bk_refund_ref ret),
            bk_meta := completion_meta env ret c restock (fst (fst s)) (fl (bk_amount ret - credit)) (snd (snd (fst s)))\<rparr>
      in if \<not> qe_ok env Save_Return \<or> \<not> qe_ok env Commit_Return then (Inl Return_Fault, snd s)
         else (Inr (done, x),
               publish_completed env done (case fst (snd (fst s)) of Some ref \<Rightarrow> ref | None \<Rightarrow> []) x
                 (put_return (bk_id ret) (\<lambda>_. done) (snd s))))"

definition complete_return ::
  "return_env \<Rightarrow> uuid \<Rightarrow> uuid \<Rightarrow> completion \<Rightarrow> return_db
     \<Rightarrow> (return_error + sale_return \<times> exchange_result option) \<times> return_db" where
  "complete_return env tid rid c db =
     (if \<not> qe_ok env Begin_Return \<or> \<not> qe_ok env Load_Return then (Inl Return_Fault, db)
      else case find_return db rid of
        None \<Rightarrow> (Inl Return_Not_Found, db)
      | Some ret \<Rightarrow>
          if bk_tenant ret \<noteq> tid then (Inl Return_Not_Found, db)
          else if bk_status ret \<noteq> bs_approved then (Inl Not_Approved, db)
          else if \<not> qe_ok env Load_Return_Lines then (Inl Return_Fault, db)
          else
            (let on_account = on_account_sale env db tid (bk_order ret);
                 channel = completion_channel ret c on_account
             in case validate_refund_channel (bk_code ret) (bk_type ret) channel on_account
                       (refund_restricted env db tid (bk_order ret)) of
                  Some e \<Rightarrow> (Inl e, db)
                | None \<Rightarrow>
                    (let x = fulfil_exchange env tid ret c db
                     in case fst x of
                          Inl e \<Rightarrow> (Inl e, snd x)
                        | Inr y \<Rightarrow> finish_return env tid ret c on_account channel y (snd x))))"

text \<open>\<open>CreateAndAutoComplete\<close>, up to the clawback of loyalty points and commission.\<close>

definition create_and_auto_complete ::
  "return_env \<Rightarrow> uuid \<Rightarrow> return_request \<Rightarrow> return_db \<Rightarrow> (return_error + sale_return) \<times> return_db" where
  "create_and_auto_complete env tid rq db =
     (let a = create_return env tid (rq\<lparr>zr_type := ''refund'', zr_channel := [], zr_date := None, zr_bypass := True\<rparr>) db
      in case fst a of
           Inl e \<Rightarrow> (Inl e, snd a)
         | Inr ret \<Rightarrow>
             (let b = approve_return env tid (bk_id ret) \<lparr>zd_action = ''approve'', zd_notes = [], zd_channel = [], zd_by = zr_by rq\<rparr> (snd a)
              in case fst b of
                   Inl e \<Rightarrow> (Inl e, snd b)
                 | Inr _ \<Rightarrow>
                     (let k = complete_return env tid (bk_id ret) \<lparr>zc_notes = [], zc_channel = [], zc_exchange = [], zc_by = zr_by rq,
                            zc_restock = None\<rparr> (snd b)
                      in (case fst k of Inl e \<Rightarrow> Inl e | Inr r \<Rightarrow> Inr (fst r), snd k))))"

end
