(* ===== verification/Shifts.thy ===== *)
theory Shifts
  imports Returns "HOL-Library.Product_Lexorder"
begin

text \<open>
  Shifts and cash drawers (\<open>internal/modules/shifts\<close>, \<open>handlers/devices.go\<close>, \<open>handlers/drawers.go\<close>,
  \<open>handlers/drawers_movement.go\<close>): which orders, payments and returns a shift counts, the cash it
  should hold, how it is opened and closed by hand or by the worker, and the drawer with its movements.
  A sum the database computes is taken in table order. The instant of a request, the text of an id and
  the statements that succeed are arguments; audit entries and published events are left out.
\<close>

section \<open>Rows\<close>

record shift_session =
  ss_id :: uuid
  ss_tenant :: uuid
  ss_device :: uuid
  ss_user :: uuid
  ss_status :: string
  ss_opened :: time
  ss_closed :: "time option"
  ss_float :: f64
  ss_closing :: "f64 option"
  ss_variance :: "f64 option"
  ss_notes :: string
  ss_meta :: meta

record till_device =
  dv_id :: uuid
  dv_tenant :: uuid
  dv_outlet :: uuid
  dv_type :: string

record held_row =
  hd_id :: uuid
  hd_tenant :: uuid
  hd_status :: string
  hd_by :: uuid
  hd_session :: "uuid option"

record refund_row =
  rf_order :: uuid
  rf_status :: string
  rf_amount :: f64

record cash_drawer =
  dw_id :: uuid
  dw_tenant :: uuid
  dw_outlet :: uuid
  dw_device :: uuid
  dw_status :: string
  dw_starting :: f64
  dw_ending :: "f64 option"
  dw_opened :: time
  dw_closed :: "time option"

record drawer_event =
  mv_drawer :: uuid
  mv_type :: string
  mv_amount :: f64
  mv_reason :: string

record shift_db =
  sd_sessions :: "shift_session list"
  sd_devices :: "till_device list"
  sd_orders :: "pos_order list"
  sd_payments :: "pos_payment list"
  sd_refunds :: "refund_row list"
  sd_returns :: "(time \<times> sale_return) list"    \<comment> \<open>with \<open>updated_at\<close>\<close>
  sd_held :: "held_row list"
  sd_drawers :: "cash_drawer list"
  sd_movements :: "drawer_event list"

datatype shift_stmt =
    Sum_Orders uuid | Shift_Orders uuid | Shift_Refunds uuid | Shift_Payments uuid | Cash_Returns uuid | Replacements uuid
  | Close_Update uuid | Reread_Session uuid | Load_Settings | Outlet_Devices uuid | Open_Sessions uuid | Find_Own | Find_On_Device
  | Find_Held | Find_Device | Find_Terminal | Count_Devices | Insert_Device | Insert_Session | Span_Orders | Insert_Drawer
  | Find_Session | Find_Drawer | Load_Movements | Update_Drawer | Insert_Movement

record shift_env =
  sx_ok :: "shift_stmt \<Rightarrow> bool"
  sx_now :: time
  sx_show :: "uuid \<Rightarrow> string"
  sx_client :: "json option"
  sx_session_id :: uuid
  sx_device_id :: uuid
  sx_drawer_id :: uuid
  sx_device_limit :: "nat \<Rightarrow> bool"
  sx_settings :: "(uuid \<times> bool \<times> int) list"    \<comment> \<open>outlet, auto-end enabled, hours\<close>
  sx_claimed :: bool

section \<open>Payment methods\<close>

definition normalize_method :: "string \<Rightarrow> string" where
  "normalize_method s =
     (let m = to_lower (trim_space s) in if m = ''manual'' then ''mpesa_manual'' else if m = [] then ''unknown'' else m)"

definition method_group :: "string \<Rightarrow> string" where
  "method_group s =
     (let m = normalize_method s
      in if m = ''cash'' then ''cash''
         else if m \<in> set [''card'', ''card_manual'', ''pdq'', ''card_terminal''] then ''card''
         else if m \<in> set [''mpesa'', ''mpesa_manual'', ''payhero'', ''mtn_momo'', ''airtel_money'', ''mobile_money''] then ''mobile_money''
         else ''other'')"

section \<open>What a shift counts\<close>

definition shift_window :: "time \<Rightarrow> shift_session \<Rightarrow> time \<times> time" where
  "shift_window now s = (ss_opened s, case ss_closed s of Some t \<Rightarrow> t | None \<Rightarrow> now)"

definition orders_in_shift :: "uuid \<Rightarrow> uuid \<Rightarrow> time \<times> time \<Rightarrow> pos_order \<Rightarrow> bool" where
  "orders_in_shift tid uid w po \<longleftrightarrow>
     po_tenant po = tid \<and> po_user po = uid \<and>
     (case po_offline_created_at po of
        Some t \<Rightarrow> fst w \<le> t \<and> t \<le> snd w
      | None \<Rightarrow> fst w \<le> po_created_at po \<and> po_created_at po \<le> snd w)"

definition collected_in_shift :: "(uuid \<Rightarrow> string) \<Rightarrow> pos_order list \<Rightarrow> uuid \<Rightarrow> uuid \<Rightarrow> time \<times> time \<Rightarrow> pos_payment \<Rightarrow> bool" where
  "collected_in_shift shw orders tid uid w p \<longleftrightarrow>
     pp_status p = ps_completed \<and> fst w \<le> pp_occurred p \<and> pp_occurred p \<le> snd w \<and>
     list_ex (\<lambda>po. po_id po = pp_order p \<and> po_tenant po = tid) orders \<and>
     (case meta_get (pp_data p) ''collected_by'' of
        Some (JStr c) \<Rightarrow> c = shw uid
      | Some JNull \<Rightarrow> list_ex (\<lambda>po. po_id po = pp_order p \<and> po_user po = uid) orders
      | None \<Rightarrow> list_ex (\<lambda>po. po_id po = pp_order p \<and> po_user po = uid) orders
      | _ \<Rightarrow> False)"

text \<open>The cash handed back for the returns the user completed; exchanges of old are read off their replacement.\<close>

definition cash_return_counts :: "(uuid \<Rightarrow> string) \<Rightarrow> uuid \<Rightarrow> time \<times> time \<Rightarrow> time \<times> sale_return \<Rightarrow> bool" where
  "cash_return_counts shw uid w tr \<longleftrightarrow>
     (let r = snd tr; by_user = as_str (meta_get (bk_meta r) ''completed_by'');
          s = as_str (meta_get (bk_meta r) ''completed_at'');
          t = (if s \<noteq> [] then (case parse_rfc3339 s of Some t \<Rightarrow> t | None \<Rightarrow> fst tr) else fst tr)
      in (if by_user = [] then bk_requested_by r \<noteq> uuid_nil \<and> bk_requested_by r = uid else by_user = shw uid) \<and>
         \<not> t < fst w \<and> \<not> snd w < t)"

definition cash_return_rows :: "(uuid \<Rightarrow> string) \<Rightarrow> uuid \<Rightarrow> uuid \<Rightarrow> time \<times> time \<Rightarrow> (time \<times> sale_return) list \<Rightarrow> sale_return list" where
  "cash_return_rows shw tid uid w rets =
     map snd (filter (cash_return_counts shw uid w) (filter (\<lambda>(t, r). bk_tenant r = tid \<and> bk_status r = bs_completed \<and>
       bk_channel r = Some ''cash'' \<and> fst w \<le> t) rets))"

definition cash_paid_out :: "sale_return \<Rightarrow> f64 option" where
  "cash_paid_out r = (case meta_get (bk_meta r) ''cash_paid_out'' of Some (JNum v) \<Rightarrow> Some v | _ \<Rightarrow> None)"

definition direct_cash :: "sale_return \<Rightarrow> f64 list" where
  "direct_cash r =
     (case cash_paid_out r of Some v \<Rightarrow> [v] | None \<Rightarrow> if bk_type r \<noteq> ''exchange'' then [bk_amount r] else [])"

definition legacy_exchanges :: "sale_return list \<Rightarrow> (uuid \<times> f64) list" where
  "legacy_exchanges rets =
     concat (map (\<lambda>r. if cash_paid_out r = None \<and> bk_type r = ''exchange''
       then (case bk_exchange r of Some i \<Rightarrow> [(i, bk_amount r)] | None \<Rightarrow> []) else []) rets)"

definition leftover_cash :: "(uuid \<times> f64) list \<Rightarrow> pos_order \<Rightarrow> f64 list" where
  "leftover_cash legacy po =
     (let credit = (case meta_get (po_metadata po) ''exchange_credit'' of Some (JNum v) \<Rightarrow> v | _ \<Rightarrow> 0);
          leftover = fl (sum_fl 0 (map snd (filter (\<lambda>x. fst x = po_id po) legacy)) - credit)
      in if leftover > min_settle then [leftover] else [])"

definition cash_returns_completed :: "shift_env \<Rightarrow> shift_db \<Rightarrow> shift_session \<Rightarrow> time \<times> time \<Rightarrow> f64 option" where
  "cash_returns_completed env db s w =
     (if \<not> sx_ok env (Cash_Returns (ss_id s)) then None
      else
        (let rets = cash_return_rows (sx_show env) (ss_tenant s) (ss_user s) w (sd_returns db);
             direct = sum_fl 0 (concat (map direct_cash rets)); legacy = legacy_exchanges rets
         in if legacy = [] then Some direct
            else if \<not> sx_ok env (Replacements (ss_id s)) then None
            else Some (sum_fl direct (concat (map (leftover_cash legacy)
                   (filter (\<lambda>po. po_tenant po = ss_tenant s \<and> po_id po \<in> set (map fst legacy)) (sd_orders db)))))))"

section \<open>The summary of a shift\<close>

record method_total =
  mt_method :: string
  mt_group :: string
  mt_amount :: f64
  mt_count :: nat

record shift_summary =
  sm_orders :: nat
  sm_revenue :: f64
  sm_tax :: f64
  sm_discount :: f64
  sm_voids :: nat
  sm_refunds :: f64
  sm_refund_count :: nat
  sm_cash_refunds :: f64
  sm_methods :: "method_total list"
  sm_cash :: f64
  sm_card :: f64
  sm_mobile :: f64
  sm_payments :: f64
  sm_opening :: f64
  sm_expected :: f64
  sm_currency :: string

fun take_payment :: "pos_payment \<Rightarrow> method_total list \<Rightarrow> method_total list" where
  "take_payment p [] =
     (let m = normalize_method (payment_method p) in [\<lparr>mt_method = m, mt_group = method_group m, mt_amount = fl (0 + pp_amount p), mt_count = 1\<rparr>])"
| "take_payment p (b # bs) =
     (if mt_method b = normalize_method (payment_method p)
      then b\<lparr>mt_amount := fl (mt_amount b + pp_amount p), mt_count := Suc (mt_count b)\<rparr> # bs else b # take_payment p bs)"

text \<open>Sorted by amount, largest first, then by method; the order of the map is not seen.\<close>

definition method_totals :: "pos_payment list \<Rightarrow> method_total list" where
  "method_totals pays = sort_key (\<lambda>b. (- mt_amount b, mt_method b)) (fold take_payment pays [])"

definition group_total :: "string \<Rightarrow> pos_payment list \<Rightarrow> f64" where
  "group_total g pays = sum_fl 0 (map pp_amount (filter (\<lambda>p. method_group (normalize_method (payment_method p)) = g) pays))"

definition shift_orders :: "shift_env \<Rightarrow> shift_db \<Rightarrow> shift_session \<Rightarrow> pos_order list" where
  "shift_orders env db s = filter (orders_in_shift (ss_tenant s) (ss_user s) (shift_window (sx_now env) s)) (sd_orders db)"

definition shift_payments :: "shift_env \<Rightarrow> shift_db \<Rightarrow> shift_session \<Rightarrow> pos_payment list" where
  "shift_payments env db s =
     filter (collected_in_shift (sx_show env) (sd_orders db) (ss_tenant s) (ss_user s) (shift_window (sx_now env) s)) (sd_payments db)"

definition summarize :: "shift_env \<Rightarrow> shift_db \<Rightarrow> shift_session \<Rightarrow> shift_summary option" where
  "summarize env db s =
     (let orders = shift_orders env db s;
          sold = filter (\<lambda>po. po_status po = st_completed) orders;
          refunds = filter (\<lambda>r. rf_order r \<in> set (map po_id orders) \<and> rf_status r = ''completed'') (sd_refunds db);
          pays = shift_payments env db s
      in if \<not> sx_ok env (Sum_Orders (ss_id s)) \<or> \<not> sx_ok env (Shift_Orders (ss_id s)) \<or>
            orders \<noteq> [] \<and> \<not> sx_ok env (Shift_Refunds (ss_id s)) \<or> \<not> sx_ok env (Shift_Payments (ss_id s)) then None
         else case cash_returns_completed env db s (shift_window (sx_now env) s) of
           None \<Rightarrow> None
         | Some back \<Rightarrow> Some
             \<lparr>sm_orders = length sold, sm_revenue = sum_fl 0 (map po_total_amount sold), sm_tax = sum_fl 0 (map po_tax_total sold),
              sm_discount = sum_fl 0 (map po_discount_total sold), sm_voids = length (filter (\<lambda>po. po_status po = st_voided) orders),
              sm_refunds = sum_fl 0 (map rf_amount refunds), sm_refund_count = length refunds, sm_cash_refunds = back,
              sm_methods = method_totals pays, sm_cash = group_total ''cash'' pays, sm_card = group_total ''card'' pays,
              sm_mobile = group_total ''mobile_money'' pays, sm_payments = sum_fl 0 (map pp_amount pays), sm_opening = ss_float s,
              sm_expected = fl (fl (ss_float s + group_total ''cash'' pays) - back),
              sm_currency = (case find (\<lambda>po. po_currency po \<noteq> []) orders of Some po \<Rightarrow> po_currency po | None \<Rightarrow> [])\<rparr>)"

text \<open>\<open>OrderTotalsForSessions\<close>: one query over the span of the shifts, then a bucket per shift.\<close>

fun span_of :: "time \<Rightarrow> shift_session list \<Rightarrow> time \<times> time \<Rightarrow> time \<times> time" where
  "span_of now [] w = w"
| "span_of now (s # ss) w =
     (let v = shift_window now s
      in span_of now ss (if fst v < fst w then fst v else fst w, if snd w < snd v then snd v else snd w))"

definition rung_up :: "pos_order \<Rightarrow> time" where
  "rung_up po = (case po_offline_created_at po of Some t \<Rightarrow> t | None \<Rightarrow> po_created_at po)"

definition totals_in_window :: "time \<times> time \<Rightarrow> pos_order list \<Rightarrow> nat \<times> f64" where
  "totals_in_window w orders =
     (let inside = filter (\<lambda>po. \<not> rung_up po < fst w \<and> \<not> snd w < rung_up po) orders
      in (length inside, sum_fl 0 (map po_total_amount inside)))"

definition order_totals_for_sessions ::
  "shift_env \<Rightarrow> shift_db \<Rightarrow> uuid \<Rightarrow> uuid \<Rightarrow> shift_session list \<Rightarrow> (uuid \<rightharpoonup> nat \<times> f64)" where
  "order_totals_for_sessions env db tid uid ss =
     (case ss of
        [] \<Rightarrow> Map.empty
      | s0 # rest \<Rightarrow>
          if \<not> sx_ok env Span_Orders then Map.empty
          else
            (let span = span_of (sx_now env) rest (shift_window (sx_now env) s0);
                 orders = filter (\<lambda>po. orders_in_shift tid uid span po \<and> po_status po = st_completed) (sd_orders db)
             in fold (\<lambda>s m. if ss_user s \<noteq> uid then m else m(ss_id s \<mapsto> totals_in_window (shift_window (sx_now env) s) orders)) ss Map.empty))"

section \<open>Closing a shift\<close>

record close_options =
  cl_float :: "f64 option"
  cl_notes :: string
  cl_meta :: meta

datatype shift_error =
    Already_Closed
  | Shift_Fault
  | No_Open_Session
  | Items_Set_Aside "uuid list"
  | Device_Limit_Reached
  | Outlet_Unknown
  | Drawer_Not_Found
  | Bad_Movement_Type
  | Reason_Required
  | Amount_Required

definition compute_expected_cash :: "shift_env \<Rightarrow> shift_db \<Rightarrow> shift_session \<Rightarrow> f64" where
  "compute_expected_cash env db s = (case summarize env db s of Some sm \<Rightarrow> sm_expected sm | None \<Rightarrow> ss_float s)"

text \<open>The session as the caller read it gives the metadata; the figures are frozen into it.\<close>

definition closing_meta :: "shift_env \<Rightarrow> shift_db \<Rightarrow> shift_session \<Rightarrow> close_options \<Rightarrow> meta" where
  "closing_meta env db s opts =
     (let m = fold (\<lambda>(k, v) m. meta_set k v m) (cl_meta opts) (ss_meta s);
          m = meta_set ''expected_cash'' (JNum (compute_expected_cash env db s)) m;
          m = (case summarize env db s of
                 Some sm \<Rightarrow> meta_set ''cash_refunds'' (JNum (sm_cash_refunds sm)) (meta_set ''cash_taken'' (JNum (sm_cash sm)) m)
               | None \<Rightarrow> m)
      in case sx_client env of Some j \<Rightarrow> meta_set ''closed_from'' j m | None \<Rightarrow> m)"

definition closed_session :: "shift_env \<Rightarrow> shift_db \<Rightarrow> shift_session \<Rightarrow> close_options \<Rightarrow> shift_session \<Rightarrow> shift_session" where
  "closed_session env db s opts r =
     (let r = r\<lparr>ss_status := ''closed'', ss_closed := Some (sx_now env), ss_meta := closing_meta env db s opts\<rparr>;
          r = (case cl_float opts of
                 Some c \<Rightarrow> r\<lparr>ss_closing := Some c, ss_variance := Some (fl (c - compute_expected_cash env db s))\<rparr> | None \<Rightarrow> r)
      in if cl_notes opts \<noteq> [] then r\<lparr>ss_notes := cl_notes opts\<rparr> else r)"

text \<open>One conditional update: only a row that is still open is closed.\<close>

definition close_session ::
  "shift_env \<Rightarrow> shift_session \<Rightarrow> close_options \<Rightarrow> shift_db \<Rightarrow> (shift_error + shift_session \<times> f64) \<times> shift_db" where
  "close_session env s opts db =
     (let hit = (\<lambda>r. ss_id r = ss_id s \<and> ss_status r = ''open'');
          db' = db\<lparr>sd_sessions := map (\<lambda>r. if hit r then closed_session env db s opts r else r) (sd_sessions db)\<rparr>
      in if \<not> sx_ok env (Close_Update (ss_id s)) then (Inl Shift_Fault, db)
         else if \<not> list_ex hit (sd_sessions db) then (Inl Already_Closed, db)
         else if \<not> sx_ok env (Reread_Session (ss_id s)) then (Inl Shift_Fault, db')
         else case find (\<lambda>r. ss_id r = ss_id s) (sd_sessions db') of
           Some r \<Rightarrow> (Inr (r, compute_expected_cash env db s), db')
         | None \<Rightarrow> (Inl Shift_Fault, db'))"

definition latest :: "(shift_session \<Rightarrow> bool) \<Rightarrow> shift_session list \<Rightarrow> shift_session option" where
  "latest P ss = (case sort_key (\<lambda>s. - ss_opened s) (filter P ss) of s # _ \<Rightarrow> Some s | [] \<Rightarrow> None)"

definition web_terminal :: "shift_env \<Rightarrow> shift_db \<Rightarrow> uuid \<Rightarrow> uuid \<Rightarrow> uuid option" where
  "web_terminal env db tid outlet =
     (if outlet = uuid_nil \<or> \<not> sx_ok env Find_Terminal then None
      else map_option dv_id (find (\<lambda>d. dv_tenant d = tid \<and> dv_outlet d = outlet \<and> dv_type d = ''web_terminal'') (sd_devices db)))"

text \<open>The session a close request means: the caller's own, else the one open on the terminal.\<close>

definition session_to_close :: "shift_env \<Rightarrow> shift_db \<Rightarrow> uuid \<Rightarrow> uuid \<Rightarrow> uuid \<Rightarrow> shift_session option" where
  "session_to_close env db tid uid outlet =
     (if \<not> sx_ok env Find_Own then None
      else case latest (\<lambda>s. ss_tenant s = tid \<and> ss_user s = uid \<and> ss_status s = ''open'') (sd_sessions db) of
        Some s \<Rightarrow> Some s
      | None \<Rightarrow>
          (case web_terminal env db tid outlet of
             None \<Rightarrow> None
           | Some d \<Rightarrow> if sx_ok env Find_On_Device
               then latest (\<lambda>s. ss_tenant s = tid \<and> ss_device s = d \<and> ss_status s = ''open'') (sd_sessions db) else None))"

definition items_set_aside :: "shift_env \<Rightarrow> shift_db \<Rightarrow> uuid \<Rightarrow> shift_session \<Rightarrow> uuid list" where
  "items_set_aside env db tid s =
     (if \<not> sx_ok env Find_Held then []
      else map hd_id (filter (\<lambda>h. hd_tenant h = tid \<and> hd_status h = ''held'' \<and> (hd_session h = Some (ss_id s) \<or> hd_by h = ss_user s)) (sd_held db)))"

definition close_request ::
  "shift_env \<Rightarrow> uuid \<Rightarrow> uuid \<Rightarrow> uuid \<Rightarrow> f64 \<Rightarrow> string \<Rightarrow> meta \<Rightarrow> shift_db \<Rightarrow> (shift_error + shift_session \<times> f64 \<times> f64) \<times> shift_db" where
  "close_request env tid uid outlet counted notes m db =
     (case session_to_close env db tid uid outlet of
        None \<Rightarrow> (Inl No_Open_Session, db)
      | Some s \<Rightarrow>
          if items_set_aside env db tid s \<noteq> [] then (Inl (Items_Set_Aside (items_set_aside env db tid s)), db)
          else
            (let x = close_session env s \<lparr>cl_float = Some counted, cl_notes = notes, cl_meta = m\<rparr> db
             in (case fst x of
                   Inl Already_Closed \<Rightarrow> Inl No_Open_Session
                 | Inl e \<Rightarrow> Inl e
                 | Inr (r, expected) \<Rightarrow> Inr (r, expected, fl (counted - expected)), snd x)))"

section \<open>The worker\<close>

definition max_hours :: "int \<Rightarrow> int" where
  "max_hours h = (if h \<le> 0 then 12 else h)"

definition hours :: "int \<Rightarrow> time" where
  "hours h = h * 3600000000000"

definition overdue :: "shift_env \<Rightarrow> int \<Rightarrow> uuid list \<Rightarrow> shift_session \<Rightarrow> bool" where
  "overdue env h devices s \<longleftrightarrow> ss_device s \<in> set devices \<and> ss_status s = ''open'' \<and> ss_opened s < sx_now env - hours h"

definition auto_options :: "int \<Rightarrow> close_options" where
  "auto_options h = \<lparr>cl_float = None, cl_notes = ''Auto-closed: open longer than '' @ show_int h @ ''h'',
     cl_meta = [(''auto_closed'', JBool True), (''max_hours'', JNum (of_int h))]\<rparr>"

definition end_outlet_shifts :: "shift_env \<Rightarrow> uuid \<Rightarrow> int \<Rightarrow> shift_db \<Rightarrow> shift_db" where
  "end_outlet_shifts env outlet h db =
     (let devices = map dv_id (filter (\<lambda>d. dv_outlet d = outlet) (sd_devices db))
      in if \<not> sx_ok env (Outlet_Devices outlet) \<or> devices = [] \<or> \<not> sx_ok env (Open_Sessions outlet) then db
         else fold (\<lambda>s db. snd (close_session env s (auto_options h) db)) (filter (overdue env h devices) (sd_sessions db)) db)"

definition auto_end :: "shift_env \<Rightarrow> shift_db \<Rightarrow> shift_db" where
  "auto_end env db =
     (if \<not> sx_claimed env \<or> \<not> sx_ok env Load_Settings then db
      else fold (\<lambda>(outlet, _, h). end_outlet_shifts env outlet (max_hours h)) (filter (\<lambda>(_, on, _). on) (sx_settings env)) db)"

section \<open>Opening a shift\<close>

text \<open>The device asked for, else the web terminal of the outlet, registered on first use within the plan's limit.\<close>

definition resolve_or_create_device ::
  "shift_env \<Rightarrow> uuid \<Rightarrow> uuid \<Rightarrow> uuid option \<Rightarrow> shift_db \<Rightarrow> (shift_error + uuid) \<times> shift_db" where
  "resolve_or_create_device env tid outlet asked db =
     (case (case asked of
              Some d \<Rightarrow> if sx_ok env Find_Device \<and> list_ex (\<lambda>x. dv_id x = d \<and> dv_tenant x = tid) (sd_devices db) then Some d else None
            | None \<Rightarrow> None) of
        Some d \<Rightarrow> (Inr d, db)
      | None \<Rightarrow>
          if outlet = uuid_nil then (Inl Outlet_Unknown, db)
          else if \<not> sx_ok env Find_Terminal then (Inl Shift_Fault, db)
          else case web_terminal env db tid outlet of
            Some d \<Rightarrow> (Inr d, db)
          | None \<Rightarrow>
              if sx_ok env Count_Devices \<and> \<not> sx_device_limit env (length (filter (\<lambda>x. dv_tenant x = tid) (sd_devices db)))
              then (Inl Device_Limit_Reached, db)
              else if \<not> sx_ok env Insert_Device then (Inl Shift_Fault, db)
              else (Inr (sx_device_id env), db\<lparr>sd_devices := sd_devices db @
                      [\<lparr>dv_id = sx_device_id env, dv_tenant = tid, dv_outlet = outlet, dv_type = ''web_terminal''\<rparr>]\<rparr>))"

definition new_session :: "shift_env \<Rightarrow> uuid \<Rightarrow> uuid \<Rightarrow> uuid \<Rightarrow> f64 \<Rightarrow> meta \<Rightarrow> shift_session" where
  "new_session env tid device uid opening m =
     \<lparr>ss_id = sx_session_id env, ss_tenant = tid, ss_device = device, ss_user = uid, ss_status = ''open'', ss_opened = sx_now env,
      ss_closed = None, ss_float = opening, ss_closing = None, ss_variance = None, ss_notes = [], ss_meta = m\<rparr>"

definition open_session ::
  "shift_env \<Rightarrow> uuid \<Rightarrow> uuid \<Rightarrow> uuid \<Rightarrow> uuid option \<Rightarrow> f64 \<Rightarrow> meta \<Rightarrow> shift_db \<Rightarrow> (shift_error + shift_session) \<times> shift_db" where
  "open_session env tid uid outlet asked opening m db =
     (let x = resolve_or_create_device env tid outlet asked db
      in case fst x of
           Inl e \<Rightarrow> (Inl e, snd x)
         | Inr device \<Rightarrow>
             (let s = new_session env tid device uid opening m
              in if \<not> sx_ok env Insert_Session \<or> list_ex (\<lambda>r. ss_id r = ss_id s) (sd_sessions db) then (Inl Shift_Fault, snd x)
                 else (Inr s, (snd x)\<lparr>sd_sessions := sd_sessions db @ [s]\<rparr>)))"

section \<open>Cash drawers\<close>

text \<open>Opening a drawer opens a shift on its device, unless one is open there.\<close>

definition open_drawer ::
  "shift_env \<Rightarrow> uuid \<Rightarrow> uuid \<Rightarrow> uuid \<Rightarrow> uuid \<Rightarrow> f64 \<Rightarrow> shift_db \<Rightarrow> (shift_error + cash_drawer) \<times> shift_db" where
  "open_drawer env tid uid outlet device starting db =
     (let d = \<lparr>dw_id = sx_drawer_id env, dw_tenant = tid, dw_outlet = outlet, dw_device = device, dw_status = ''open'',
            dw_starting = starting, dw_ending = None, dw_opened = sx_now env, dw_closed = None\<rparr>;
          db' = db\<lparr>sd_drawers := sd_drawers db @ [d]\<rparr>;
          shift_open = (sx_ok env Find_Session \<and>
            list_ex (\<lambda>s. ss_tenant s = tid \<and> ss_device s = device \<and> ss_status s = ''open'') (sd_sessions db))
      in if \<not> sx_ok env Insert_Drawer \<or> list_ex (\<lambda>x. dw_id x = dw_id d) (sd_drawers db) then (Inl Shift_Fault, db)
         else (Inr d,
           if device = uuid_nil \<or> shift_open \<or> \<not> sx_ok env Insert_Session \<or>
              list_ex (\<lambda>r. ss_id r = sx_session_id env) (sd_sessions db) \<or> \<not> list_ex (\<lambda>x. dv_id x = device) (sd_devices db) then db'
           else db'\<lparr>sd_sessions := sd_sessions db @ [new_session env tid device uid starting []]\<rparr>))"

definition current_drawer :: "shift_env \<Rightarrow> uuid \<Rightarrow> shift_db \<Rightarrow> shift_error + cash_drawer option" where
  "current_drawer env tid db =
     (if \<not> sx_ok env Find_Drawer then Inl Shift_Fault
      else Inr (case sort_key (\<lambda>d. - dw_opened d) (filter (\<lambda>d. dw_tenant d = tid \<and> dw_status d = ''open'') (sd_drawers db)) of
        d # _ \<Rightarrow> Some d | [] \<Rightarrow> None))"

definition movement_types :: "string list" where
  "movement_types = [''no_sale'', ''pay_in'', ''pay_out'', ''cash_drop'']"

definition find_drawer :: "shift_env \<Rightarrow> uuid \<Rightarrow> uuid \<Rightarrow> shift_db \<Rightarrow> cash_drawer option" where
  "find_drawer env tid did db =
     (if sx_ok env Find_Drawer then find (\<lambda>d. dw_id d = did \<and> dw_tenant d = tid) (sd_drawers db) else None)"

definition record_movement ::
  "shift_env \<Rightarrow> uuid \<Rightarrow> uuid \<Rightarrow> string \<Rightarrow> f64 \<Rightarrow> string \<Rightarrow> shift_db \<Rightarrow> (shift_error + drawer_event) \<times> shift_db" where
  "record_movement env tid did kind amount reason db =
     (if kind \<notin> set movement_types then (Inl Bad_Movement_Type, db)
      else if reason = [] then (Inl Reason_Required, db)
      else if kind \<noteq> ''no_sale'' \<and> amount \<le> 0 then (Inl Amount_Required, db)
      else if find_drawer env tid did db = None then (Inl Drawer_Not_Found, db)
      else if \<not> sx_ok env Insert_Movement then (Inl Shift_Fault, db)
      else (let e = \<lparr>mv_drawer = did, mv_type = kind, mv_amount = amount, mv_reason = reason\<rparr>
            in (Inr e, db\<lparr>sd_movements := sd_movements db @ [e]\<rparr>)))"

record drawer_count =
  dc_ins :: f64
  dc_outs :: f64
  dc_drops :: f64
  dc_expected :: f64
  dc_variance :: f64

definition moved_cash :: "string \<Rightarrow> uuid \<Rightarrow> drawer_event list \<Rightarrow> f64" where
  "moved_cash kind did es = sum_fl 0 (map mv_amount (filter (\<lambda>e. mv_drawer e = did \<and> mv_type e = kind) es))"

definition count_drawer :: "shift_env \<Rightarrow> cash_drawer \<Rightarrow> f64 \<Rightarrow> shift_db \<Rightarrow> drawer_count" where
  "count_drawer env d counted db =
     (let es = (if sx_ok env Load_Movements then sd_movements db else []);
          ins = moved_cash ''pay_in'' (dw_id d) es; outs = moved_cash ''pay_out'' (dw_id d) es;
          drops = moved_cash ''cash_drop'' (dw_id d) es;
          expected = fl (fl (fl (dw_starting d + ins) - outs) - drops)
      in \<lparr>dc_ins = ins, dc_outs = outs, dc_drops = drops, dc_expected = expected, dc_variance = fl (counted - expected)\<rparr>)"

definition close_drawer ::
  "shift_env \<Rightarrow> uuid \<Rightarrow> uuid \<Rightarrow> f64 \<Rightarrow> shift_db \<Rightarrow> (shift_error + drawer_count) \<times> shift_db" where
  "close_drawer env tid did counted db =
     (case find_drawer env tid did db of
        None \<Rightarrow> (Inl Drawer_Not_Found, db)
      | Some d \<Rightarrow>
          if \<not> sx_ok env Update_Drawer then (Inl Shift_Fault, db)
          else (Inr (count_drawer env d counted db),
            db\<lparr>sd_drawers := map (\<lambda>x. if dw_id x = did
              then x\<lparr>dw_ending := Some counted, dw_status := ''closed'', dw_closed := Some (sx_now env)\<rparr> else x) (sd_drawers db)\<rparr>))"

end
