(* ===== verification/Return_Restock.thy ===== *)
theory Return_Restock
  imports Returns
begin

text \<open>
  What happens to a return after its completion: inventory reports where the goods went
  (\<open>ApplyRestockOutcome\<close>), an operator asks for a restock again (\<open>ResyncRestock\<close>), a worker raises the
  credit notes that did not get through (\<open>RetryPendingCreditNotes\<close>). Each write locks the row it changes.
\<close>

section \<open>Inventory's report\<close>

record outcome_line =
  ot_sku :: string
  ot_quantity :: f64
  ot_warehouse :: string
  ot_warehouse_name :: string
  ot_outlet :: string
  ot_method :: string

record restock_outcome =
  oc_status :: string
  oc_skipped :: "string list"
  oc_error :: string
  oc_lines :: "outcome_line list"

definition restock_done :: string where "restock_done = ''restocked''"
definition restock_already_done :: string where "restock_already_done = ''already_restocked''"
definition restock_failed :: string where "restock_failed = ''failed''"
definition restock_pending :: string where "restock_pending = ''pending''"
definition restock_not_restocked :: string where "restock_not_restocked = ''not_restocked''"

lemmas restock_defs = restock_done_def restock_already_done_def restock_failed_def restock_pending_def restock_not_restocked_def

definition settled_restock_statuses :: "string list" where
  "settled_restock_statuses =
     [restock_done, restock_already_done, ''nothing_to_restock'', ''skipped_not_entitled'', restock_not_restocked]"

text \<open>Outlets are looked up by their id's text; an outlet that is unknown, or an id that is no id, has no name.\<close>

definition outcome_location :: "(string \<rightharpoonup> string) \<Rightarrow> outcome_line \<Rightarrow> string" where
  "outcome_location names l =
     (let n = (case names (ot_outlet l) of Some s \<Rightarrow> s | None \<Rightarrow> []) in if n = [] then ot_warehouse_name l else n)"

definition outcome_line_json :: "(string \<rightharpoonup> string) \<Rightarrow> outcome_line \<Rightarrow> json" where
  "outcome_line_json names l =
     JObj [(''sku'', JStr (ot_sku l)), (''quantity'', JNum (ot_quantity l)), (''method'', JStr (ot_method l)),
       (''outlet_id'', JStr (ot_outlet l)),
       (''outlet_name'', JStr (case names (ot_outlet l) of Some s \<Rightarrow> s | None \<Rightarrow> [])),
       (''warehouse_id'', JStr (ot_warehouse l)), (''warehouse_name'', JStr (ot_warehouse_name l)),
       (''location'', JStr (outcome_location names l))]"

definition outcome_status :: "meta \<Rightarrow> string \<Rightarrow> string option" where
  "outcome_status m status =
     (let current = as_str (meta_get m ''restock_status'')
      in if current = restock_not_restocked \<or> meta_get m ''restock_decision'' = Some (JStr ''write_off'') then None
         else if status = restock_failed \<and> (current = restock_done \<or> current = restock_already_done) then None
         else Some (if status = restock_already_done \<and> current = restock_done then restock_done else status))"

definition outcome_meta :: "(string \<rightharpoonup> string) \<Rightarrow> time \<Rightarrow> restock_outcome \<Rightarrow> string \<Rightarrow> meta \<Rightarrow> meta" where
  "outcome_meta names now out status m =
     (let m = meta_set ''restock_updated_at'' (JStr (format_rfc3339 now)) (meta_set ''restock_status'' (JStr status) m);
          m = (if oc_lines out \<noteq> []
               then meta_set ''restock_locations''
                      (JArr (map JStr (sort (remdups (filter (\<lambda>s. s \<noteq> []) (map (outcome_location names) (oc_lines out)))))))
                      (meta_set ''restock_lines'' (JArr (map (outcome_line_json names) (oc_lines out))) m)
               else m);
          m = (if oc_skipped out \<noteq> [] then meta_set ''restock_skipped'' (JArr (map JStr (oc_skipped out))) m
               else meta_del ''restock_skipped'' m)
      in if status = restock_failed \<and> oc_error out \<noteq> [] then meta_set ''restock_error'' (JStr (oc_error out)) m
         else meta_del ''restock_error'' m)"

definition outcome_row :: "(string \<rightharpoonup> string) \<Rightarrow> time \<Rightarrow> restock_outcome \<Rightarrow> sale_return \<Rightarrow> sale_return" where
  "outcome_row names now out r =
     (case outcome_status (bk_meta r) (oc_status out) of
        None \<Rightarrow> r | Some s \<Rightarrow> r\<lparr>bk_meta := outcome_meta names now out s (bk_meta r)\<rparr>)"

text \<open>\<open>True\<close> when the message is done with; otherwise it is delivered again.\<close>

definition apply_restock_outcome ::
  "return_env \<Rightarrow> (string \<rightharpoonup> string) \<Rightarrow> uuid \<Rightarrow> uuid \<Rightarrow> restock_outcome \<Rightarrow> return_db \<Rightarrow> bool \<times> return_db" where
  "apply_restock_outcome env names tid rid out db =
     (if \<not> qe_ok env Begin_Return \<or> \<not> qe_ok env Load_Return then (False, db)
      else case find (\<lambda>r. bk_id r = rid \<and> bk_tenant r = tid) (rb_returns db) of
        None \<Rightarrow> (True, db)
      | Some ret \<Rightarrow>
          if outcome_status (bk_meta ret) (oc_status out) = None then (True, db)
          else if \<not> qe_ok env Save_Return \<or> \<not> qe_ok env Commit_Return then (False, db)
          else (True, put_return rid (outcome_row (if qe_ok env Load_Outlets then names else Map.empty) (qe_now env) out) db))"

section \<open>Asking again\<close>

record resync_request =
  yq_ids :: "uuid list"
  yq_from :: "time option"
  yq_to :: "time option"
  yq_dry_run :: bool

record resync_item =
  yi_return :: uuid
  yi_status :: string
  yi_lines :: "string list"
  yi_requested :: bool
  yi_failed :: bool

definition outstanding_restock :: "sale_return \<Rightarrow> bool" where
  "outstanding_restock r \<longleftrightarrow>
     (case meta_get (bk_meta r) ''restock_status'' of Some (JStr s) \<Rightarrow> s \<notin> set settled_restock_statuses | _ \<Rightarrow> True)"

definition resync_picks :: "uuid \<Rightarrow> resync_request \<Rightarrow> sale_return \<Rightarrow> bool" where
  "resync_picks tid rq r \<longleftrightarrow>
     bk_tenant r = tid \<and> bk_status r = bs_completed \<and>
     (if yq_ids rq \<noteq> [] then bk_id r \<in> set (yq_ids rq) else outstanding_restock r) \<and>
     (case yq_from rq of Some t \<Rightarrow> t \<le> bk_created_at r | None \<Rightarrow> True) \<and>
     (case yq_to rq of Some t \<Rightarrow> bk_created_at r \<le> t | None \<Rightarrow> True)"

definition request_row :: "time \<Rightarrow> sale_return \<Rightarrow> sale_return" where
  "request_row now r =
     (let current = as_str (meta_get (bk_meta r) ''restock_status'');
          m = (if current \<noteq> restock_done \<and> current \<noteq> restock_already_done
               then meta_set ''restock_status'' (JStr restock_pending) (bk_meta r) else bk_meta r)
      in r\<lparr>bk_meta := meta_set ''restock_resync_requested_at'' (JStr (format_rfc3339 now)) m\<rparr>)"

text \<open>The event is published before the row is marked.\<close>

definition request_restock :: "return_env \<Rightarrow> sale_return \<Rightarrow> return_db \<Rightarrow> bool \<times> return_db" where
  "request_restock env ret db =
     (if \<not> qe_publisher env \<or> bk_lines ret = [] \<or> meta_get (bk_meta ret) ''restock_decision'' = Some (JStr ''write_off'')
         \<or> \<not> qe_ok env Publish_Return
      then (False, db)
      else
        (let db = db\<lparr>rb_events := rb_events db @ [Restock_Requested (completed_payload_of env ret [] db)]\<rparr>
         in if \<not> qe_ok env Begin_Return \<or> \<not> qe_ok env Load_Return \<or> \<not> qe_ok env Save_Return \<or> \<not> qe_ok env Commit_Return
            then (False, db)
            else (True, put_return (bk_id ret) (request_row (qe_now env)) db)))"

definition resync_item_of :: "sale_return \<Rightarrow> resync_item" where
  "resync_item_of r = \<lparr>yi_return = bk_id r, yi_status = as_str (meta_get (bk_meta r) ''restock_status''),
     yi_lines = map (\<lambda>l. bl_sku l @ '' x'' @ fmt_qty (bl_quantity l)) (bk_lines r), yi_requested = False, yi_failed = False\<rparr>"

fun resync_loop ::
  "return_env \<Rightarrow> bool \<Rightarrow> sale_return list \<Rightarrow> return_db \<Rightarrow> resync_item list \<times> return_db" where
  "resync_loop env dry [] db = ([], db)"
| "resync_loop env dry (r # rs) db =
     (let x = (if dry then (False, db) else request_restock env r db);
          i = resync_item_of r;
          i = (if dry then i else if fst x then i\<lparr>yi_requested := True, yi_status := restock_pending\<rparr> else i\<lparr>yi_failed := True\<rparr>);
          rest = resync_loop env dry rs (snd x)
      in (i # fst rest, snd rest))"

definition resync_max_batch :: nat where
  "resync_max_batch = 200"

definition resync_restock ::
  "return_env \<Rightarrow> uuid \<Rightarrow> resync_request \<Rightarrow> return_db \<Rightarrow> (resync_item list \<times> bool) option \<times> return_db" where
  "resync_restock env tid rq db =
     (if \<not> qe_ok env List_Returns then (None, db)
      else
        (let rets = take (Suc resync_max_batch) (sort_key bk_created_at (filter (resync_picks tid rq) (rb_returns db)));
             r = resync_loop env (yq_dry_run rq) (take resync_max_batch rets) db
         in (Some (fst r, length rets > resync_max_batch), snd r)))"

section \<open>Credit notes raised later\<close>

definition note_pending :: "sale_return \<Rightarrow> bool" where
  "note_pending r \<longleftrightarrow> bk_status r = bs_completed \<and> meta_get (bk_meta r) ''fiscal_credit_note'' = Some (JStr ''pending'')"

definition mark_fiscal_credit_note :: "return_env \<Rightarrow> uuid \<Rightarrow> string \<Rightarrow> return_db \<Rightarrow> return_db" where
  "mark_fiscal_credit_note env rid state db =
     (if \<not> qe_ok env Begin_Return \<or> \<not> qe_ok env Load_Return \<or> \<not> qe_ok env Save_Return \<or> \<not> qe_ok env Commit_Return then db
      else put_return rid (\<lambda>r. r\<lparr>bk_meta := meta_set ''fiscal_credit_note'' (JStr state) (bk_meta r)\<rparr>) db)"

fun retry_notes :: "return_env \<Rightarrow> treasury_env \<Rightarrow> sale_return list \<Rightarrow> return_db \<Rightarrow> nat \<times> return_db" where
  "retry_notes env tr [] db = (0, db)"
| "retry_notes env tr (r # rs) db =
     (if fiscal_refund_for env r db = [] then retry_notes env tr rs (mark_fiscal_credit_note env (bk_id r) ''not_needed'' db)
      else if tq_note_ok tr (bk_id r)
      then (let rest = retry_notes env tr rs
                  (mark_fiscal_credit_note env (bk_id r) ''done'' (db\<lparr>rb_notes := rb_notes db @ [bk_id r]\<rparr>))
            in (Suc (fst rest), snd rest))
      else retry_notes env tr rs db)"

definition retry_batch :: nat where
  "retry_batch = 50"

definition retry_pending_credit_notes :: "return_env \<Rightarrow> return_db \<Rightarrow> nat \<times> return_db" where
  "retry_pending_credit_notes env db =
     (case qe_treasury env of
        None \<Rightarrow> (0, db)
      | Some tr \<Rightarrow>
          if \<not> qe_ok env List_Returns then (0, db)
          else retry_notes env tr (take retry_batch (filter note_pending (rb_returns db))) db)"

end
