(* ===== verification/Return_Safety.thy ===== *)
theory Return_Safety
  imports Return_Restock Ar_Safety Order_Create_Safety
begin

text \<open>
  What holds of returns over any sequence of requests: the moves a return can make, one completion per
  return, quantities that fit the sale, the channel that settles, and goods that were written off.
  Each request is a step over the returns of the service; an approval, which reads the return without
  a lock, may also be split into its decision and its write.
\<close>

section \<open>Steps\<close>

datatype return_action =
    Create_Step return_env uuid return_request
  | Approve_Step return_env uuid uuid decision
  | Decided_Step return_env uuid decision sale_return return_db
  | Complete_Step return_env uuid uuid completion
  | Outcome_Step return_env "string \<rightharpoonup> string" uuid uuid restock_outcome
  | Resync_Step return_env uuid resync_request
  | Retry_Step return_env

text \<open>
  \<open>ApproveReturn\<close> reads the return, decides, and writes the decision by id without looking at the row
  again. \<open>Approve_Step\<close> does both at once; \<open>Decided_Step\<close> is the write alone, of a decision taken on the
  row \<open>ret\<close> in the database \<open>seen\<close> at any earlier moment. The other requests lock the rows they decide on.
\<close>

fun return_step :: "return_action \<Rightarrow> return_db \<Rightarrow> return_db" where
  "return_step (Create_Step env tid rq) db = snd (create_return env tid rq db)"
| "return_step (Approve_Step env tid rid d) db = snd (approve_return env tid rid d db)"
| "return_step (Decided_Step env tid d ret seen) db =
     (case decide_return env tid d ret seen of Inl e \<Rightarrow> db | Inr f \<Rightarrow> snd (approve_write env (bk_id ret) f db))"
| "return_step (Complete_Step env tid rid c) db = snd (complete_return env tid rid c db)"
| "return_step (Outcome_Step env names tid rid out) db = snd (apply_restock_outcome env names tid rid out db)"
| "return_step (Resync_Step env tid rq) db = snd (resync_restock env tid rq db)"
| "return_step (Retry_Step env) db = snd (retry_pending_credit_notes env db)"

definition run_returns :: "return_action list \<Rightarrow> return_db \<Rightarrow> return_db" where
  "run_returns steps db = fold return_step steps db"

text \<open>
  \<open>timely\<close>: a decision is written while its return is still pending, that is, before any other decision
  on it is. The code does not check this again before it writes.
\<close>

definition timely :: "return_action \<Rightarrow> return_db \<Rightarrow> bool" where
  "timely s db \<longleftrightarrow> (case s of
     Decided_Step env tid d ret seen \<Rightarrow> (\<forall>r \<in> set (rb_returns db). bk_id r = bk_id ret \<longrightarrow> bk_status r = bs_pending)
   | _ \<Rightarrow> True)"

fun decisions_timely :: "return_action list \<Rightarrow> return_db \<Rightarrow> bool" where
  "decisions_timely [] db = True"
| "decisions_timely (s # steps) db = (timely s db \<and> decisions_timely steps (return_step s db))"

definition keyed :: "return_db \<Rightarrow> bool" where
  "keyed db \<longleftrightarrow> distinct (map bk_id (rb_returns db))"

definition written_off :: "sale_return \<Rightarrow> bool" where
  "written_off r \<longleftrightarrow> bk_status r = bs_completed \<and> meta_get (bk_meta r) ''restock_decision'' = Some (JStr ''write_off'') \<and>
     meta_get (bk_meta r) ''restock_status'' = Some (JStr restock_not_restocked)"

definition return_moves :: "(string \<times> string) set" where
  "return_moves = {(bs_pending, bs_approved), (bs_pending, bs_rejected), (bs_approved, bs_completed)}"

text \<open>What a request may do to a row: its sale, lines and value stay, its status moves at most once.\<close>

definition same_goods :: "sale_return \<Rightarrow> sale_return \<Rightarrow> bool" where
  "same_goods r r' \<longleftrightarrow> bk_id r' = bk_id r \<and> bk_tenant r' = bk_tenant r \<and> bk_order r' = bk_order r \<and> bk_lines r' = bk_lines r \<and>
     bk_number r' = bk_number r \<and> bk_type r' = bk_type r \<and> bk_code r' = bk_code r \<and> bk_amount r' = bk_amount r"

definition row_move :: "sale_return \<Rightarrow> sale_return \<Rightarrow> bool" where
  "row_move r r' \<longleftrightarrow> same_goods r r' \<and> (bk_status r, bk_status r') \<in> return_moves\<^sup>= \<and> (written_off r \<longrightarrow> written_off r')"

lemma row_move_refl [simp]: "row_move r r"
  by (simp add: row_move_def same_goods_def)

lemma same_goods_id: "row_move r r' \<Longrightarrow> bk_id r' = bk_id r"
  by (simp add: row_move_def same_goods_def)

section \<open>What each request does to the rows\<close>

lemma find_return_SomeD: "find_return db rid = Some r \<Longrightarrow> r \<in> set (rb_returns db) \<and> bk_id r = rid"
  by (auto simp: find_return_def find_Some_iff)

lemma keyed_eq: "keyed db \<Longrightarrow> r \<in> set (rb_returns db) \<Longrightarrow> q \<in> set (rb_returns db) \<Longrightarrow> bk_id r = bk_id q \<Longrightarrow> r = q"
  by (auto simp: keyed_def distinct_map dest: inj_onD)

lemma keyed_find: "keyed db \<Longrightarrow> r \<in> set (rb_returns db) \<Longrightarrow> find_return db (bk_id r) = Some r"
  by (cases "find_return db (bk_id r)") (auto simp: find_return_def find_None_iff find_Some_iff keyed_eq)

lemma list_all2_rows:
  "(\<And>r. r \<in> set rs \<Longrightarrow> row_move r (f r)) \<Longrightarrow> list_all2 row_move rs (map f rs)"
  by (induction rs) simp_all

lemma put_rows:
  assumes "\<And>r. r \<in> set (rb_returns db) \<Longrightarrow> bk_id r = rid \<Longrightarrow> row_move r (f r)"
  shows "list_all2 row_move (rb_returns db) (rb_returns (put_return rid f db))"
  unfolding put_return_def by (simp, rule list_all2_rows) (simp add: assms)

text \<open>The rows of \<open>db'\<close> are moved rows of \<open>db\<close>.\<close>

definition rows_moved :: "return_db \<Rightarrow> return_db \<Rightarrow> bool" where
  "rows_moved db db' \<longleftrightarrow> list_all2 row_move (rb_returns db) (rb_returns db')"

lemma rows_moved_refl [simp]: "rb_returns db' = rb_returns db \<Longrightarrow> rows_moved db db'"
  by (simp add: rows_moved_def list_all2_refl)

lemma approve_rows:
  assumes "keyed db" shows "rows_moved db (snd (approve_return env tid rid d db))"
proof -
  have "rows_moved db (snd (approve_write env rid f db))"
    if "find_return db rid = Some ret" "decide_return env tid d ret db = Inr f" for ret f
  proof -
    have m: "row_move ret (f ret)"
      using that(2) by (auto simp: decide_return_def Let_def row_move_def same_goods_def return_moves_def written_off_def
          split: if_splits option.splits)
    have "row_move r (f r)" if r: "r \<in> set (rb_returns db)" "bk_id r = rid" for r
      using m keyed_eq [OF assms] find_return_SomeD [OF \<open>find_return db rid = Some ret\<close>] r by metis
    then show ?thesis using put_rows [of db rid f] by (simp add: approve_write_def rows_moved_def list_all2_refl)
  qed
  then show ?thesis
    by (auto simp: approve_return_def split: option.splits sum.splits)
qed

lemma decided_rows:
  assumes "timely (Decided_Step env tid d ret seen) db"
  shows "rows_moved db (return_step (Decided_Step env tid d ret seen) db)"
proof (cases "decide_return env tid d ret seen")
  case (Inr f)
  have "row_move r (f r)" if "r \<in> set (rb_returns db)" "bk_id r = bk_id ret" for r
    using Inr that assms
    by (auto simp: timely_def decide_return_def Let_def row_move_def same_goods_def return_moves_def written_off_def
        split: if_splits option.splits)
  then show ?thesis using Inr put_rows [of db "bk_id ret" f] by (simp add: approve_write_def rows_moved_def list_all2_refl)
qed simp

lemma credit_exchange_rows [simp]:
  "rb_returns (snd (credit_exchange env tid ret po cur db)) = rb_returns db"
  "rb_events (snd (credit_exchange env tid ret po cur db)) = rb_events db"
  by (simp_all add: credit_exchange_def stamp_exchange_credit_def Let_def)

lemma fulfil_exchange_rows [simp]:
  "rb_returns (snd (fulfil_exchange env tid ret c db)) = rb_returns db"
  "rb_events (snd (fulfil_exchange env tid ret c db)) = rb_events db"
  by (auto simp: fulfil_exchange_def Let_def split: option.splits sum.splits)

lemma settle_rows [simp]: "rb_returns (snd (settle_return env tid ret a restock ch credit db)) = rb_returns db"
  by (simp add: settle_return_def Let_def split: option.splits)

lemma settle_events [simp]: "rb_events (snd (settle_return env tid ret a restock ch credit db)) = rb_events db"
  by (simp add: settle_return_def Let_def split: option.split)

lemma publish_rows [simp]: "rb_returns (publish_completed env ret ref x db) = rb_returns db"
  by (simp add: publish_completed_def Let_def)

lemma put_return_rows: "rb_returns (put_return rid f db) = map (\<lambda>r. if bk_id r = rid then f r else r) (rb_returns db)"
  by (simp add: put_return_def)

text \<open>A completion either leaves the rows and events, or completes one approved row.\<close>

definition completed_from :: "sale_return \<Rightarrow> string \<Rightarrow> sale_return \<Rightarrow> bool" where
  "completed_from ret channel r \<longleftrightarrow> bk_status ret = bs_approved \<and> bk_status r = bs_completed \<and> same_goods ret r \<and>
     bk_channel r = Some channel"

lemma finish_cases:
  assumes "finish_return env tid ret c on_account channel x db = (res, db')" "bk_status ret = bs_approved"
  shows "(\<exists>e. res = Inl e) \<and> rb_returns db' = rb_returns db \<and> rb_events db' = rb_events db \<or>
    (\<exists>r. res = Inr (r, x) \<and> completed_from ret channel r \<and>
       rb_returns db' = rb_returns (put_return (bk_id ret) (\<lambda>_. r) db))"
  using assms by (auto simp: finish_return_def Let_def completed_from_def same_goods_def put_return_rows split: if_splits)

lemma complete_cases:
  assumes "complete_return env tid rid c db = (res, db')"
  obtains (refused) e where "res = Inl e" "rb_returns db' = rb_returns db" "rb_events db' = rb_events db"
  | (completed) ret r x channel where "res = Inr (r, x)" "find_return db rid = Some ret" "bk_tenant ret = tid"
      "completed_from ret channel r" "channel = completion_channel ret c (on_account_sale env db tid (bk_order ret))"
      "validate_refund_channel (bk_code ret) (bk_type ret) channel (on_account_sale env db tid (bk_order ret))
         (refund_restricted env db tid (bk_order ret)) = None"
      "rb_returns db' = rb_returns (put_return rid (\<lambda>_. r) db)"
proof (cases "find_return db rid")
  case None
  then show ?thesis using assms refused by (auto simp: complete_return_def split: if_splits)
next
  case (Some ret)
  let ?a = "on_account_sale env db tid (bk_order ret)"
  let ?ch = "completion_channel ret c ?a"
  let ?v = "validate_refund_channel (bk_code ret) (bk_type ret) ?ch ?a (refund_restricted env db tid (bk_order ret))"
  let ?x = "fulfil_exchange env tid ret c db"
  show ?thesis
  proof (cases "\<not> qe_ok env Begin_Return \<or> \<not> qe_ok env Load_Return \<or> bk_tenant ret \<noteq> tid \<or> bk_status ret \<noteq> bs_approved \<or>
      \<not> qe_ok env Load_Return_Lines \<or> ?v \<noteq> None \<or> (\<exists>e. fst ?x = Inl e)")
    case True
    then show ?thesis using assms refused Some by (auto simp: complete_return_def Let_def split: if_splits option.splits)
  next
    case False
    then obtain y where y: "fst ?x = Inr y" by (cases "fst ?x") auto
    have "finish_return env tid ret c ?a ?ch y (snd ?x) = (res, db')"
      using assms False y Some by (simp add: complete_return_def Let_def)
    moreover have "bk_status ret = bs_approved" "bk_id ret = rid" using False find_return_SomeD [OF Some] by simp_all
    ultimately show ?thesis
      using finish_cases [of env tid ret c ?a ?ch y "snd ?x" res db'] refused completed Some False
      by (fastforce simp: put_return_rows)
  qed
qed

lemma complete_rows:
  assumes "keyed db" shows "rows_moved db (snd (complete_return env tid rid c db))"
proof -
  obtain res db' where c: "complete_return env tid rid c db = (res, db')" by fastforce
  then show ?thesis
  proof (cases rule: complete_cases)
    case (completed ret r x channel)
    have "row_move ret r" using completed(4) by (auto simp: completed_from_def row_move_def return_moves_def written_off_def)
    then have "row_move q r" if "q \<in> set (rb_returns db)" "bk_id q = rid" for q
      using keyed_eq [OF assms] find_return_SomeD [OF completed(2)] that by metis
    then show ?thesis using put_rows [of db rid "\<lambda>_. r"] by (simp add: c completed(7) rows_moved_def)
  qed (simp add: c)
qed

text \<open>Requests after the completion only write notes on the rows.\<close>

definition row_noted :: "sale_return \<Rightarrow> sale_return \<Rightarrow> bool" where
  "row_noted r r' \<longleftrightarrow> same_goods r r' \<and> bk_status r' = bk_status r \<and> (written_off r \<longrightarrow> written_off r')"

definition rows_noted :: "return_db \<Rightarrow> return_db \<Rightarrow> bool" where
  "rows_noted db db' \<longleftrightarrow> list_all2 row_noted (rb_returns db) (rb_returns db')"

lemma row_noted_refl [simp]: "row_noted r r"
  by (simp add: row_noted_def same_goods_def)

lemma rows_noted_refl [simp]: "rb_returns db' = rb_returns db \<Longrightarrow> rows_noted db db'"
  by (simp add: rows_noted_def list_all2_refl)

lemma rows_noted_trans: "rows_noted a b \<Longrightarrow> rows_noted b c \<Longrightarrow> rows_noted a c"
  unfolding rows_noted_def by (erule (1) list_all2_trans [rotated]) (auto simp: row_noted_def same_goods_def)

lemma rows_noted_moved: "rows_noted a b \<Longrightarrow> rows_moved a b"
  unfolding rows_noted_def rows_moved_def by (erule list_all2_mono) (auto simp: row_noted_def row_move_def)

lemma noted_rows:
  assumes "\<And>r. r \<in> set (rb_returns db) \<Longrightarrow> bk_id r = rid \<Longrightarrow> row_noted r (f r)"
  shows "rows_noted db (put_return rid f db)"
  by (simp add: rows_noted_def put_return_rows list_all2_conv_all_nth assms)

lemma outcome_rows: "rows_noted db (snd (apply_restock_outcome env names tid rid out db))"
proof -
  have "row_noted r (outcome_row ns now out r)" for r ns now
    by (auto simp: outcome_row_def outcome_status_def row_noted_def same_goods_def written_off_def Let_def split: option.splits)
  then show ?thesis by (auto simp: apply_restock_outcome_def intro!: noted_rows split: option.splits)
qed

definition decision_of :: "return_db \<Rightarrow> sale_return \<Rightarrow> bool" where
  "decision_of db r \<longleftrightarrow> (\<forall>q \<in> set (rb_returns db). bk_id q = bk_id r \<longrightarrow>
     meta_get (bk_meta q) ''restock_decision'' = meta_get (bk_meta r) ''restock_decision'')"

lemma keyed_decision: "keyed db \<Longrightarrow> r \<in> set (rb_returns db) \<Longrightarrow> decision_of db r"
  using keyed_eq by (auto simp: decision_of_def)

lemma request_row_simps [simp]:
  "bk_status (request_row now q) = bk_status q" "bk_id (request_row now q) = bk_id q" "same_goods q (request_row now q)"
  "meta_get (bk_meta (request_row now q)) ''restock_decision'' = meta_get (bk_meta q) ''restock_decision''"
  by (simp_all add: request_row_def same_goods_def Let_def)

lemma request_restock_result:
  "rb_returns (snd (request_restock env r db)) = rb_returns db \<or>
     meta_get (bk_meta r) ''restock_decision'' \<noteq> Some (JStr ''write_off'') \<and>
     rb_returns (snd (request_restock env r db)) = rb_returns (put_return (bk_id r) (request_row (qe_now env)) db)"
  by (simp add: request_restock_def Let_def put_return_rows)

lemma request_restock_rows:
  assumes "decision_of db r"
  shows "rows_noted db (snd (request_restock env r db))"
    "decision_of db q \<Longrightarrow> decision_of (snd (request_restock env r db)) q"
proof -
  have "row_noted q (request_row now q)"
    if "q \<in> set (rb_returns db)" "bk_id q = bk_id r" "meta_get (bk_meta r) ''restock_decision'' \<noteq> Some (JStr ''write_off'')" for q now
    using that assms by (auto simp: row_noted_def decision_of_def written_off_def)
  then have "meta_get (bk_meta r) ''restock_decision'' \<noteq> Some (JStr ''write_off'') \<Longrightarrow>
      rows_noted db (put_return (bk_id r) (request_row (qe_now env)) db)"
    by (rule noted_rows)
  then show "rows_noted db (snd (request_restock env r db))"
    using request_restock_result [of env r db] by (auto simp: rows_noted_def list_all2_refl)
  show "decision_of db q \<Longrightarrow> decision_of (snd (request_restock env r db)) q"
    using request_restock_result [of env r db] by (auto simp: decision_of_def put_return_rows split: if_splits)
qed

lemma resync_loop_rows:
  "\<forall>r \<in> set rs. decision_of db r \<Longrightarrow> rows_noted db (snd (resync_loop env dry rs db))"
proof (induction rs arbitrary: db)
  case (Cons r rs)
  note d = request_restock_rows [where db = db and r = r and env = env]
  have "rows_noted (snd (request_restock env r db)) (snd (resync_loop env dry rs (snd (request_restock env r db))))"
    using Cons d(2) by simp
  then have "rows_noted db (snd (resync_loop env dry rs (snd (request_restock env r db))))"
    using Cons.prems d(1) by (auto intro: rows_noted_trans)
  then show ?case using Cons by (cases dry) (simp_all add: Let_def)
qed simp

definition resync_rows_of :: "uuid \<Rightarrow> resync_request \<Rightarrow> return_db \<Rightarrow> sale_return list" where
  "resync_rows_of tid rq db = take resync_max_batch
     (take (Suc resync_max_batch) (sort_key bk_created_at (filter (resync_picks tid rq) (rb_returns db))))"

lemma resync_restock_loop:
  "snd (resync_restock env tid rq db) =
     (if qe_ok env List_Returns then snd (resync_loop env (yq_dry_run rq) (resync_rows_of tid rq db) db) else db)"
  by (simp add: resync_restock_def resync_rows_of_def Let_def)

lemma resync_rows_of_in: "r \<in> set (resync_rows_of tid rq db) \<Longrightarrow> r \<in> set (rb_returns db)"
  by (auto simp: resync_rows_of_def dest!: in_set_takeD)

lemma resync_rows:
  assumes "keyed db" shows "rows_noted db (snd (resync_restock env tid rq db))"
  using resync_loop_rows [of "resync_rows_of tid rq db" db] keyed_decision [OF assms] resync_rows_of_in
  by (simp add: resync_restock_loop)

lemma mark_rows: "rows_noted db (mark_fiscal_credit_note env rid state db)"
  unfolding mark_fiscal_credit_note_def
  by (auto simp: row_noted_def same_goods_def written_off_def intro!: noted_rows)

lemma retry_notes_rows: "rows_noted db (snd (retry_notes env tr rs db))"
proof (induction rs arbitrary: db)
  case (Cons r rs)
  have n: "rows_noted db db1 \<Longrightarrow> rows_noted db (snd (retry_notes env tr rs db1))" for db1
    using Cons.IH rows_noted_trans by blast
  have "rows_noted db (mark_fiscal_credit_note env (bk_id r) s (db\<lparr>rb_notes := x\<rparr>))" for s x
    using mark_rows [of "db\<lparr>rb_notes := x\<rparr>" env "bk_id r" s] by (simp add: rows_noted_def)
  then show ?case using n mark_rows Cons.IH by (auto simp: Let_def)
qed simp

lemma retry_rows: "rows_noted db (snd (retry_pending_credit_notes env db))"
  using retry_notes_rows by (auto simp: retry_pending_credit_notes_def split: option.splits)

section \<open>Creations\<close>

lemma store_cases:
  assumes "store_return env r db = (res, db')"
  shows "(\<exists>e. res = Inl e) \<and> db' = db \<or> res = Inr r \<and> bk_id r \<notin> bk_id ` set (rb_returns db) \<and> rb_returns db' = rb_returns db @ [r]"
  using assms by (auto simp: store_return_def list_ex_iff split: if_splits)

text \<open>A creation leaves the rows or adds one pending return of the lines that the sale left to return.\<close>

lemma create_cases:
  assumes "create_return env tid rq db = (res, db')"
  obtains (refused) e where "res = Inl e" "rb_returns db' = rb_returns db" "rb_events db' = rb_events db"
  | (created) po ls r where "res = Inr r" "order_of db tid (zr_order rq) = Some po"
      "resolve_return_lines (qe_round2 env) (qe_ok env Load_Lines) (qe_ok env Load_Held) po (rb_returns db) (zr_bypass rq) (zr_lines rq) = Inr ls"
      "bk_status r = bs_pending" "bk_order r = zr_order rq" "bk_lines r = map return_line_of ls"
      "bk_amount r = sum_fl 0 (map ri_total_price ls)"
      "bk_id r \<notin> bk_id ` set (rb_returns db)" "rb_returns db' = rb_returns db @ [r]"
proof (cases "order_of db tid (zr_order rq)")
  case None
  then show ?thesis using assms refused by (auto simp: create_return_def split: if_splits)
next
  case (Some po)
  let ?res = "resolve_return_lines (qe_round2 env) (qe_ok env Load_Lines) (qe_ok env Load_Held) po (rb_returns db) (zr_bypass rq) (zr_lines rq)"
  show ?thesis
  proof (cases ?res)
    case (Inl e)
    then show ?thesis using assms refused Some by (auto simp: create_return_def split: if_splits)
  next
    case (Inr ls)
    let ?new = "\<lambda>n t a. new_return env tid rq po n t a ls"
    consider e where "res = Inl e" "db' = db"
      | n t a s where "store_return env (?new n t a) (db\<lparr>rb_store := s\<rparr>) = (res, db')"
      using assms Some Inr by (auto simp: create_return_def Let_def split: if_splits option.splits)
    then show ?thesis
    proof cases
      case (2 n t a s)
      have "bk_status (?new n t a) = bs_pending" "bk_order (?new n t a) = zr_order rq" "bk_lines (?new n t a) = map return_line_of ls"
        "bk_amount (?new n t a) = sum_fl 0 (map ri_total_price ls)"
        by (simp_all add: new_return_def)
      then show ?thesis using store_cases [OF 2] refused created [OF _ Some Inr] by fastforce
    qed (use refused in simp)
  qed
qed

section \<open>Any request, any run\<close>

lemma step_rows:
  assumes "keyed db" "timely s db"
  obtains old where "list_all2 row_move (rb_returns db) old" "rb_returns (return_step s db) = old"
  | r where "rb_returns (return_step s db) = rb_returns db @ [r]" "bk_status r = bs_pending" "bk_id r \<notin> bk_id ` set (rb_returns db)"
      "\<exists>env tid rq. s = Create_Step env tid rq"
proof (cases s)
  case (Create_Step env tid rq)
  obtain res db' where c: "create_return env tid rq db = (res, db')" by fastforce
  then show ?thesis
  proof (cases rule: create_cases)
    case (refused e)
    then show ?thesis using that(1) [OF list_all2_refl] c Create_Step by simp
  next
    case (created po ls r)
    then show ?thesis using that(2) [of r] c Create_Step by simp
  qed
next
  case (Decided_Step env tid d ret seen)
  then show ?thesis using that(1) decided_rows assms(2) unfolding rows_moved_def by blast
qed (use that(1) approve_rows complete_rows outcome_rows resync_rows retry_rows assms rows_noted_moved in
  \<open>force simp: rows_moved_def\<close>)+

lemma moved_ids: "list_all2 row_move rs rs' \<Longrightarrow> map bk_id rs' = map bk_id rs"
  by (induction rule: list_all2_induct) (simp_all add: same_goods_id)

lemma step_keyed: "keyed db \<Longrightarrow> timely s db \<Longrightarrow> keyed (return_step s db)"
  by (rule step_rows [of db s]) (auto simp: keyed_def moved_ids)

lemma run_keyed: "keyed db \<Longrightarrow> decisions_timely steps db \<Longrightarrow> keyed (run_returns steps db)"
  by (induction steps arbitrary: db) (simp_all add: run_returns_def step_keyed)

lemma step_row:
  assumes "keyed db" "timely s db" "r \<in> set (rb_returns db)"
  obtains r' where "r' \<in> set (rb_returns (return_step s db))" "row_move r r'"
  using assms(1,2)
proof (cases rule: step_rows [where s = s])
  case (1 old)
  then show ?thesis using that assms(3) by (metis in_set_conv_nth list_all2_conv_all_nth)
qed (use that [of r] assms(3) in simp)

lemma run_row:
  assumes "keyed db" "r \<in> set (rb_returns db)" "decisions_timely steps db"
  shows "\<exists>r' \<in> set (rb_returns (run_returns steps db)). same_goods r r' \<and> (bk_status r, bk_status r') \<in> return_moves\<^sup>* \<and>
    (written_off r \<longrightarrow> written_off r')"
  using assms
proof (induction steps arbitrary: db r)
  case Nil
  then show ?case by (auto simp: run_returns_def same_goods_def)
next
  case (Cons s steps)
  obtain q where q: "q \<in> set (rb_returns (return_step s db))" "row_move r q"
    using step_row [of db s r] Cons.prems by auto
  obtain r' where r': "r' \<in> set (rb_returns (run_returns steps (return_step s db)))" "same_goods q r'"
    "(bk_status q, bk_status r') \<in> return_moves\<^sup>*" "written_off q \<longrightarrow> written_off r'"
    using Cons.IH [OF step_keyed [OF Cons.prems(1)] q(1)] Cons.prems(3) by auto
  have "same_goods r r'" "written_off r \<longrightarrow> written_off r'" using q(2) r' by (auto simp: row_move_def same_goods_def)
  moreover have "(bk_status r, bk_status r') \<in> return_moves\<^sup>*"
    using q(2) r'(3) by (auto simp: row_move_def intro: converse_rtrancl_into_rtrancl)
  ultimately show ?case using r'(1) by (auto simp: run_returns_def)
qed

lemma moves_final: "(s, t) \<in> return_moves\<^sup>* \<Longrightarrow> s = bs_completed \<or> s = bs_rejected \<Longrightarrow> t = s"
  by (induction rule: converse_rtrancl_induct) (auto simp: return_moves_def)

text \<open>
  The life of a return. Whatever requests follow, in whatever order, as long as every decision is
  written while its return is pending: a return keeps its sale, its lines and its value, goes from
  pending to approved or rejected and from approved to completed only, and one that is rejected or
  completed stays so.
\<close>

theorem returns_follow_lifecycle:
  assumes "keyed db" "r \<in> set (rb_returns db)" "decisions_timely steps db"
  shows "\<exists>r' \<in> set (rb_returns (run_returns steps db)). same_goods r r' \<and> (bk_status r, bk_status r') \<in> return_moves\<^sup>* \<and>
    (bk_status r \<in> {bs_rejected, bs_completed} \<longrightarrow> bk_status r' = bk_status r)"
  using run_row [OF assms] moves_final by blast

text \<open>
  C14. A return is completed once. After a completion, whatever requests follow, as long as no approval
  decision is written on a return that is not pending any more, another completion of the return is
  refused before it moves money, creates an exchange order or publishes anything. (A decision read
  before the completion and written after it does open the return again: \<open>stale_approval_reopens\<close>.)
\<close>

theorem return_completed_once:
  assumes "keyed db" "complete_return env tid rid c db = (Inr z, db')" "decisions_timely steps db'"
  shows "\<exists>e. complete_return env' tid' rid c' (run_returns steps db') = (Inl e, run_returns steps db')"
  using assms(2)
proof (cases rule: complete_cases)
  case (completed ret r x channel)
  have id: "bk_id r = rid" "bk_status r = bs_completed" "ret \<in> set (rb_returns db)" "bk_id ret = rid"
    using completed(4) find_return_SomeD [OF completed(2)] by (auto simp: completed_from_def same_goods_def)
  then have r: "r \<in> set (rb_returns db')" by (auto simp: completed(7) put_return_rows image_iff)
  have "map bk_id (rb_returns db') = map bk_id (rb_returns db)" by (simp add: completed(7) put_return_rows id)
  then have k: "keyed db'" using assms(1) by (simp add: keyed_def)
  obtain r' where r': "r' \<in> set (rb_returns (run_returns steps db'))" "same_goods r r'" "(bk_status r, bk_status r') \<in> return_moves\<^sup>*"
    using run_row [OF k r assms(3)] by blast
  then have "find_return (run_returns steps db') rid = Some r'" "bk_status r' = bs_completed"
    using keyed_find [OF run_keyed [OF k assms(3)], of r'] moves_final [OF r'(3)] id by (simp_all add: same_goods_def)
  then show ?thesis by (simp add: complete_return_def)
qed simp

section \<open>Quantities that fit the sale\<close>

definition row_qty :: "uuid \<Rightarrow> uuid \<Rightarrow> sale_return \<Rightarrow> f64" where
  "row_qty oid i r =
     (if bk_order r = oid \<and> bk_status r \<in> set (holding_statuses False)
      then sum_list (map bl_quantity (filter (\<lambda>l. bl_order_line l = i) (bk_lines r))) else 0)"

definition returned_qty :: "uuid \<Rightarrow> uuid \<Rightarrow> sale_return list \<Rightarrow> f64" where
  "returned_qty oid i rets = sum_list (map (row_qty oid i) rets)"

definition whole_row :: "uuid \<Rightarrow> sale_return \<Rightarrow> bool" where
  "whole_row oid r \<longleftrightarrow> (bk_order r = oid \<longrightarrow> (\<forall>l \<in> set (bk_lines r). whole (bl_quantity l) \<and> 0 \<le> bl_quantity l))"

definition sound_lines :: "order_line list \<Rightarrow> bool" where
  "sound_lines ols \<longleftrightarrow> distinct (map ol_id ols) \<and>
     (\<forall>ol \<in> set ols. whole (ol_quantity ol) \<and> whole (voided_of ol) \<and> 0 \<le> voided_of ol \<and> voided_of ol \<le> ol_quantity ol)"

definition returns_fit :: "uuid \<Rightarrow> order_line list \<Rightarrow> sale_return list \<Rightarrow> bool" where
  "returns_fit oid ols rets \<longleftrightarrow> (\<forall>r \<in> set rets. whole_row oid r) \<and>
     (\<forall>ol \<in> set ols. returned_qty oid (ol_id ol) rets \<le> ol_quantity ol - voided_of ol)"

lemma whole_between: "whole x \<Longrightarrow> whole y \<Longrightarrow> 0 \<le> y \<Longrightarrow> y \<le> x \<Longrightarrow> whole (x - y) \<and> fl (x - y) = x - y"
  using whole_minus [of x y] whole_diff [of x y] whole_bound [of x]
  by (metis diff_ge_0_iff_ge diff_le_eq add_increasing2 order_trans whole_ofI)

lemma held_sum:
  "returned_qty oid i rets = sum_list (map bl_quantity (filter (\<lambda>l. bl_order_line l = i) (held_lines oid False rets)))"
  by (induction rets) (simp_all add: returned_qty_def row_qty_def held_lines_def)

lemma held_exact:
  assumes "\<forall>r \<in> set rets. whole_row oid r" "returned_qty oid i rets \<le> 2 ^ 50"
  shows "held_return_qty oid False rets i = returned_qty oid i rets" "whole (returned_qty oid i rets)" "0 \<le> returned_qty oid i rets"
proof -
  let ?xs = "map bl_quantity (filter (\<lambda>l. bl_order_line l = i) (held_lines oid False rets))"
  have w: "\<forall>x \<in> set ?xs. whole x \<and> 0 \<le> x" using assms(1) by (auto simp: held_lines_def whole_row_def)
  have le: "sum_list ?xs \<le> 2 ^ 50" using assms(2) by (simp add: held_sum)
  show "held_return_qty oid False rets i = returned_qty oid i rets" "whole (returned_qty oid i rets)" "0 \<le> returned_qty oid i rets"
    using whole_list_sum [OF w le] by (simp_all add: held_return_qty_def held_sum)
qed

lemma eps_small: "qty_epsilon \<le> 1 / 2"
  unfolding qty_epsilon_def by code_simp

lemma fits_remaining:
  assumes "whole q" "whole r" "q \<le> fl (r + qty_epsilon)" shows "q \<le> r"
proof -
  obtain n m where i: "q = of_int m" "r = of_int n" "\<bar>n\<bar> \<le> 2 ^ 50" using assms(1,2) by (auto simp: whole_def)
  have "m \<le> n" by (rule add_small_int [OF _ eps_small]) (use i assms(3) in auto)
  then show ?thesis by (simp add: i)
qed

lemma find_line_in: "find_order_line ols l = Some ol \<Longrightarrow> ol \<in> set ols"
  by (auto simp: find_order_line_def match_order_line_by_sku_def find_Some_iff split: option.splits if_splits list.splits
      dest!: arg_cong [where f = set])

text \<open>Quantities claimed so far that leave room on every line.\<close>

definition room :: "order_line list \<Rightarrow> (uuid \<Rightarrow> f64) \<Rightarrow> (uuid \<Rightarrow> f64) \<Rightarrow> bool" where
  "room ols held claimed \<longleftrightarrow> (\<forall>ol \<in> set ols. whole (held (ol_id ol)) \<and> 0 \<le> held (ol_id ol) \<and>
     whole (claimed (ol_id ol)) \<and> 0 \<le> claimed (ol_id ol) \<and>
     held (ol_id ol) + claimed (ol_id ol) \<le> ol_quantity ol - voided_of ol)"

lemma left_exact:
  assumes "sound_lines ols" "room ols held claimed" "ol \<in> set ols"
  shows "left_to_return ol held claimed = ol_quantity ol - voided_of ol - held (ol_id ol) - claimed (ol_id ol)"
    "whole (left_to_return ol held claimed)" "whole (ol_quantity ol - voided_of ol)"
proof -
  have s: "whole (ol_quantity ol)" "whole (voided_of ol)" "0 \<le> voided_of ol" "voided_of ol \<le> ol_quantity ol"
    using assms(1,3) by (auto simp: sound_lines_def)
  have h: "whole (held (ol_id ol))" "0 \<le> held (ol_id ol)" "whole (claimed (ol_id ol))" "0 \<le> claimed (ol_id ol)"
    "held (ol_id ol) + claimed (ol_id ol) \<le> ol_quantity ol - voided_of ol"
    using assms(2,3) by (auto simp: room_def)
  note a = whole_between [OF s]
  note b = whole_between [of "ol_quantity ol - voided_of ol" "held (ol_id ol)"]
  note c = whole_between [of "ol_quantity ol - voided_of ol - held (ol_id ol)" "claimed (ol_id ol)"]
  show "left_to_return ol held claimed = ol_quantity ol - voided_of ol - held (ol_id ol) - claimed (ol_id ol)"
    "whole (left_to_return ol held claimed)" "whole (ol_quantity ol - voided_of ol)"
    using a b c h by (simp_all add: left_to_return_def)
qed

lemma claim_keeps_room:
  assumes "sound_lines ols" "room ols held claimed" "ol \<in> set ols" "whole q" "0 < q"
    "q \<le> fl (left_to_return ol held claimed + qty_epsilon)"
  shows "room ols held (claimed(ol_id ol := fl (claimed (ol_id ol) + q)))"
    "fl (claimed (ol_id ol) + q) = claimed (ol_id ol) + q"
proof -
  let ?c = "claimed (ol_id ol)"
  note l = left_exact [OF assms(1-3)]
  have q: "q \<le> ol_quantity ol - voided_of ol - held (ol_id ol) - ?c" using fits_remaining [OF assms(4) l(2) assms(6)] l(1) by simp
  have h: "0 \<le> held (ol_id ol)" "whole ?c" "0 \<le> ?c" using assms(2,3) by (auto simp: room_def)
  show e: "fl (?c + q) = ?c + q" by (rule whole_add [OF h(2) assms(4)])
  obtain n m where "?c = of_int n" "q = of_int m" using h(2) assms(4) by (auto simp: whole_def)
  then have "?c + q = of_int (n + m)" by simp
  then have "whole (?c + q)" by (rule whole_ofI) (use h assms(5) q whole_bound [OF l(3)] in linarith)+
  moreover have "ol' = ol" if "ol' \<in> set ols" "ol_id ol' = ol_id ol" for ol'
    using assms(1,3) that by (auto simp: sound_lines_def distinct_map dest: inj_onD)
  then have "held (ol_id ol') + (?c + q) \<le> ol_quantity ol' - voided_of ol'" if "ol' \<in> set ols" "ol_id ol' = ol_id ol" for ol'
    using that q by fastforce
  ultimately show "room ols held (claimed(ol_id ol := fl (?c + q)))"
    using assms(2,5) h unfolding e by (auto simp: room_def)
qed

lemma resolve_inputs_Cons:
  assumes "resolve_inputs round2 ols held internal claimed (l # ls) = Inr out"
  obtains ol rest where "find_order_line ols l = Some ol" "0 < ri_quantity l"
    "ri_quantity l \<le> fl (left_to_return ol held claimed + qty_epsilon)"
    "resolve_inputs round2 ols held internal (claimed(ol_id ol := fl (claimed (ol_id ol) + ri_quantity l))) ls = Inr rest"
    "out = resolved_line round2 internal ol l # rest"
  using assms by (auto simp: Let_def bind_err_Inr split: if_splits option.splits)

lemma resolved_line_simps [simp]:
  "ri_order_line (resolved_line round2 internal ol l) = ol_id ol" "ri_quantity (resolved_line round2 internal ol l) = ri_quantity l"
  by (simp_all add: resolved_line_def Let_def)

lemma resolve_fits:
  assumes "sound_lines ols" "room ols held claimed" "\<forall>l \<in> set ls. whole (ri_quantity l)"
    "resolve_inputs round2 ols held internal claimed ls = Inr out"
  shows "(\<forall>ol \<in> set ols. held (ol_id ol) + claimed (ol_id ol) +
      sum_list (map ri_quantity (filter (\<lambda>l. ri_order_line l = ol_id ol) out)) \<le> ol_quantity ol - voided_of ol) \<and>
    (\<forall>l \<in> set out. whole (ri_quantity l) \<and> 0 \<le> ri_quantity l)"
  using assms(2-4)
proof (induction ls arbitrary: claimed out)
  case Nil
  then show ?case by (auto simp: room_def)
next
  case (Cons l ls)
  obtain ol rest where o: "find_order_line ols l = Some ol" "0 < ri_quantity l"
    "ri_quantity l \<le> fl (left_to_return ol held claimed + qty_epsilon)"
    "resolve_inputs round2 ols held internal (claimed(ol_id ol := fl (claimed (ol_id ol) + ri_quantity l))) ls = Inr rest"
    "out = resolved_line round2 internal ol l # rest"
    using Cons.prems(3) by (rule resolve_inputs_Cons)
  have w: "whole (ri_quantity l)" using Cons.prems(2) by simp
  note k = claim_keeps_room [OF assms(1) Cons.prems(1) find_line_in [OF o(1)] w o(2,3)]
  have ih: "\<forall>x \<in> set ols. held (ol_id x) + (claimed(ol_id ol := fl (claimed (ol_id ol) + ri_quantity l))) (ol_id x) +
      sum_list (map ri_quantity (filter (\<lambda>l. ri_order_line l = ol_id x) rest)) \<le> ol_quantity x - voided_of x"
    "\<forall>l \<in> set rest. whole (ri_quantity l) \<and> 0 \<le> ri_quantity l"
    using Cons.IH [OF k(1) _ o(4)] Cons.prems(2) by simp_all
  have "held (ol_id x) + claimed (ol_id x) + sum_list (map ri_quantity (filter (\<lambda>l. ri_order_line l = ol_id x) out))
      \<le> ol_quantity x - voided_of x" if "x \<in> set ols" for x
    using bspec [OF ih(1) that] unfolding o(5) k(2) by (simp split: if_splits)
  then show ?case using ih(2) w o(2) by (simp add: o(5))
qed

text \<open>The sale stays in the store, with its lines.\<close>

definition sale_kept :: "uuid \<Rightarrow> uuid \<Rightarrow> order_line list \<Rightarrow> return_db \<Rightarrow> bool" where
  "sale_kept tid oid ols db \<longleftrightarrow> (\<exists>po. order_of db tid oid = Some po \<and> po_lines po = ols)"

text \<open>
  The requests considered: a return of the sale is the customer's, for whole quantities; the sessions
  that run beside an exchange leave the sale's row first in the table.
\<close>

definition counter_request :: "uuid \<Rightarrow> uuid \<Rightarrow> return_action \<Rightarrow> bool" where
  "counter_request tid oid s \<longleftrightarrow>
     (case s of
        Create_Step env t rq \<Rightarrow> zr_order rq = oid \<longrightarrow> t = tid \<and> \<not> zr_bypass rq \<and> (\<forall>l \<in> set (zr_lines rq). whole (ri_quantity l))
      | Complete_Step env t rid c \<Rightarrow>
          (case qe_till env of None \<Rightarrow> True
           | Some till \<Rightarrow> (\<forall>xs. find (\<lambda>po. po_id po = oid \<and> po_tenant po = tid) (cn_others till xs) =
               find (\<lambda>po. po_id po = oid \<and> po_tenant po = tid) xs))
      | _ \<Rightarrow> True)"

lemma find_append_Some: "find P xs = Some x \<Longrightarrow> find P (xs @ ys) = Some x"
  by (induction xs) auto

lemma create_order_keeps_sale:
  assumes "create_order till rq st = (st', res)" "find P (or_orders st) = Some po"
    "\<And>xs. find P (cn_others till xs) = find P xs"
  shows "find P (or_orders st') = Some po"
  using assms(1)
proof (cases rule: create_order_cases)
  case (fresh q number subtype m d stp st1)
  have "or_orders stp = or_orders st" using fresh(4) by (rule tables_orders)
  then show ?thesis
    using fresh_tx_props(3) [OF fresh(1)] after_create_cases [OF fresh(5)] assms(2,3) find_append_Some by metis
qed (use assms in \<open>auto simp: tables_def\<close>)

lemma find_map_same:
  assumes "\<And>x. P (f x) = P x" shows "find P (map f xs) = map_option f (find P xs)"
  using assms by (induction xs) auto

lemma sale_kept_simps [simp]:
  "sale_kept tid oid ols (put_return rid f db) = sale_kept tid oid ols db"
  "sale_kept tid oid ols (publish_completed env ret ref x db) = sale_kept tid oid ols db"
  "sale_kept tid oid ols (snd (settle_return env t ret a restock ch credit db)) = sale_kept tid oid ols db"
  by (simp_all add: sale_kept_def order_of_def put_return_def publish_completed_def settle_return_def Let_def split: option.split)

lemma stamp_keeps_sale:
  assumes "sale_kept tid oid ols db" shows "sale_kept tid oid ols (stamp_exchange_credit env po credit db)"
proof -
  let ?f = "\<lambda>q :: pos_order. if po_id q = po_id po then q\<lparr>po_metadata := meta_set ''exchange_credit'' (JNum credit) (po_metadata po)\<rparr> else q"
  have "find (\<lambda>q. po_id q = oid \<and> po_tenant q = tid) (map ?f xs) =
      map_option ?f (find (\<lambda>q. po_id q = oid \<and> po_tenant q = tid) xs)" for xs
    by (rule find_map_same) simp
  moreover obtain q where "order_of db tid oid = Some q" "po_lines q = ols" using assms by (auto simp: sale_kept_def)
  ultimately show ?thesis by (simp add: stamp_exchange_credit_def sale_kept_def order_of_def)
qed

lemma credit_keeps_sale:
  assumes "sale_kept tid oid ols db" shows "sale_kept tid oid ols (snd (credit_exchange env t ret po cur db))"
proof -
  have "sale_kept tid oid ols (db\<lparr>rb_payments := x\<rparr>)" "\<And>d y. sale_kept tid oid ols d \<Longrightarrow> sale_kept tid oid ols (d\<lparr>rb_rechecks := y\<rparr>)" for x
    using assms by (simp_all add: sale_kept_def order_of_def)
  then show ?thesis using assms stamp_keeps_sale by (simp add: credit_exchange_def Let_def)
qed

lemma fulfil_keeps_sale:
  assumes "sale_kept tid oid ols db" "counter_request tid oid (Complete_Step env t rid c)"
  shows "sale_kept tid oid ols (snd (fulfil_exchange env t ret c db))"
proof (cases "qe_till env")
  case (Some till)
  have "sale_kept tid oid ols (db\<lparr>rb_store := fst (create_order till rq (rb_store db))\<rparr>)" for rq
  proof -
    obtain po where po: "order_of db tid oid = Some po" "po_lines po = ols" using assms(1) by (auto simp: sale_kept_def)
    obtain st' res where c: "create_order till rq (rb_store db) = (st', res)" by fastforce
    have "find (\<lambda>po. po_id po = oid \<and> po_tenant po = tid) (or_orders st') = Some po"
      using create_order_keeps_sale [OF c] po(1) assms(2) Some by (simp add: order_of_def counter_request_def)
    then show ?thesis using po(2) c by (simp add: sale_kept_def order_of_def)
  qed
  then show ?thesis
    using assms(1) credit_keeps_sale Some
    by (auto simp: fulfil_exchange_def Let_def split: option.split sum.split)
qed (use assms(1) in \<open>simp add: fulfil_exchange_def\<close>)

lemma sale_kept_same: "sale_kept tid oid ols db \<Longrightarrow> rb_store db' = rb_store db \<Longrightarrow> sale_kept tid oid ols db'"
  by (simp add: sale_kept_def order_of_def)

lemma create_keeps_sale:
  assumes "sale_kept tid oid ols db" shows "sale_kept tid oid ols (snd (create_return env t rq db))"
proof -
  have "sale_kept tid oid ols (db\<lparr>rb_store := rb_store db\<lparr>or_seq := x\<rparr>\<rparr>)" for x
    using assms by (simp add: sale_kept_def order_of_def)
  then have "sale_kept tid oid ols (snd (store_return env r (db\<lparr>rb_store := rb_store db\<lparr>or_seq := x\<rparr>\<rparr>)))" for r x
    by (simp add: store_return_def sale_kept_def order_of_def)
  then show ?thesis using assms by (simp add: create_return_def Let_def split: option.split sum.split)
qed

lemma complete_invariant:
  assumes "P db" "\<And>ret. P (snd (fulfil_exchange env t ret c db))"
    "\<And>ret a ch x d. P d \<Longrightarrow> P (snd (finish_return env t ret c a ch x d))"
  shows "P (snd (complete_return env t rid c db))"
proof -
  have step: "P (snd (case fst x of Inl e \<Rightarrow> (Inl e, snd x) | Inr y \<Rightarrow> finish_return env t ret c a ch y (snd x)))"
    if "x = fulfil_exchange env t ret c db" for x ret a ch
    using assms(2,3) that by (cases "fst x") simp_all
  show ?thesis unfolding complete_return_def Let_def using assms(1) step [OF refl]
    by (simp split: option.split)
qed

lemma complete_keeps_sale:
  assumes "sale_kept tid oid ols db" "counter_request tid oid (Complete_Step env t rid c)"
  shows "sale_kept tid oid ols (snd (complete_return env t rid c db))"
proof (rule complete_invariant)
  show "sale_kept tid oid ols (snd (finish_return env t ret c a ch x d))" if "sale_kept tid oid ols d" for ret a ch x d
    using that by (simp add: finish_return_def Let_def)
qed (use assms fulfil_keeps_sale in blast)+

lemma resync_store [simp]: "rb_store (snd (resync_loop env dry rs db)) = rb_store db"
  by (induction rs arbitrary: db) (simp_all add: Let_def request_restock_def put_return_def)

lemma retry_store [simp]: "rb_store (snd (retry_notes env tr rs db)) = rb_store db"
  by (induction rs arbitrary: db) (simp_all add: Let_def mark_fiscal_credit_note_def put_return_def)

lemma quiet_steps_store:
  "rb_store (snd (approve_return env t rid d db)) = rb_store db"
  "rb_store (return_step (Decided_Step env t d ret seen) db) = rb_store db"
  "rb_store (snd (apply_restock_outcome env names t rid out db)) = rb_store db"
  "rb_store (snd (resync_restock env t rq db)) = rb_store db"
  "rb_store (snd (retry_pending_credit_notes env db)) = rb_store db"
  by (simp_all add: approve_return_def approve_write_def apply_restock_outcome_def put_return_def resync_restock_loop
      retry_pending_credit_notes_def split: option.split sum.split)

lemma step_keeps_sale:
  assumes "sale_kept tid oid ols db" "counter_request tid oid s" shows "sale_kept tid oid ols (return_step s db)"
proof (cases s)
  case (Create_Step env t rq)
  then show ?thesis using assms create_keeps_sale by simp
next
  case (Complete_Step env t rid c)
  then show ?thesis using assms complete_keeps_sale by simp
next
  case (Decided_Step env t d ret seen)
  then show ?thesis using sale_kept_same [OF assms(1)] quiet_steps_store(2) by blast
qed (simp_all only: return_step.simps sale_kept_same [OF assms(1)] quiet_steps_store)

lemma held_statuses [simp]: "set (holding_statuses False) = {bs_pending, bs_approved, bs_completed}"
  by (simp add: holding_statuses_def)

lemma row_qty_nonneg: "whole_row oid r \<Longrightarrow> 0 \<le> row_qty oid i r"
  by (auto simp: row_qty_def whole_row_def intro!: sum_list_nonneg)

lemma row_move_qty:
  assumes "row_move r r'" "whole_row oid r"
  shows "row_qty oid i r' \<le> row_qty oid i r" "whole_row oid r'"
proof -
  have g: "bk_order r' = bk_order r" "bk_lines r' = bk_lines r" "(bk_status r, bk_status r') \<in> return_moves\<^sup>="
    using assms(1) by (simp_all add: row_move_def same_goods_def)
  then show "whole_row oid r'" using assms(2) by (simp add: whole_row_def)
  show "row_qty oid i r' \<le> row_qty oid i r"
  proof (cases "bk_status r' \<in> set (holding_statuses False)")
    case True
    then have "bk_status r \<in> set (holding_statuses False)" using g(3) by (auto simp: return_moves_def)
    then show ?thesis using g True by (simp add: row_qty_def)
  next
    case False
    then show ?thesis using row_qty_nonneg [OF assms(2), of i] by (auto simp: row_qty_def)
  qed
qed

lemma moved_fit:
  assumes "list_all2 row_move rets rets'" "\<forall>r \<in> set rets. whole_row oid r"
  shows "returned_qty oid i rets' \<le> returned_qty oid i rets \<and> (\<forall>r \<in> set rets'. whole_row oid r)"
  using assms
proof (induction rule: list_all2_induct)
  case (Cons r rets r' rets')
  then show ?case using row_move_qty [OF Cons(1)] by (auto simp: returned_qty_def intro: add_mono)
qed simp

lemma created_fits:
  assumes "sound_lines ols" "returns_fit (po_id po) ols rets" "po_lines po = ols" "\<forall>l \<in> set ins. whole (ri_quantity l)"
    "resolve_return_lines rnd a b po rets False ins = Inr ls"
    "bk_status r = bs_pending" "bk_order r = po_id po" "bk_lines r = map return_line_of ls"
  shows "returns_fit (po_id po) ols (rets @ [r])"
proof -
  let ?held = "held_return_qty (po_id po) False rets"
  have rows: "\<forall>r \<in> set rets. whole_row (po_id po) r" using assms(2) by (simp add: returns_fit_def)
  have h: "?held (ol_id ol) = returned_qty (po_id po) (ol_id ol) rets \<and> whole (?held (ol_id ol)) \<and> 0 \<le> ?held (ol_id ol) \<and>
      ?held (ol_id ol) \<le> ol_quantity ol - voided_of ol" if "ol \<in> set ols" for ol
  proof -
    have "returned_qty (po_id po) (ol_id ol) rets \<le> ol_quantity ol - voided_of ol" using assms(2) that by (simp add: returns_fit_def)
    moreover have "ol_quantity ol - voided_of ol \<le> 2 ^ 50"
      using assms(1) that whole_bound [of "ol_quantity ol"] by (fastforce simp: sound_lines_def)
    ultimately show ?thesis using held_exact [OF rows, of "ol_id ol"] by simp
  qed
  have zero: "whole 0" by (rule whole_ofI [of 0 0]) simp_all
  have "resolve_inputs rnd ols ?held False (\<lambda>_. 0) ins = Inr ls"
    using assms(3,5) by (simp add: resolve_return_lines_def split: if_splits)
  moreover have "room ols ?held (\<lambda>_. 0)" unfolding room_def by (intro ballI, drule h, elim conjE) (simp add: zero)
  ultimately have f: "\<forall>ol \<in> set ols. ?held (ol_id ol) + sum_list (map ri_quantity (filter (\<lambda>l. ri_order_line l = ol_id ol) ls))
      \<le> ol_quantity ol - voided_of ol" "\<forall>l \<in> set ls. whole (ri_quantity l) \<and> 0 \<le> ri_quantity l"
    using resolve_fits [OF assms(1) _ assms(4)] by fastforce+
  have "row_qty (po_id po) i r = sum_list (map ri_quantity (filter (\<lambda>l. ri_order_line l = i) ls))" for i
    using assms(6-8) by (simp add: row_qty_def return_line_of_def filter_map comp_def)
  then have "returned_qty (po_id po) i (rets @ [r]) =
      returned_qty (po_id po) i rets + sum_list (map ri_quantity (filter (\<lambda>l. ri_order_line l = i) ls))" for i
    by (simp add: returned_qty_def)
  moreover have "whole_row (po_id po) r" using f(2) assms(8) by (auto simp: whole_row_def return_line_of_def)
  ultimately show ?thesis using rows f(1) h by (simp add: returns_fit_def)
qed

lemma step_fits:
  assumes "keyed db" "sale_kept tid oid ols db" "sound_lines ols" "returns_fit oid ols (rb_returns db)" "counter_request tid oid s"
    "timely s db"
  shows "returns_fit oid ols (rb_returns (return_step s db))"
  using assms(1,6)
proof (cases rule: step_rows [where s = s])
  case (1 old)
  then show ?thesis using moved_fit [OF 1(1)] assms(4) unfolding returns_fit_def by (metis order_trans)
next
  case (2 r)
  then obtain env t rq where s: "s = Create_Step env t rq" by blast
  obtain res db' where c: "create_return env t rq db = (res, db')" by fastforce
  then show ?thesis
  proof (cases rule: create_cases)
    case (refused e)
    then show ?thesis using assms(4) s c by simp
  next
    case (created po ls r')
    have "r' = r" using created(9) 2(1) s c by simp
    show ?thesis
    proof (cases "zr_order rq = oid")
      case True
      have b: "t = tid" "\<not> zr_bypass rq" "\<forall>l \<in> set (zr_lines rq). whole (ri_quantity l)" using assms(5) True by (auto simp: s counter_request_def)
      have "order_of db tid oid = Some po" using created(2) b(1) True by simp
      then have po: "po_lines po = ols" "po_id po = oid"
        using assms(2) by (auto simp: sale_kept_def) (auto simp: order_of_def find_Some_iff)
      show ?thesis
        using created_fits [of ols po "rb_returns db", OF assms(3) _ po(1) b(3) _ created(4)] created(3,5,6) assms(4) b(2) po(2) True
          2(1) \<open>r' = r\<close> by simp
    next
      case False
      then have "row_qty oid i r = 0" "whole_row oid r" for i using created(5) \<open>r' = r\<close> by (simp_all add: row_qty_def whole_row_def)
      then show ?thesis using assms(4) by (simp add: 2(1) returns_fit_def returned_qty_def)
    qed
  qed
qed

text \<open>
  C13. No more comes back than was sold. From a sale whose returns fit, over any run of customer returns
  for whole quantities, approvals, completions with their exchange orders, stock reports, resyncs and
  retries, the quantity that open and completed returns hold of each line never exceeds what was sold
  less what was voided, whatever tolerance the check has. The run has no return that an edit of this
  sale creates (those are checked against completed returns only: \<open>sale_edit_over_returns\<close>), and every
  approval decision in it is written while its return is pending.
\<close>

theorem returns_within_sale:
  assumes "keyed db" "sale_kept tid oid ols db" "sound_lines ols" "returns_fit oid ols (rb_returns db)"
    "list_all (counter_request tid oid) steps" "decisions_timely steps db" "ol \<in> set ols"
  shows "held_return_qty oid False (rb_returns (run_returns steps db)) (ol_id ol) \<le> ol_quantity ol - voided_of ol"
proof -
  have "returns_fit oid ols (rb_returns (run_returns steps db))"
    using assms(1,2,4,5,6)
  proof (induction steps arbitrary: db)
    case (Cons s steps)
    then show ?case
      using step_fits [OF Cons.prems(1,2) assms(3) Cons.prems(3)] step_keeps_sale step_keyed by (simp add: run_returns_def)
  qed (simp add: run_returns_def)
  then have f: "\<forall>r \<in> set (rb_returns (run_returns steps db)). whole_row oid r"
    "returned_qty oid (ol_id ol) (rb_returns (run_returns steps db)) \<le> ol_quantity ol - voided_of ol"
    using assms(7) by (simp_all add: returns_fit_def)
  moreover have "ol_quantity ol - voided_of ol \<le> 2 ^ 50"
    using assms(3,7) whole_bound [of "ol_quantity ol"] by (fastforce simp: sound_lines_def)
  ultimately show ?thesis using held_exact(1) [OF f(1), of "ol_id ol"] by simp
qed

section \<open>Goods that were written off\<close>

lemma resync_loop_events:
  "Restock_Requested p \<in> set (rb_events (snd (resync_loop env dry rs db))) \<Longrightarrow>
     Restock_Requested p \<in> set (rb_events db) \<or>
     (\<exists>r \<in> set rs. cp_return p = bk_id r \<and> meta_get (bk_meta r) ''restock_decision'' \<noteq> Some (JStr ''write_off''))"
proof (induction rs arbitrary: db)
  case (Cons r rs)
  have "Restock_Requested p \<in> set (rb_events (snd (request_restock env r db))) \<Longrightarrow>
      Restock_Requested p \<in> set (rb_events db) \<or>
      cp_return p = bk_id r \<and> meta_get (bk_meta r) ''restock_decision'' \<noteq> Some (JStr ''write_off'')"
    by (auto simp: request_restock_def Let_def completed_payload_of_def put_return_def split: if_splits)
  then show ?case using Cons.IH [of db] Cons.IH [of "snd (request_restock env r db)"] Cons.prems
    by (cases dry) (auto simp: Let_def)
qed simp

lemma retry_events [simp]: "rb_events (snd (retry_notes env tr rs db)) = rb_events db"
  by (induction rs arbitrary: db) (simp_all add: Let_def mark_fiscal_credit_note_def put_return_def)

lemma complete_events:
  assumes "Restock_Requested p \<in> set (rb_events (snd (complete_return env t rid c db)))"
  shows "Restock_Requested p \<in> set (rb_events db)"
proof -
  have "Restock_Requested p \<in> set (rb_events d)"
    if "Restock_Requested p \<in> set (rb_events (snd (finish_return env t ret c a ch x d)))" for ret a ch x d
    using that by (auto simp: finish_return_def Let_def publish_completed_def put_return_def split: if_splits)
  then have "Restock_Requested p \<notin> set (rb_events db) \<longrightarrow> Restock_Requested p \<notin> set (rb_events (snd (complete_return env t rid c db)))"
    by (intro complete_invariant [where P = "\<lambda>d. Restock_Requested p \<notin> set (rb_events db) \<longrightarrow> Restock_Requested p \<notin> set (rb_events d)"]) auto
  then show ?thesis using assms by blast
qed

lemma step_events:
  assumes "Restock_Requested p \<in> set (rb_events (return_step s db))"
  shows "Restock_Requested p \<in> set (rb_events db) \<or>
    (\<exists>r \<in> set (rb_returns db). cp_return p = bk_id r \<and> meta_get (bk_meta r) ''restock_decision'' \<noteq> Some (JStr ''write_off''))"
proof (cases s)
  case (Create_Step env t rq)
  then show ?thesis using assms
    by (auto simp: create_return_def store_return_def Let_def split: if_splits option.splits sum.splits)
next
  case (Approve_Step env t rid d)
  then show ?thesis using assms
    by (simp add: approve_return_def approve_write_def put_return_def split: if_splits option.splits sum.splits)
next
  case (Decided_Step env t d ret seen)
  then show ?thesis using assms
    by (simp add: approve_write_def put_return_def split: if_splits sum.splits)
next
  case (Complete_Step env t rid c)
  then show ?thesis using assms complete_events by simp
next
  case (Outcome_Step env names t rid out)
  then show ?thesis using assms by (simp add: apply_restock_outcome_def put_return_def split: if_splits option.splits)
next
  case (Resync_Step env t rq)
  then show ?thesis using assms resync_loop_events [of p env "yq_dry_run rq" "resync_rows_of t rq db" db] resync_rows_of_in
    by (auto simp: resync_restock_loop split: if_splits)
next
  case (Retry_Step env)
  then show ?thesis using assms by (simp add: retry_pending_credit_notes_def split: option.splits if_splits)
qed

text \<open>
  C16. A write-off is final. Goods written off at the completion of their return stay so, whatever
  inventory reports later, whoever asks for a resync, and no restock of that return is ever requested,
  as long as no approval decision is written on a return that is not pending any more.
\<close>

theorem write_off_is_final:
  assumes "keyed db" "r \<in> set (rb_returns db)" "written_off r" "decisions_timely steps db"
  shows "(\<exists>r' \<in> set (rb_returns (run_returns steps db)). same_goods r r' \<and> written_off r') \<and>
    (\<forall>p. Restock_Requested p \<in> set (rb_events (run_returns steps db)) \<and> cp_return p = bk_id r \<longrightarrow>
       Restock_Requested p \<in> set (rb_events db))"
  using assms
proof (induction steps arbitrary: db r)
  case Nil
  then show ?case by (auto simp: run_returns_def same_goods_def)
next
  case (Cons s steps)
  obtain q where q: "q \<in> set (rb_returns (return_step s db))" "row_move r q" using step_row [of db s r] Cons.prems by auto
  then have w: "written_off q" "same_goods r q" using Cons.prems(3) by (simp_all add: row_move_def)
  have tm: "timely s db" "decisions_timely steps (return_step s db)" using Cons.prems(4) by simp_all
  note ih = Cons.IH [OF step_keyed [OF Cons.prems(1) tm(1)] q(1) w(1) tm(2)]
  have "Restock_Requested p \<in> set (rb_events db)"
    if p: "Restock_Requested p \<in> set (rb_events (return_step s db))" "cp_return p = bk_id r" for p
    using step_events [OF p(1)] keyed_eq [OF Cons.prems(1,2)] p(2) Cons.prems(3) by (auto simp: written_off_def)
  then show ?case using ih w(2) by (fastforce simp: run_returns_def same_goods_def)
qed

section \<open>How the customer is settled\<close>

text \<open>
  A completed return is settled as the policy allows. Its channel is set; a sale on account whose
  refunds the outlet restricts is settled against the invoice only, a paid sale never is, and faulty
  goods are never settled in store credit, whatever channel was asked for at creation, approval or completion.
\<close>

theorem completed_channel_allowed:
  assumes "complete_return env tid rid c db = (Inr (r, x), db')"
  shows "\<exists>channel. bk_channel r = Some channel \<and> channel \<noteq> [] \<and>
    (on_account_sale env db tid (bk_order r) \<and> refund_restricted env db tid (bk_order r) \<longrightarrow> channel = ''offset_invoice'') \<and>
    (\<not> on_account_sale env db tid (bk_order r) \<longrightarrow> channel \<noteq> ''offset_invoice'') \<and>
    (\<forall>code \<in> set store_credit_blocked_reasons. bk_code r = Some code \<longrightarrow> channel \<noteq> ''store_credit'')"
  using assms
proof (cases rule: complete_cases)
  case (completed ret r' y channel)
  have g: "bk_order r = bk_order ret" "bk_code r = bk_code ret" "bk_channel r = Some channel"
    using completed(1,4) by (auto simp: completed_from_def same_goods_def)
  have "channel \<noteq> []" unfolding completed(5) by (simp add: completion_channel_def default_refund_channel_def Let_def)
  then show ?thesis using completed(6) unfolding g by (auto simp: validate_refund_channel_def split: if_splits)
qed simp

text \<open>
  C37. A customer's return is worth what the sale charged. Whatever prices and totals the till sends, the
  lines stored and their value are those of the order: only the quantity is taken from the request.
\<close>

theorem client_price_ignored:
  "resolve_return_lines rnd a b po rets False (map (\<lambda>l. l\<lparr>ri_unit_price := p l, ri_total_price := v l\<rparr>) ls) =
     resolve_return_lines rnd a b po rets False ls"
proof -
  have "resolve_inputs rnd ols held False claimed (map (\<lambda>l. l\<lparr>ri_unit_price := p l, ri_total_price := v l\<rparr>) ls) =
      resolve_inputs rnd ols held False claimed ls" for ols held claimed
  proof (induction ls arbitrary: claimed)
    case (Cons l ls)
    have "find_order_line ols (l\<lparr>ri_unit_price := p l, ri_total_price := v l\<rparr>) = find_order_line ols l"
      by (simp add: find_order_line_def split: option.split)
    moreover have "resolved_line rnd False ol (l\<lparr>ri_unit_price := p l, ri_total_price := v l\<rparr>) = resolved_line rnd False ol l" for ol
      by (simp add: resolved_line_def Let_def)
    ultimately show ?case by (cases "find_order_line ols l") (simp_all add: Cons.IH Let_def del: fun_upd_apply)
  qed simp
  then show ?thesis by (simp add: resolve_return_lines_def)
qed

section \<open>Exchanges\<close>

lemma min_settle_bounds: "0 < min_settle" "min_settle < 1"
  unfolding min_settle_def by (rule fl_pos, simp) code_simp

lemma whole_le_settle: "whole x \<Longrightarrow> 0 \<le> x \<Longrightarrow> x \<le> min_settle \<longleftrightarrow> x = 0"
proof -
  assume w: "whole x" "0 \<le> x"
  then obtain n where n: "x = of_int n" "0 \<le> n" by (auto simp: whole_def)
  show ?thesis
  proof (cases "n \<ge> 1")
    case True
    then have "1 \<le> x" by (simp add: n)
    then show ?thesis using min_settle_bounds by linarith
  next
    case False
    then show ?thesis using n min_settle_bounds by simp
  qed
qed

lemma split_total:
  assumes "whole x" "whole y" "0 \<le> x" "0 \<le> y"
  shows "max (fl (x - min x y)) 0 = x - min x y" "whole (x - min x y)"
proof -
  have m: "whole (min x y)" "0 \<le> min x y" "min x y \<le> x" using assms by (simp_all add: min_def)
  show "max (fl (x - min x y)) 0 = x - min x y" "whole (x - min x y)"
    using whole_between [OF assms(1) m] m(3) by (simp_all add: max_def)
qed

lemma credit_exchange_result:
  assumes "credit_exchange env tid ret po cur db = (Inr x, db')"
  shows "xr_order x = po_id po" "xr_total x = po_total_amount po" "xr_credit x = min (bk_amount ret) (po_total_amount po)"
    "xr_leftover x = max (fl (bk_amount ret - min (bk_amount ret) (po_total_amount po))) 0"
    "xr_payable x = (let p = max (fl (po_total_amount po - min (bk_amount ret) (po_total_amount po))) 0 in if p \<le> min_settle then 0 else p)"
    "rb_payments db' = rb_payments db @
       (if xr_credit x > min_settle then [exchange_payment env ret (po_id po) (xr_credit x) cur] else [])"
proof -
  define credit where "credit = min (bk_amount ret) (po_total_amount po)"
  have s: "rb_payments (stamp_exchange_credit env po c d) = rb_payments d" for c d by (simp add: stamp_exchange_credit_def)
  note d = assms [unfolded credit_exchange_def, folded credit_def]
  have x: "\<not> (credit > min_settle \<and> \<not> qe_ok env Insert_Credit)" using d by (rule contrapos_pn) simp
  show "xr_order x = po_id po" "xr_total x = po_total_amount po" "xr_credit x = min (bk_amount ret) (po_total_amount po)"
    "xr_leftover x = max (fl (bk_amount ret - min (bk_amount ret) (po_total_amount po))) 0"
    "xr_payable x = (let p = max (fl (po_total_amount po - min (bk_amount ret) (po_total_amount po))) 0 in if p \<le> min_settle then 0 else p)"
    using d x unfolding credit_def [symmetric] by (auto simp: Let_def)
  then have c: "xr_credit x = credit" by (simp add: credit_def)
  show "rb_payments db' = rb_payments db @
       (if xr_credit x > min_settle then [exchange_payment env ret (po_id po) (xr_credit x) cur] else [])"
    using d x unfolding c by (cases "min_settle < credit") (auto simp: Let_def s split: if_splits)
qed

text \<open>
  C15. An exchange balances. On whole amounts the value returned is split without remainder: the credit
  and what the customer still pays make the total of the replacement, the credit and what is refunded
  make the value returned, not both are due, and exactly the credit is booked as a completed payment of the replacement.
\<close>

theorem exchange_balances:
  assumes "fulfil_exchange env tid ret c db = (Inr (Some x), db')" "whole (bk_amount ret)" "0 \<le> bk_amount ret"
    "whole (xr_total x)" "0 \<le> xr_total x"
  shows "xr_credit x + xr_payable x = xr_total x \<and> xr_credit x + xr_leftover x = bk_amount ret \<and>
    (xr_payable x = 0 \<or> xr_leftover x = 0) \<and>
    (\<exists>cur. rb_payments db' = rb_payments db @
       (if 0 < xr_credit x then [exchange_payment env ret (xr_order x) (xr_credit x) cur] else []))"
proof -
  obtain po cur db1 where c: "credit_exchange env tid ret po cur db1 = (Inr x, db')" "rb_payments db1 = rb_payments db"
    using assms(1) by (auto simp: fulfil_exchange_def Let_def prod_eq_iff split: if_splits option.splits sum.splits)
  note r = credit_exchange_result [OF c(1)]
  let ?a = "bk_amount ret" and ?t = "po_total_amount po"
  have t: "whole ?t" "0 \<le> ?t" using assms(4,5) by (simp_all add: r(2))
  note l = split_total [OF assms(2) t(1) assms(3) t(2)] and p = split_total [OF t(1) assms(2) t(2) assms(3)]
  have pay: "xr_payable x = ?t - min ?a ?t"
    using p whole_le_settle [OF p(2)] by (simp add: r(5) Let_def min.commute)
  have left: "xr_leftover x = ?a - min ?a ?t" by (simp only: r(4) l(1))
  have "whole (min ?a ?t)" "0 \<le> min ?a ?t" using assms(2,3) t by (simp_all add: min_def)
  then have "min ?a ?t \<le> min_settle \<longleftrightarrow> min ?a ?t = 0" by (rule whole_le_settle)
  then have "min_settle < xr_credit x \<longleftrightarrow> 0 < xr_credit x" using \<open>0 \<le> min ?a ?t\<close> unfolding r(3) by linarith
  then show ?thesis using r(1,2,3,6) c(2) by (auto simp: pay left min_def)
qed

section \<open>Refusals\<close>

lemma approve_refused: "approve_return env tid rid d db = (Inl e, db') \<Longrightarrow> db' = db"
  by (auto simp: approve_return_def approve_write_def split: if_splits option.splits sum.splits)

lemma complete_refused:
  assumes "complete_return env tid rid c db = (Inl e, db')"
  shows "rb_returns db' = rb_returns db \<and> rb_events db' = rb_events db"
  using assms by (cases rule: complete_cases) simp_all

end
