(* ===== verification/Return_Demo.thy ===== *)
theory Return_Demo
  imports Return_Safety
begin

text \<open>
  The properties of returns at a concrete counter, and the requests that get past the rules: each is a
  run of the model from a sale of four units.
\<close>

section \<open>A counter\<close>

definition sold_order :: pos_order where
  "sold_order = sample_order\<lparr>po_id := 60, po_tenant := 2, po_status := st_completed, po_metadata := [],
     po_lines := [sample_line\<lparr>ol_quantity := 4, ol_total_price := 400, ol_voided_qty := None\<rparr>]\<rparr>"

definition counter_treasury :: treasury_env where
  "counter_treasury = \<lparr>tq_fiscal = (\<lambda>_. Some False), tq_refund = (\<lambda>_. Some ''RF-1''), tq_note_ok = (\<lambda>_. True)\<rparr>"

definition counter_env :: return_env where
  "counter_env = \<lparr>qe_ok = (\<lambda>_. True), qe_settings = (\<lambda>_. None), qe_tenders = [], qe_unreturnable = [], qe_catalog = [],
     qe_round2 = (\<lambda>x. x), qe_round = (\<lambda>x _. x), qe_show = (\<lambda>_. ''id''), qe_now = 0, qe_return_id = 90, qe_payment_id = 95,
     qe_fallback_number = ''RET-1'', qe_seq = None, qe_till = None, qe_completion = True, qe_publisher = True,
     qe_treasury = Some counter_treasury\<rparr>"

definition counter_db :: return_db where
  "counter_db = \<lparr>rb_returns = [], rb_store = empty_store\<lparr>or_orders := [sold_order]\<rparr>, rb_payments = [], rb_refunds = [],
     rb_notes = [], rb_events = [], rb_rechecks = []\<rparr>"

definition back_line :: "rat \<Rightarrow> return_input" where
  "back_line q = \<lparr>ri_order_line = 7, ri_item = 3, ri_sku = [], ri_name = [], ri_quantity = q, ri_unit_price = 0,
     ri_total_price = 0, ri_reason = [], ri_tax_code = [], ri_inclusive = False, ri_tax_rate = None\<rparr>"

definition back_request :: "string \<Rightarrow> string \<Rightarrow> rat \<Rightarrow> return_request" where
  "back_request rtype code q =
     \<lparr>zr_order = 60, zr_outlet = 3, zr_type = rtype, zr_reason = [], zr_code = code, zr_channel = ''cash'',
     zr_lines = [back_line q], zr_by = 5, zr_date = None, zr_bypass = False\<rparr>"

definition yes :: decision where
  "yes = \<lparr>zd_action = ''approve'', zd_notes = [], zd_channel = [], zd_by = 6\<rparr>"

definition hand_back :: completion where
  "hand_back = \<lparr>zc_notes = [], zc_channel = ''cash'', zc_exchange = [], zc_by = 6, zc_restock = None\<rparr>"

definition opened :: "string \<Rightarrow> string \<Rightarrow> return_db" where
  "opened rtype code = return_step (Create_Step counter_env 2 (back_request rtype code 2)) counter_db"

definition cleared :: "string \<Rightarrow> string \<Rightarrow> return_db" where
  "cleared rtype code = return_step (Approve_Step counter_env 2 90 yes) (opened rtype code)"

lemmas counter_defs = sold_order_def sample_order_def sample_line_def counter_treasury_def counter_env_def counter_db_def
  back_line_def back_request_def yes_def hand_back_def

text \<open>
  A damaged item is handed back for cash and written off. A store credit return of a defective item
  that asks for cash passes the policy that forbids store credit, and is settled in store credit.
\<close>

lemma opened_row:
  "map (\<lambda>r. (bk_id r, bk_status r, bk_amount r)) (rb_returns (opened ''refund'' ''damaged'')) = [(90, bs_pending, 200)]"
  by code_simp

lemma counter_runs:
  "case complete_return counter_env 2 90 hand_back (cleared ''refund'' ''damaged'') of
     (Inr (r, x), db') \<Rightarrow> bk_status r = bs_completed \<and> bk_id r = 90 \<and> written_off r \<and> rb_returns db' = [r]
   | _ \<Rightarrow> False"
  by code_simp

lemma defective_run:
  "case complete_return counter_env 2 90 hand_back (cleared ''store_credit'' ''defective'') of
     (Inr (r, x), db') \<Rightarrow> bk_channel r = Some ''cash'' \<and> map fq_channel (rb_refunds db') = [''store_credit'']
   | _ \<Rightarrow> False"
  by code_simp

lemma counter_completed:
  obtains r x db' where "complete_return counter_env 2 90 hand_back (cleared ''refund'' ''damaged'') = (Inr (r, x), db')"
    "bk_status r = bs_completed" "bk_id r = 90" "written_off r" "rb_returns db' = [r]"
  using counter_runs by (auto split: prod.splits sum.splits)

lemma store_credit_type_bypasses_policy:
  "\<exists>r x db'. complete_return counter_env 2 90 hand_back (cleared ''store_credit'' ''defective'') = (Inr (r, x), db') \<and>
     ''defective'' \<in> set store_credit_blocked_reasons \<and> bk_channel r = Some ''cash'' \<and> map fq_channel (rb_refunds db') = [''store_credit'']"
  using defective_run by (auto simp: store_credit_blocked_reasons_def split: prod.splits sum.splits)

lemma timely_others [simp]:
  "timely (Create_Step env tid rq) db" "timely (Approve_Step env tid rid d) db" "timely (Complete_Step env tid rid c) db"
  "timely (Resync_Step env tid rz) db" "timely (Retry_Step env) db"
  by (simp_all add: timely_def)

lemma opened_keyed: "keyed (opened ''refund'' ''damaged'')"
proof -
  have "keyed counter_db" by (simp add: keyed_def counter_db_def)
  then show ?thesis unfolding opened_def by (simp add: step_keyed del: return_step.simps)
qed

lemma cleared_keyed: "keyed (cleared ''refund'' ''damaged'')"
  unfolding cleared_def by (simp add: step_keyed opened_keyed del: return_step.simps)

theorem returns_follow_lifecycle_witness:
  "\<exists>r \<in> set (rb_returns (opened ''refund'' ''damaged'')). bk_status r = bs_pending \<and>
     (\<exists>r' \<in> set (rb_returns (run_returns [Approve_Step counter_env 2 90 yes, Complete_Step counter_env 2 90 hand_back]
        (opened ''refund'' ''damaged''))). same_goods r r' \<and> (bk_status r, bk_status r') \<in> return_moves\<^sup>*)"
proof -
  obtain r where r: "r \<in> set (rb_returns (opened ''refund'' ''damaged''))" "bk_status r = bs_pending"
    using opened_row by (cases "rb_returns (opened ''refund'' ''damaged'')") auto
  have "decisions_timely [Approve_Step counter_env 2 90 yes, Complete_Step counter_env 2 90 hand_back] (opened ''refund'' ''damaged'')"
    by (simp del: return_step.simps)
  from returns_follow_lifecycle [OF opened_keyed r(1) this] show ?thesis using r by blast
qed

theorem return_completed_once_witness:
  "\<exists>z db' e. complete_return counter_env 2 90 hand_back (cleared ''refund'' ''damaged'') = (Inr z, db') \<and>
     complete_return counter_env 2 90 hand_back (run_returns [Retry_Step counter_env] db') = (Inl e, run_returns [Retry_Step counter_env] db')"
proof -
  obtain r x db' where c: "complete_return counter_env 2 90 hand_back (cleared ''refund'' ''damaged'') = (Inr (r, x), db')"
    using counter_completed by metis
  then show ?thesis
    using return_completed_once [OF cleared_keyed c, of "[Retry_Step counter_env]" counter_env 2 hand_back]
    by (simp del: return_step.simps)
qed

theorem write_off_is_final_witness:
  "\<exists>r x db' r'. complete_return counter_env 2 90 hand_back (cleared ''refund'' ''damaged'') = (Inr (r, x), db') \<and>
     r' \<in> set (rb_returns (run_returns [Resync_Step counter_env 2 \<lparr>yq_ids = [90], yq_from = None, yq_to = None, yq_dry_run = False\<rparr>] db')) \<and>
     written_off r'"
proof -
  obtain r x db' where c: "complete_return counter_env 2 90 hand_back (cleared ''refund'' ''damaged'') = (Inr (r, x), db')"
    "written_off r" "rb_returns db' = [r]" using counter_completed by metis
  have "keyed db'" by (simp add: keyed_def c(3))
  then show ?thesis
    using write_off_is_final [of db' r "[Resync_Step counter_env 2 \<lparr>yq_ids = [90], yq_from = None, yq_to = None, yq_dry_run = False\<rparr>]"] c
    by auto
qed

theorem completed_channel_allowed_witness:
  "\<exists>r x db' channel. complete_return counter_env 2 90 hand_back (cleared ''refund'' ''damaged'') = (Inr (r, x), db') \<and>
     bk_channel r = Some channel \<and> channel \<noteq> []"
proof -
  obtain r x db' where c: "complete_return counter_env 2 90 hand_back (cleared ''refund'' ''damaged'') = (Inr (r, x), db')"
    using counter_completed by metis
  then show ?thesis using completed_channel_allowed [OF c] by blast
qed

theorem returns_within_sale_witness:
  "held_return_qty 60 False (rb_returns (run_returns [Create_Step counter_env 2 (back_request ''refund'' ''damaged'' 2),
       Approve_Step counter_env 2 90 yes, Complete_Step counter_env 2 90 hand_back,
       Create_Step (counter_env\<lparr>qe_return_id := 92, qe_fallback_number := ''RET-2''\<rparr>) 2 (back_request ''refund'' ''damaged'' 2)]
     counter_db)) 7 \<le> 4"
proof -
  have w: "whole 4" "whole 0" "whole 2" using whole_ofI [of 4 4] whole_ofI [of 0 0] whole_ofI [of 2 2] by simp_all
  obtain ol where ol: "po_lines sold_order = [ol]" "ol_id ol = 7" "ol_quantity ol = 4" "voided_of ol = 0"
    by (simp add: sold_order_def sample_order_def sample_line_def voided_of_def)
  have s: "sale_kept 2 60 [ol] counter_db"
    using ol(1) by (simp add: sale_kept_def order_of_def counter_db_def empty_store_def) (simp add: sold_order_def sample_order_def)
  show ?thesis
    using returns_within_sale [of counter_db 2 60 "[ol]" _ ol, OF _ s] w ol
    by (simp add: keyed_def counter_db_def sound_lines_def returns_fit_def returned_qty_def counter_request_def counter_env_def
        back_request_def back_line_def)
qed

definition swap_return :: sale_return where
  "swap_return = \<lparr>bk_id = 90, bk_tenant = 2, bk_outlet = 3, bk_order = 60, bk_number = ''RET-1'', bk_type = ''exchange'',
     bk_status = bs_approved, bk_reason = [], bk_code = None, bk_amount = 200, bk_exchange = None, bk_requested_by = 5,
     bk_approved_by = None, bk_channel = None, bk_refund_ref = None, bk_meta = [], bk_created_at = 0, bk_lines = []\<rparr>"

definition swap :: completion where
  "swap = hand_back\<lparr>zc_exchange := [(back_line 1)\<lparr>ri_sku := ''SKU'', ri_name := ''Soda'', ri_unit_price := 250\<rparr>]\<rparr>"

lemma swap_run:
  "case fulfil_exchange (counter_env\<lparr>qe_till := Some till_env\<rparr>) 2 swap_return swap counter_db of
     (Inr (Some x), db') \<Rightarrow> xr_total x = 250 \<and> xr_payable x = 50
   | _ \<Rightarrow> False"
  by code_simp

theorem exchange_balances_witness:
  "\<exists>x db'. fulfil_exchange (counter_env\<lparr>qe_till := Some till_env\<rparr>) 2 swap_return swap counter_db = (Inr (Some x), db') \<and>
     xr_payable x = 50 \<and> xr_credit x + xr_payable x = 250 \<and> xr_credit x + xr_leftover x = 200"
proof -
  obtain x db' where x: "fulfil_exchange (counter_env\<lparr>qe_till := Some till_env\<rparr>) 2 swap_return swap counter_db = (Inr (Some x), db')"
    "xr_total x = 250" "xr_payable x = 50"
    using swap_run by (auto split: prod.splits sum.splits option.splits)
  have a: "bk_amount swap_return = 200" by (simp add: swap_return_def)
  have "whole 200" "whole 250" using whole_ofI [of 200 200] whole_ofI [of 250 250] by simp_all
  then show ?thesis using exchange_balances [OF x(1)] x by (auto simp: a)
qed

section \<open>Requests that get past the rules\<close>

text \<open>
  An edit of the sale counts completed returns only: with two of four units on an open return it takes
  all four back, and both returns can be completed.
\<close>

lemma sale_edit_over_returns:
  "case create_return (counter_env\<lparr>qe_return_id := 92, qe_fallback_number := ''RET-2''\<rparr>) 2
      ((back_request ''refund'' [] 4)\<lparr>zr_bypass := True\<rparr>) (opened ''refund'' ''damaged'') of
     (Inr r, db') \<Rightarrow> held_return_qty 60 False (rb_returns db') 7 = 6
   | _ \<Rightarrow> False"
  by code_simp

text \<open>An approval decided on a pending row and written after the completion opens the return again.\<close>

lemma stale_approval_reopens:
  assumes "bk_status r = bs_pending" "bk_tenant r = 2" "rb_returns db = [done]" "bk_id done = bk_id r" "bk_status done = bs_completed"
  shows "\<exists>f. decide_return counter_env 2 yes r db0 = Inr f \<and>
    map bk_status (rb_returns (snd (approve_write counter_env (bk_id r) f db))) = [bs_approved]"
  using assms
  by (simp add: decide_return_def approve_write_def put_return_def counter_env_def yes_def refund_channel_ptr_def trim_space_def Let_def)

text \<open>
  The replacement is committed before the return: when the return cannot be saved it stays approved,
  the replacement stays in the store, and completing the return again creates another one.
\<close>

lemma failed_save_strands_replacement:
  assumes "fulfil_exchange env tid ret c db = (Inr (Some x), db1)" "\<not> qe_ok env Save_Return"
  shows "fst (finish_return env tid ret c a channel (Some x) db1) = Inl Return_Fault"
    "rb_store (snd (finish_return env tid ret c a channel (Some x) db1)) = rb_store db1"
    "rb_returns (snd (finish_return env tid ret c a channel (Some x) db1)) = rb_returns db"
proof -
  have "rb_returns db1 = rb_returns db" using fulfil_exchange_rows(1) [of env tid ret c db] assms(1) by simp
  moreover have "rb_store (snd (settle_return env tid ret a rs channel cr db1)) = rb_store db1" for rs cr
    by (simp add: settle_return_def Let_def split: option.split)
  ultimately show "fst (finish_return env tid ret c a channel (Some x) db1) = Inl Return_Fault"
    "rb_store (snd (finish_return env tid ret c a channel (Some x) db1)) = rb_store db1"
    "rb_returns (snd (finish_return env tid ret c a channel (Some x) db1)) = rb_returns db"
    using assms(2) by (simp_all add: finish_return_def Let_def)
qed

text \<open>
  A retry that cannot read the order's lines takes the return for one without fiscal lines: the pending
  credit note is marked as not needed and is not raised again.
\<close>

lemma read_fault_drops_credit_note:
  assumes "\<not> qe_ok env Load_Lines" "qe_ok env Begin_Return" "qe_ok env Load_Return" "qe_ok env Save_Return" "qe_ok env Commit_Return"
    "qe_ok env List_Returns" "qe_treasury env = Some tr" "rb_returns db = [r]" "note_pending r"
  shows "\<exists>r'. rb_returns (snd (retry_pending_credit_notes env db)) = [r'] \<and> bk_status r' = bs_completed \<and>
    meta_get (bk_meta r') ''fiscal_credit_note'' = Some (JStr ''not_needed'') \<and> \<not> note_pending r'"
proof -
  have "fiscal_refund_for env r d = []" for d using assms(1) by (simp add: fiscal_refund_for_def split: option.split)
  then show ?thesis using assms
    by (simp add: retry_pending_credit_notes_def retry_batch_def mark_fiscal_credit_note_def put_return_def note_pending_def)
qed

end
