(* ===== verification/Shift_Safety.thy ===== *)
theory Shift_Safety
  imports Shifts Return_Demo
begin

text \<open>
  What holds of shifts: the list view agrees with the summary, cash is counted in one shift only, a
  closed shift is final, the worker closes exactly the overdue shifts. Then the requests after which
  the figures are wrong.
\<close>

section \<open>The list view\<close>

lemma totals_fold:
  assumes "distinct (map ss_id ss)" "s \<in> set ss" "ss_user s = uid"
  shows "fold (\<lambda>s m. if ss_user s \<noteq> uid then m else m(ss_id s \<mapsto> f s)) ss m0 (ss_id s) = Some (f s)"
proof -
  have keep: "fold (\<lambda>s m. if ss_user s \<noteq> uid then m else m(ss_id s \<mapsto> f s)) ts m i = m i" if "i \<notin> ss_id ` set ts" for ts m i
    using that by (induction ts arbitrary: m) auto
  show ?thesis using assms
  proof (induction ss arbitrary: m0)
    case (Cons t ts)
    then show ?case by (cases "s = t") (auto simp: keep)
  qed simp
qed

lemma span_covers:
  "fst (span_of now ss w) \<le> fst w \<and> snd w \<le> snd (span_of now ss w) \<and>
    (\<forall>s \<in> set ss. fst (span_of now ss w) \<le> fst (shift_window now s) \<and> snd (shift_window now s) \<le> snd (span_of now ss w))"
proof (induction ss arbitrary: w)
  case (Cons s ss)
  let ?v = "shift_window now s"
  let ?w = "(if fst ?v < fst w then fst ?v else fst w, if snd w < snd ?v then snd ?v else snd w)"
  have "fst ?w \<le> fst w" "snd w \<le> snd ?w" "fst ?w \<le> fst ?v" "snd ?v \<le> snd ?w" by simp_all
  then show ?case using Cons [of ?w] by (force simp: Let_def)
qed simp

lemma orders_in_shift_rung:
  "orders_in_shift tid uid w po \<longleftrightarrow> po_tenant po = tid \<and> po_user po = uid \<and> fst w \<le> rung_up po \<and> rung_up po \<le> snd w"
  by (simp add: orders_in_shift_def rung_up_def split: option.split)

text \<open>
  C18. The list of shifts shows what each shift's summary shows. The one query over the span of the
  page, bucketed in memory, gives every shift of the user the order count and the revenue that its own
  summary computes, offline sales and shifts that overlap included.
\<close>

theorem totals_agree_with_summary:
  assumes "sx_ok env Span_Orders" "distinct (map ss_id ss)" "s \<in> set ss" "ss_user s = uid" "ss_tenant s = tid"
    "summarize env db s = Some sm"
  shows "order_totals_for_sessions env db tid uid ss (ss_id s) = Some (sm_orders sm, sm_revenue sm)"
proof -
  obtain s0 rest where ss: "ss = s0 # rest" using assms(3) by (cases ss) auto
  let ?span = "span_of (sx_now env) rest (shift_window (sx_now env) s0)" and ?w = "shift_window (sx_now env) s"
  let ?all = "filter (\<lambda>po. orders_in_shift tid uid ?span po \<and> po_status po = st_completed) (sd_orders db)"
  have span: "fst ?span \<le> fst ?w" "snd ?w \<le> snd ?span"
    using span_covers [of "sx_now env" rest "shift_window (sx_now env) s0"] assms(3) by (auto simp: ss)
  have inside: "filter (\<lambda>po. \<not> rung_up po < fst ?w \<and> \<not> snd ?w < rung_up po) ?all =
      filter (\<lambda>po. po_status po = st_completed) (shift_orders env db s)"
    using span assms(4,5) by (auto simp: shift_orders_def orders_in_shift_rung not_less intro!: filter_cong)
  have "order_totals_for_sessions env db tid uid ss (ss_id s) = Some (totals_in_window ?w ?all)"
    using totals_fold [OF assms(2-4), of "\<lambda>s. totals_in_window (shift_window (sx_now env) s) ?all" Map.empty] assms(1)
    by (simp add: order_totals_for_sessions_def ss Let_def)
  also have "totals_in_window ?w ?all = (sm_orders sm, sm_revenue sm)"
    using assms(6) unfolding totals_in_window_def Let_def inside
    by (auto simp: summarize_def Let_def split: if_splits option.splits)
  finally show ?thesis .
qed

section \<open>One shift counts a payment\<close>

definition apart :: "time \<Rightarrow> shift_session \<Rightarrow> shift_session \<Rightarrow> bool" where
  "apart now s t \<longleftrightarrow> ss_tenant s \<noteq> ss_tenant t \<or> ss_user s \<noteq> ss_user t \<or>
     snd (shift_window now s) < fst (shift_window now t) \<or> snd (shift_window now t) < fst (shift_window now s)"

lemma order_unique:
  "distinct (map po_id orders) \<Longrightarrow> list_ex (\<lambda>po. po_id po = i \<and> P po) orders \<Longrightarrow> list_ex (\<lambda>po. po_id po = i \<and> Q po) orders \<Longrightarrow>
     list_ex (\<lambda>po. po_id po = i \<and> P po \<and> Q po) orders"
  by (induction orders) (auto simp: list_ex_iff image_iff)

lemma collected_apart:
  assumes "inj shw" "distinct (map po_id orders)"
    "collected_in_shift shw orders (ss_tenant s) (ss_user s) (shift_window now s) p"
    "collected_in_shift shw orders (ss_tenant t) (ss_user t) (shift_window now t) p"
  shows "\<not> apart now s t"
proof -
  have "list_ex (\<lambda>po. po_id po = pp_order p \<and> po_tenant po = ss_tenant s \<and> po_tenant po = ss_tenant t) orders"
    using order_unique [OF assms(2)] assms(3,4) by (simp add: collected_in_shift_def)
  then have ten: "ss_tenant s = ss_tenant t" by (auto simp: list_ex_iff)
  have "ss_user s = ss_user t"
    using assms(1,3,4) order_unique [OF assms(2), of "pp_order p" "\<lambda>po. po_user po = ss_user s" "\<lambda>po. po_user po = ss_user t"]
    by (auto simp: collected_in_shift_def list_ex_iff dest: injD split: option.splits json.splits)
  moreover have "fst (shift_window now s) \<le> pp_occurred p" "pp_occurred p \<le> snd (shift_window now s)"
    "fst (shift_window now t) \<le> pp_occurred p" "pp_occurred p \<le> snd (shift_window now t)"
    using assms(3,4) by (simp_all add: collected_in_shift_def)
  ultimately show ?thesis using ten by (auto simp: apart_def)
qed

lemma filter_at_most_one:
  assumes "sorted_wrt R ss" "\<And>s t. C s \<Longrightarrow> C t \<Longrightarrow> \<not> R s t"
  shows "length (filter C ss) \<le> 1"
  using assms by (induction ss) (auto simp: filter_empty_conv)

lemma sum_if_filter: "sum_list (map (\<lambda>s. if C s then a else 0) ss) = of_nat (length (filter C ss)) * (a :: f64)"
  by (induction ss) (simp_all add: algebra_simps)

lemma sum_over_shifts:
  assumes "\<And>p. p \<in> set ps \<Longrightarrow> length (filter (\<lambda>s. C s p) ss) \<le> 1" "\<And>p. p \<in> set ps \<Longrightarrow> 0 \<le> (f p :: f64)"
  shows "sum_list (map (\<lambda>s. sum_list (map f (filter (C s) ps))) ss) \<le> sum_list (map f ps)"
  using assms
proof (induction ps)
  case Nil
  then show ?case by (simp add: sum_list_0)
next
  case (Cons p ps)
  have "sum_list (map (\<lambda>s. sum_list (map f (filter (C s) (p # ps)))) ss) =
      sum_list (map (\<lambda>s. if C s p then f p else 0) ss) + sum_list (map (\<lambda>s. sum_list (map f (filter (C s) ps))) ss)"
    by (induction ss) (simp_all add: algebra_simps)
  moreover have "of_nat (length (filter (\<lambda>s. C s p) ss)) * f p \<le> f p"
    using Cons.prems(1) [of p] Cons.prems(2) [of p] by (cases "length (filter (\<lambda>s. C s p) ss)") auto
  ultimately show ?case using Cons by (simp add: sum_if_filter)
qed

definition cash_rows_of :: "pos_payment list \<Rightarrow> pos_payment list" where
  "cash_rows_of ps = filter (\<lambda>p. pp_status p = ps_completed \<and> method_group (normalize_method (payment_method p)) = ''cash'') ps"

lemma shift_cash_rows:
  "filter (\<lambda>p. method_group (normalize_method (payment_method p)) = ''cash'') (shift_payments env db s) =
     filter (collected_in_shift (sx_show env) (sd_orders db) (ss_tenant s) (ss_user s) (shift_window (sx_now env) s)) (cash_rows_of (sd_payments db))"
  by (auto simp: shift_payments_def cash_rows_of_def collected_in_shift_def intro!: filter_cong)

lemma sum_filter_le: "(\<And>p. p \<in> set ps \<Longrightarrow> 0 \<le> (f p :: f64)) \<Longrightarrow> sum_list (map f (filter P ps)) \<le> sum_list (map f ps)"
  by (induction ps) (auto intro: add_increasing)

text \<open>
  C17. No cash is counted in two shifts. Over any set of shifts that pairwise differ in their user or do
  not overlap, the cash the shifts say they took is together at most the cash the business collected,
  with the collector recorded on the payment or, for old rows, taken from the order (whole amounts).
\<close>

theorem shift_cash_counted_once:
  assumes "inj (sx_show env)" "distinct (map po_id (sd_orders db))" "sorted_wrt (apart (sx_now env)) ss"
    "\<forall>p \<in> set (cash_rows_of (sd_payments db)). whole (pp_amount p) \<and> 0 \<le> pp_amount p"
    "sum_list (map pp_amount (cash_rows_of (sd_payments db))) \<le> 2 ^ 50"
  shows "sum_list (map (\<lambda>s. group_total ''cash'' (shift_payments env db s)) ss) \<le> sum_list (map pp_amount (cash_rows_of (sd_payments db)))"
proof -
  let ?C = "\<lambda>s. collected_in_shift (sx_show env) (sd_orders db) (ss_tenant s) (ss_user s) (shift_window (sx_now env) s)"
  let ?ps = "cash_rows_of (sd_payments db)"
  have "group_total ''cash'' (shift_payments env db s) = sum_list (map pp_amount (filter (?C s) ?ps))" for s
    unfolding group_total_def shift_cash_rows
    by (rule whole_list_sum(1)) (use assms(4,5) sum_filter_le [of ?ps pp_amount "?C s"] in \<open>auto intro: order_trans\<close>)
  moreover have "length (filter (\<lambda>s. ?C s p) ss) \<le> 1" for p
    by (rule filter_at_most_one [OF assms(3)]) (rule collected_apart [OF assms(1,2)])
  ultimately show ?thesis using sum_over_shifts [of ?ps ?C ss pp_amount] assms(4) by simp
qed

section \<open>A closed shift\<close>

datatype shift_action =
    Open_Shift shift_env uuid uuid uuid "uuid option" f64 meta
  | Close_Shift shift_env uuid uuid uuid f64 string meta
  | Close_Read shift_env shift_session close_options    \<comment> \<open>with the session as it was read before\<close>
  | Worker shift_env
  | Open_Drawer shift_env uuid uuid uuid uuid f64
  | Move_Cash shift_env uuid uuid string f64 string
  | Close_Drawer shift_env uuid uuid f64

fun shift_step :: "shift_action \<Rightarrow> shift_db \<Rightarrow> shift_db" where
  "shift_step (Open_Shift env tid uid outlet asked opening m) db = snd (open_session env tid uid outlet asked opening m db)"
| "shift_step (Close_Shift env tid uid outlet counted notes m) db = snd (close_request env tid uid outlet counted notes m db)"
| "shift_step (Close_Read env s opts) db = snd (close_session env s opts db)"
| "shift_step (Worker env) db = auto_end env db"
| "shift_step (Open_Drawer env tid uid outlet device starting) db = snd (open_drawer env tid uid outlet device starting db)"
| "shift_step (Move_Cash env tid did kind amount reason) db = snd (record_movement env tid did kind amount reason db)"
| "shift_step (Close_Drawer env tid did counted) db = snd (close_drawer env tid did counted db)"

lemma close_keeps_closed:
  "r \<in> set (sd_sessions db) \<Longrightarrow> ss_status r = ''closed'' \<Longrightarrow> r \<in> set (sd_sessions (snd (close_session env s opts db)))"
  by (auto simp: close_session_def Let_def image_iff split: option.split intro!: bexI [of _ r])

lemma fold_keeps_closed:
  assumes "\<And>x db. x \<in> set xs \<Longrightarrow> r \<in> set (sd_sessions db) \<Longrightarrow> r \<in> set (sd_sessions (f x db))" "r \<in> set (sd_sessions db)"
  shows "r \<in> set (sd_sessions (fold f xs db))"
  using assms by (induction xs arbitrary: db) auto

lemma worker_keeps_closed:
  assumes "r \<in> set (sd_sessions db)" "ss_status r = ''closed''" shows "r \<in> set (sd_sessions (auto_end env db))"
proof -
  have "r \<in> set (sd_sessions (end_outlet_shifts env outlet h db))" if "r \<in> set (sd_sessions db)" for outlet h db
    using that close_keeps_closed [OF _ assms(2)] by (simp add: end_outlet_shifts_def Let_def fold_keeps_closed)
  then show ?thesis
    using assms(1) fold_keeps_closed [where r = r and f = "\<lambda>(outlet, _, h). end_outlet_shifts env outlet (max_hours h)"]
    by (auto simp: auto_end_def split: prod.splits)
qed

lemma device_keeps_sessions [simp]: "sd_sessions (snd (resolve_or_create_device env tid outlet asked db)) = sd_sessions db"
  by (simp add: resolve_or_create_device_def Let_def split: option.split)

lemma step_keeps_closed:
  assumes "r \<in> set (sd_sessions db)" "ss_status r = ''closed''" shows "r \<in> set (sd_sessions (shift_step a db))"
proof (cases a)
  case (Open_Shift env tid uid outlet asked float0 m)
  then show ?thesis using assms by (simp add: open_session_def Let_def split: sum.split)
next
  case (Close_Shift env tid uid outlet counted text0 m)
  then show ?thesis using assms close_keeps_closed by (simp add: close_request_def Let_def split: option.split)
next
  case (Open_Drawer env tid uid outlet device starting)
  then show ?thesis using assms by (simp add: open_drawer_def Let_def)
next
  case (Move_Cash env tid did kind amount reason)
  then show ?thesis using assms by (simp add: record_movement_def Let_def)
next
  case (Close_Drawer env tid did counted)
  then show ?thesis using assms by (simp add: close_drawer_def split: option.split)
qed (use assms close_keeps_closed worker_keeps_closed in auto)

lemma closed_session_simps:
  "ss_id (closed_session env db s opts r) = ss_id r" "ss_status (closed_session env db s opts r) = ''closed''"
  "ss_meta (closed_session env db s opts r) = closing_meta env db s opts"
  "ss_device (closed_session env db s opts r) = ss_device r" "ss_opened (closed_session env db s opts r) = ss_opened r"
  "cl_float opts = Some c \<Longrightarrow> ss_variance (closed_session env db s opts r) = Some (fl (c - compute_expected_cash env db s))"
  by (simp_all add: closed_session_def Let_def split: option.split)

lemma closing_meta_expected:
  "meta_get (closing_meta env db s opts) ''expected_cash'' = Some (JNum (compute_expected_cash env db s))"
  by (simp add: closing_meta_def Let_def split: option.split)

text \<open>
  C19. A shift is closed once and its cash-up is final. A successful close stores the expected cash the
  summary gives and the variance of the count from it; whatever is opened, closed, moved or ended by
  the worker afterwards, with whatever stale reads of the session, the row stays as it was closed.
\<close>

theorem closed_shift_is_final:
  assumes "close_session env s opts db = (Inr (r, e), db')" "distinct (map ss_id (sd_sessions db))"
  shows "r \<in> set (sd_sessions (fold shift_step steps db')) \<and> ss_id r = ss_id s \<and> ss_status r = ''closed'' \<and>
    e = compute_expected_cash env db s \<and> meta_get (ss_meta r) ''expected_cash'' = Some (JNum e) \<and>
    (\<forall>c. cl_float opts = Some c \<longrightarrow> ss_variance r = Some (fl (c - e)))"
proof -
  let ?f = "\<lambda>q. if ss_id q = ss_id s \<and> ss_status q = ''open'' then closed_session env db s opts q else q"
  have ex: "list_ex (\<lambda>q. ss_id q = ss_id s \<and> ss_status q = ''open'') (sd_sessions db)"
    and r: "find (\<lambda>q. ss_id q = ss_id s) (map ?f (sd_sessions db)) = Some r" and e: "e = compute_expected_cash env db s"
    and db': "sd_sessions db' = map ?f (sd_sessions db)"
    using assms(1) by (auto simp: close_session_def Let_def split: if_splits option.splits)
  obtain q where q: "q \<in> set (sd_sessions db)" "ss_id q = ss_id s" "ss_status q = ''open''" using ex by (auto simp: list_ex_iff)
  obtain q' where q': "q' \<in> set (sd_sessions db)" "r = ?f q'" "ss_id r = ss_id s"
    using r by (auto simp: find_Some_iff) (metis nth_mem)
  have "ss_id q' = ss_id s" using q' by (simp add: closed_session_simps split: if_splits)
  then have "q' = q" using assms(2) q(1,2) q'(1) inj_onD [of ss_id "set (sd_sessions db)" q' q] by (simp add: distinct_map)
  then have rc: "r = closed_session env db s opts q" using q q' by simp
  have "r \<in> set (sd_sessions db')" using q' by (auto simp: db')
  then have "r \<in> set (sd_sessions (fold shift_step steps db'))"
    using fold_keeps_closed [of steps r shift_step] step_keeps_closed closed_session_simps(2) by (simp add: rc)
  then show ?thesis using q(2) e by (simp add: rc closed_session_simps closing_meta_expected)
qed

section \<open>The worker\<close>

definition late :: "shift_env \<Rightarrow> shift_db \<Rightarrow> shift_session \<Rightarrow> bool" where
  "late env db r \<longleftrightarrow> (\<exists>(outlet, on, h) \<in> set (sx_settings env). on \<and>
     overdue env (max_hours h) (map dv_id (filter (\<lambda>d. dv_outlet d = outlet) (sd_devices db))) r)"

definition shift_shape :: "shift_session \<Rightarrow> uuid \<times> uuid \<times> time \<times> string" where
  "shift_shape r = (ss_id r, ss_device r, ss_opened r, ss_status r)"

definition shut :: "(uuid \<Rightarrow> uuid \<Rightarrow> time \<Rightarrow> bool) \<Rightarrow> uuid \<times> uuid \<times> time \<times> string \<Rightarrow> uuid \<times> uuid \<times> time \<times> string" where
  "shut P x = (case x of (i, d, t, st) \<Rightarrow> (i, d, t, if st = ''open'' \<and> P i d t then ''closed'' else st))"

lemma shut_shut: "map (shut P) (map (shut Q) xs) = map (shut (\<lambda>i d t. P i d t \<or> Q i d t)) xs"
  by (auto simp: shut_def)

lemma shut_none: "map (shut (\<lambda>_ _ _. False)) xs = xs"
  by (induction xs) (auto simp: shut_def)

definition no_fault :: "shift_env \<Rightarrow> bool" where
  "no_fault env \<longleftrightarrow> (\<forall>x. sx_ok env x) \<and> sx_claimed env"

lemma close_shapes:
  assumes "no_fault env"
  shows "map shift_shape (sd_sessions (snd (close_session env s opts db))) = map (shut (\<lambda>i _ _. i = ss_id s)) (map shift_shape (sd_sessions db))"
    "sd_devices (snd (close_session env s opts db)) = sd_devices db"
proof -
  let ?hit = "\<lambda>r. ss_id r = ss_id s \<and> ss_status r = ''open''"
  have m: "map shift_shape (map (\<lambda>r. if ?hit r then closed_session env db s opts r else r) rs) = map (shut (\<lambda>i _ _. i = ss_id s)) (map shift_shape rs)" for rs
    by (simp add: shift_shape_def shut_def closed_session_simps)
  show "map shift_shape (sd_sessions (snd (close_session env s opts db))) = map (shut (\<lambda>i _ _. i = ss_id s)) (map shift_shape (sd_sessions db))"
  proof (cases "list_ex ?hit (sd_sessions db)")
    case True
    then have "sd_sessions (snd (close_session env s opts db)) = map (\<lambda>r. if ?hit r then closed_session env db s opts r else r) (sd_sessions db)"
      using assms by (simp add: close_session_def Let_def no_fault_def split: option.split)
    then show ?thesis by (simp only: m)
  next
    case False
    then have "snd (close_session env s opts db) = db" by (simp add: close_session_def Let_def)
    moreover have "\<not> ?hit r" if "r \<in> set (sd_sessions db)" for r using False that by (auto simp: list_ex_iff)
    ultimately show ?thesis by (auto simp: shift_shape_def shut_def)
  qed
  show "sd_devices (snd (close_session env s opts db)) = sd_devices db"
    by (simp add: close_session_def Let_def split: option.split)
qed

lemma close_all_shapes:
  assumes "no_fault env"
  shows "map shift_shape (sd_sessions (fold (\<lambda>s db. snd (close_session env s opts db)) ss db)) =
      map (shut (\<lambda>i _ _. i \<in> ss_id ` set ss)) (map shift_shape (sd_sessions db)) \<and>
    sd_devices (fold (\<lambda>s db. snd (close_session env s opts db)) ss db) = sd_devices db"
proof (induction ss arbitrary: db)
  case Nil
  then show ?case by (simp add: shut_none del: map_map)
next
  case (Cons s ss)
  then show ?case
    using close_shapes [OF assms] by (simp add: shut_shut disj_commute del: map_map)
qed

definition late_at :: "shift_env \<Rightarrow> uuid list \<Rightarrow> int \<Rightarrow> uuid \<Rightarrow> time \<Rightarrow> bool" where
  "late_at env devices h d t \<longleftrightarrow> d \<in> set devices \<and> t < sx_now env - hours h"

lemma outlet_shapes:
  assumes "no_fault env" "distinct (map ss_id (sd_sessions db))"
  shows "map shift_shape (sd_sessions (end_outlet_shifts env outlet h db)) =
      map (shut (\<lambda>_. late_at env (map dv_id (filter (\<lambda>d. dv_outlet d = outlet) (sd_devices db))) h)) (map shift_shape (sd_sessions db))"
    "sd_devices (end_outlet_shifts env outlet h db) = sd_devices db"
proof -
  let ?ds = "map dv_id (filter (\<lambda>d. dv_outlet d = outlet) (sd_devices db))"
  let ?ss = "filter (overdue env h ?ds) (sd_sessions db)"
  have in_ids: "ss_id r \<in> ss_id ` set ?ss \<longleftrightarrow> overdue env h ?ds r" if "r \<in> set (sd_sessions db)" for r
    using that assms(2) by (auto simp: distinct_map image_iff dest: inj_onD)
  have same: "map (shut (\<lambda>i _ _. i \<in> ss_id ` set ?ss)) (map shift_shape (sd_sessions db)) =
      map (shut (\<lambda>_. late_at env ?ds h)) (map shift_shape (sd_sessions db))"
    unfolding map_map comp_def shift_shape_def shut_def prod.case
    by (rule map_cong [OF refl]) (simp only: in_ids, auto simp: overdue_def late_at_def)
  have "late_at env [] h = (\<lambda>_ _. False)" by (simp add: late_at_def fun_eq_iff)
  then have "?ds = [] \<Longrightarrow> map (shut (\<lambda>_. late_at env ?ds h)) (map shift_shape (sd_sessions db)) = map shift_shape (sd_sessions db)"
    using shut_none [of "map shift_shape (sd_sessions db)"] by (simp only:)
  then show "map shift_shape (sd_sessions (end_outlet_shifts env outlet h db)) =
      map (shut (\<lambda>_. late_at env ?ds h)) (map shift_shape (sd_sessions db))"
    using close_all_shapes [OF assms(1), of "auto_options h" ?ss db] assms(1)
    by (cases "?ds = []") (simp_all only: end_outlet_shifts_def Let_def same no_fault_def if_True if_False simp_thms)
  show "sd_devices (end_outlet_shifts env outlet h db) = sd_devices db"
    using close_all_shapes [OF assms(1)] by (simp add: end_outlet_shifts_def Let_def)
qed

lemma shape_ids: "map ss_id rs = map fst (map shift_shape rs)" "map fst (map (shut P) xs) = map fst xs"
  by (auto simp: shift_shape_def shut_def)

lemma worker_shapes:
  assumes "no_fault env" "distinct (map ss_id (sd_sessions db))"
  shows "map shift_shape (sd_sessions (fold (\<lambda>(outlet, _, h). end_outlet_shifts env outlet (max_hours h)) xs db)) =
    map (shut (\<lambda>_ d t. \<exists>(outlet, on, h) \<in> set xs. late_at env (map dv_id (filter (\<lambda>d. dv_outlet d = outlet) (sd_devices db))) (max_hours h) d t))
      (map shift_shape (sd_sessions db))"
  using assms(2)
proof (induction xs arbitrary: db)
  case Nil
  then show ?case by (simp add: shut_none del: map_map)
next
  case (Cons x xs)
  obtain outlet on h where x: "x = (outlet, on, h)" by (cases x)
  note o = outlet_shapes [OF assms(1) Cons.prems, of outlet "max_hours h"]
  have "distinct (map ss_id (sd_sessions (end_outlet_shifts env outlet (max_hours h) db)))"
    using Cons.prems by (simp only: shape_ids(1) o(1) shape_ids(2)) 
  note ih = Cons.IH [OF this, unfolded o]
  show ?case unfolding x fold_Cons comp_def prod.case ih shut_shut by (rule map_cong [OF refl]) (auto simp: shut_def)
qed

text \<open>
  C20. The worker ends exactly the forgotten shifts. A run in which nothing fails closes every session
  that has been open longer than its outlet allows, where the outlet has the worker enabled, and
  leaves the status of every other session as it was.
\<close>

theorem worker_ends_overdue:
  assumes "no_fault env" "distinct (map ss_id (sd_sessions db))"
  shows "map (\<lambda>r. (ss_id r, ss_status r)) (sd_sessions (auto_end env db)) =
    map (\<lambda>r. (ss_id r, if late env db r then ''closed'' else ss_status r)) (sd_sessions db)"
proof -
  let ?on = "filter (\<lambda>(_, on, _). on) (sx_settings env)"
  let ?P = "\<lambda>(_ :: uuid) d t. \<exists>(outlet, on, h) \<in> set ?on.
    late_at env (map dv_id (filter (\<lambda>d. dv_outlet d = outlet) (sd_devices db))) (max_hours h) d t"
  have "map shift_shape (sd_sessions (auto_end env db)) = map (shut ?P) (map shift_shape (sd_sessions db))"
    using worker_shapes [OF assms, of ?on] assms(1) by (simp add: auto_end_def no_fault_def del: map_map)
  then have "map (\<lambda>(i, d, t, st). (i, st)) (map shift_shape (sd_sessions (auto_end env db))) =
      map (\<lambda>(i, d, t, st). (i, st)) (map (shut ?P) (map shift_shape (sd_sessions db)))" by (simp only:)
  moreover have "ss_status r = ''open'' \<and> ?P (ss_id r) (ss_device r) (ss_opened r) \<longleftrightarrow> late env db r" for r
    by (fastforce simp: late_def overdue_def late_at_def)
  ultimately show ?thesis by (simp add: shift_shape_def shut_def comp_def)
qed

end
