(* ===== verification/Shift_Demo.thy ===== *)
theory Shift_Demo
  imports Shift_Safety
begin

text \<open>The properties of shifts at a concrete desk, and the requests after which the figures are wrong.\<close>

section \<open>A desk\<close>

definition desk_env :: shift_env where
  "desk_env = \<lparr>sx_ok = (\<lambda>_. True), sx_now = hours 100, sx_show = (\<lambda>i. replicate i CHR ''x''), sx_client = None, sx_session_id = 9,
     sx_device_id = 8, sx_drawer_id = 7, sx_device_limit = (\<lambda>_. True), sx_settings = [(3, True, 0)], sx_claimed = True\<rparr>"

definition morning :: shift_session where
  "morning = \<lparr>ss_id = 1, ss_tenant = 2, ss_device = 4, ss_user = 5, ss_status = ''open'', ss_opened = 0, ss_closed = None,
     ss_float = 500, ss_closing = None, ss_variance = None, ss_notes = [], ss_meta = []\<rparr>"

definition evening :: shift_session where
  "evening = morning\<lparr>ss_id := 2, ss_user := 6, ss_opened := hours 95\<rparr>"

definition cash_row :: pos_payment where
  "cash_row = \<lparr>pp_id = 1, pp_order = 60, pp_tender = 0, pp_amount = 100, pp_currency = ''KES'', pp_status = ps_completed,
     pp_reference = None, pp_data = [(''method'', JStr ''cash'')], pp_occurred = hours 96\<rparr>"

definition desk_db :: shift_db where
  "desk_db = \<lparr>sd_sessions = [morning, evening], sd_devices = [\<lparr>dv_id = 4, dv_tenant = 2, dv_outlet = 3, dv_type = ''web_terminal''\<rparr>],
     sd_orders = [sold_order], sd_payments = [cash_row], sd_refunds = [], sd_returns = [], sd_held = [], sd_drawers = [], sd_movements = []\<rparr>"

lemma desk_simps [simp]:
  "sx_ok desk_env x" "sx_claimed desk_env" "no_fault desk_env" "sx_settings desk_env = [(3, True, 0)]" "sx_now desk_env = hours 100"
  "sd_sessions desk_db = [morning, evening]" "sd_orders desk_db = [sold_order]" "sd_payments desk_db = [cash_row]"
  "ss_id morning = 1" "ss_user morning = 5" "ss_tenant morning = 2" "ss_status morning = ''open''"
  "ss_id evening = 2" "ss_user evening = 6" "ss_tenant evening = 2" "ss_status evening = ''open''"
  by (simp_all add: desk_env_def desk_db_def morning_def evening_def no_fault_def)

lemma desk_show_inj: "inj (sx_show desk_env)"
  by (auto simp: desk_env_def inj_def dest: arg_cong [where f = length])

lemma summary_exists: "no_fault env \<Longrightarrow> \<exists>sm. summarize env db s = Some sm"
  by (simp add: summarize_def cash_returns_completed_def no_fault_def Let_def)

theorem totals_agree_with_summary_witness:
  "\<exists>sm. summarize desk_env desk_db morning = Some sm \<and>
     order_totals_for_sessions desk_env desk_db 2 5 [morning, evening] 1 = Some (sm_orders sm, sm_revenue sm)"
proof -
  obtain sm where s: "summarize desk_env desk_db morning = Some sm" using summary_exists [of desk_env] by auto
  then show ?thesis using totals_agree_with_summary [OF _ _ _ _ _ s, of "[morning, evening]" 5 2] by simp
qed

lemma cash_row_counts: "cash_rows_of [cash_row] = [cash_row]"
proof -
  have "method_group (normalize_method (payment_method cash_row)) = ''cash''" by code_simp
  then show ?thesis by (simp add: cash_rows_of_def cash_row_def)
qed

theorem shift_cash_counted_once_witness:
  "sum_list (map (\<lambda>s. group_total ''cash'' (shift_payments desk_env desk_db s)) [morning, evening]) \<le> 100"
proof -
  have w: "whole 100" using whole_ofI [of 100 100] by simp
  then have "whole (pp_amount cash_row) \<and> 0 \<le> pp_amount cash_row \<and> pp_amount cash_row = 100" by (simp add: cash_row_def)
  then show ?thesis
    using w shift_cash_counted_once [of desk_env desk_db "[morning, evening]", OF desk_show_inj] by (simp add: cash_row_counts apart_def)
qed

definition count_up :: close_options where
  "count_up = \<lparr>cl_float = Some 600, cl_notes = [], cl_meta = []\<rparr>"

lemma desk_close: "\<exists>r e db'. close_session desk_env morning count_up desk_db = (Inr (r, e), db')"
  by (simp add: close_session_def closed_session_simps Let_def)

theorem closed_shift_is_final_witness:
  "\<exists>r e db'. close_session desk_env morning count_up desk_db = (Inr (r, e), db') \<and>
     r \<in> set (sd_sessions (fold shift_step [Worker desk_env, Close_Read desk_env morning count_up] db')) \<and> ss_variance r = Some (fl (600 - e))"
proof -
  obtain r e db' where c: "close_session desk_env morning count_up desk_db = (Inr (r, e), db')" using desk_close by blast
  then show ?thesis
    using closed_shift_is_final [OF c, of "[Worker desk_env, Close_Read desk_env morning count_up]"] by (auto simp: count_up_def)
qed

theorem worker_ends_overdue_witness:
  "map (\<lambda>r. (ss_id r, ss_status r)) (sd_sessions (auto_end desk_env desk_db)) = [(1, ''closed''), (2, ''open'')]"
proof -
  have "late desk_env desk_db morning" "\<not> late desk_env desk_db evening"
    by (auto simp: late_def overdue_def max_hours_def hours_def desk_db_def morning_def evening_def)
  then show ?thesis using worker_ends_overdue [of desk_env desk_db] by simp
qed

section \<open>Figures that are wrong\<close>

text \<open>Nothing keeps a user from opening a second shift: both count the same cash.\<close>

lemma second_shift_counts_cash_twice:
  "\<exists>s db'. open_session desk_env 2 5 3 None 500 [] desk_db = (Inr s, db') \<and> ss_user s = ss_user morning \<and>
     ss_status s = ''open'' \<and> morning \<in> set (sd_sessions db') \<and> s \<in> set (sd_sessions db') \<and>
     (\<forall>shw orders now p. hours 100 \<le> pp_occurred p \<longrightarrow>
        collected_in_shift shw orders 2 5 (shift_window now s) p = collected_in_shift shw orders 2 5 (shift_window now morning) p)"
proof -
  have "web_terminal desk_env desk_db 2 3 = Some 4" by (simp add: web_terminal_def desk_db_def)
  then have "resolve_or_create_device desk_env 2 3 None desk_db = (Inr 4, desk_db)" by (simp add: resolve_or_create_device_def)
  then show ?thesis
    by (simp add: open_session_def new_session_def Let_def)
      (simp add: desk_env_def collected_in_shift_def shift_window_def morning_def hours_def)
qed

text \<open>
  A return settled in store credit although its row says cash carries no paid-out amount, so the shift
  takes its whole value for cash handed back.
\<close>

lemma store_credit_counts_as_cash:
  assumes "meta_get (bk_meta ret) ''cash_paid_out'' = None" "bk_type ret = ''store_credit''" "bk_type r = bk_type ret"
    "bk_meta r = completion_meta env ret c restock ''store_credit'' paid note"
  shows "direct_cash r = [bk_amount r]"
proof -
  have "meta_get (bk_meta r) ''cash_paid_out'' = None"
    using assms(1) by (simp add: assms(4) completion_meta_def Let_def)
  then show ?thesis using assms(2,3) by (simp add: direct_cash_def cash_paid_out_def)
qed

text \<open>The drawer's expected cash knows its movements only: the cash of the sales shows as a surplus.\<close>

lemma drawer_ignores_sales: "count_drawer env d counted (db\<lparr>sd_payments := ps\<rparr>) = count_drawer env d counted db"
  by (simp add: count_drawer_def)

text \<open>A drawer that was closed is closed again, with another count, and takes movements.\<close>

lemma closed_drawer_reopens_count:
  assumes "no_fault env" "find (\<lambda>d. dw_id d = did \<and> dw_tenant d = tid) (sd_drawers db) = Some d" "dw_status d = ''closed''"
  shows "\<exists>k db'. close_drawer env tid did counted db = (Inr k, db') \<and>
      find (\<lambda>d. dw_id d = did \<and> dw_tenant d = tid) (sd_drawers db') =
        Some (d\<lparr>dw_ending := Some counted, dw_status := ''closed'', dw_closed := Some (sx_now env)\<rparr>)"
    "\<exists>e db'. record_movement env tid did ''pay_out'' 50 ''x'' db = (Inr e, db')"
proof -
  let ?f = "\<lambda>x. if dw_id x = did then x\<lparr>dw_ending := Some counted, dw_status := ''closed'', dw_closed := Some (sx_now env)\<rparr> else (x :: cash_drawer)"
  have "dw_id d = did" using assms(2) by (auto simp: find_Some_iff)
  moreover have "find (\<lambda>d. dw_id d = did \<and> dw_tenant d = tid) (map ?f xs) = map_option ?f (find (\<lambda>d. dw_id d = did \<and> dw_tenant d = tid) xs)" for xs
    by (rule find_map_same) simp
  ultimately show "\<exists>k db'. close_drawer env tid did counted db = (Inr k, db') \<and>
      find (\<lambda>d. dw_id d = did \<and> dw_tenant d = tid) (sd_drawers db') =
        Some (d\<lparr>dw_ending := Some counted, dw_status := ''closed'', dw_closed := Some (sx_now env)\<rparr>)"
    using assms by (simp add: close_drawer_def find_drawer_def no_fault_def)
  show "\<exists>e db'. record_movement env tid did ''pay_out'' 50 ''x'' db = (Inr e, db')"
    using assms by (simp add: record_movement_def movement_types_def find_drawer_def no_fault_def Let_def)
qed

end
