(* ===== verification/Spec2Isabelle.thy ===== *)
theory Spec2Isabelle
  imports Outlet_Policy Doc_Sequence Order_Channel Order_Totals Order_Status Kds_Route Kds_Tickets Settlement
    Line_Changes Ar_Safety Promo_Orders Shift_Demo
begin

text \<open>
  A verification library for pos-api, the point-of-sale service under \<open>src/\<close> (Go). The service keeps
  the orders of the outlets of many tenants: tills open and correct orders, the kitchen board works
  their tickets, payments settle them, and other services (treasury, inventory, loyalty) are told about
  the sale. The library models the business core in \<open>src/internal/modules\<close> and the handlers of
  \<open>src/internal/http/handlers\<close> that carry rules of their own.

  How the parts interact. An order gets its number from a document sequence, the variants, taxes and
  happy-hour savings of its lines from inventory, treasury and the promotions, its totals from the line
  operations, its kitchen tickets from the station router; a service order carries a job header. Its status moves along the transition table
  by requests, by the kitchen board and by payments. A payment is inserted, the paid total is summed
  again, and the order is claimed for completion by one conditional update, which hands it to the work
  after a sale. Corrections void or edit payments and may reopen an order. Treasury calls back with
  confirmed intents and with customer balances, to which the open credit orders are reconciled. A return
  takes lines of a sale back, is settled through treasury or swapped for a new order, and inventory
  reports where the goods went. Shifts count the orders, cash payments and cash refunds of their user.

  The theories, and the code they model.

  \<^item> \<open>Go_Float\<close>, \<open>Go_Prelude\<close>, \<open>Go_Time\<close>, \<open>Go_Time_Format\<close>, \<open>Decimal_Api\<close>: float64 values as rationals with
    one rounding \<open>fl\<close> after every operation, strings, metadata maps, dates, RFC 3339 times with their
    round trip, and the contract of the third-party decimal library as a locale, interpreted on exact
    rational arithmetic.
  \<^item> \<open>Outlet_Policy\<close> (\<open>outletpolicy/policy.go\<close>, \<open>order_workflow.go\<close>): use-case names, terminal policy knobs
    and the workflow of an order.
  \<^item> \<open>Doc_Sequence\<close> (\<open>documents/sequence.go\<close>): the compare-and-set number generator and its interleavings;
    the counter is an \<open>int64\<close> in Go and an unbounded integer here, so its laws are about rows below \<open>2 ^ 63\<close>.
  \<^item> \<open>Order_Model\<close>, \<open>Order_Totals\<close> (\<open>orders/service.go\<close>, \<open>orders_line_void.go\<close>): order rows, totals, line edit,
    order discount and line void with its authority rules. \<open>Line_Changes\<close> (the handlers
    \<open>orders_line_void.go\<close>, \<open>orders_line_edit.go\<close>): the whole requests, with the completion check after them.
  \<^item> \<open>Order_Channel\<close>, \<open>Kds_Route\<close>, \<open>Kds_Tickets\<close> (\<open>orderchannel\<close>, \<open>kdsroute\<close>, \<open>orders/service.go\<close>, \<open>kds.go\<close>,
    \<open>kds_online.go\<close>): sources and channels, the routing of lines to stations, issue, bump, clear and close
    of kitchen tickets.
  \<^item> \<open>Order_Status\<close> (\<open>orders/service.go\<close>, \<open>orders.go\<close>, \<open>orders_bulk.go\<close>): the transition table, status
    updates, held orders, voids and draft deletion, one at a time and in bulk, sale information. The
    write of \<open>UpdateStatus\<close> is a definition of its own (\<open>write_status\<close>), since it trusts the row read before.
  \<^item> \<open>Order_Tax\<close> (\<open>orders/tax_resolver.go\<close>, \<open>tax_subscriber.go\<close>, \<open>orders/service.go\<close>): the tax of a
    line: the resolver with its cache and invalidation events, VAT registration, the tiers; the cache
    is transparent, an invalidation makes the next answer fresh.
  \<^item> \<open>Service_Profiles\<close>, \<open>Service_Jobs\<close> (\<open>outletpolicy/service_profiles.go\<close>, \<open>orders/job.go\<close>, \<open>job_stations.go\<close>): the registry of service
    trades, and the job header of a service order with its stages, proofs, updates and dashboard.
  \<^item> \<open>Order_Lines\<close> (\<open>orders/service.go\<close>, \<open>line_variants.go\<close>): variants, modifiers and their local mirror,
    happy-hour annotations, the stored row of a line.
  \<^item> \<open>Order_Create\<close>, \<open>Order_Create_Safety\<close> (\<open>orders/service.go\<close>): \<open>CreateOrder\<close> and
    \<open>AddOrderLines\<close> whole, with every statement that can fail; idempotency, totals that agree with the
    lines, what an error leaves behind, what each added line stores.
  \<^item> \<open>Promo_Rules\<close>, \<open>Promo_Combine\<close>, \<open>Promo_Redeem\<close> (\<open>promotions/service.go\<close>, \<open>redemption.go\<close>, \<open>app.go\<close>,
    \<open>handlers/orders.go\<close>): what a rule takes off, when a promotion runs, how several stack, promo codes
    and redemption caps. \<open>Promo_Safety\<close>: one best deal per item, only deals that ran. \<open>Promo_Caps\<close>: the caps
    and the cheapest units of paired items. \<open>Promo_Orders\<close>: the contract \<open>CreateOrder\<close> relies on (locale
    \<open>deal_source\<close>), the adapter as its provider, and the discount of a stored order.
  \<^item> \<open>Return_Lines\<close>, \<open>Returns\<close>, \<open>Return_Restock\<close> (\<open>returns/*.go\<close>, \<open>orders/refund_lines.go\<close>): which lines come
    back and at which value, the refund policy, the lines, tax and cost a refund reverses; initiation, approval and
    completion with refund, exchange order and restock; inventory's reports, resyncs and late credit
    notes. \<open>Return_Safety\<close>: the requests as steps, quantities within the sale, one completion, write-offs,
    exchanges and channels over any run of them. An approval or rejection that was decided on a row read
    earlier is a step of its own (\<open>Decided_Step\<close>), since \<open>ApproveReturn\<close> writes without a condition; the
    laws that such a write breaks ask for \<open>decisions_timely\<close> and say so. \<open>Return_Demo\<close>: a concrete counter, and the requests that get past the rules.
  \<^item> \<open>Shifts\<close>, \<open>Shift_Safety\<close>, \<open>Shift_Demo\<close> (\<open>shifts/*.go\<close>, \<open>handlers/devices.go\<close>, \<open>drawers.go\<close>): what a shift counts, its
    cash-up, close and automatic end, the drawers; cash counted once, closed shifts final, the worker exact.
  \<^item> \<open>Settlement\<close> (\<open>orders/settlement.go\<close>): amount due, payment status, and the effective date of a sale.
  \<^item> \<open>Payments\<close>, \<open>Payment_Safety\<close>, \<open>Payment_Completion\<close> (\<open>payments/service.go\<close>, \<open>apply_credit.go\<close>,
    \<open>close_on_account.go\<close>): every tender, the completion claim, treasury's callbacks and background work;
    then the laws on money collected, completion and repeated messages. The reuse check of a mobile-money
    code runs outside the transaction, on a database of its own argument. The commit accepts up to a cent
    more than the balance; the law on cash is for whole amounts, where the cent cannot be used.
  \<^item> \<open>Payment_Admin\<close> (\<open>payments/manage.go\<close>): listing, edit and void of recorded payments;
    \<open>sale_history\<close> runs them among the payments of a sale and bounds its finalizations by its openings.
  \<^item> \<open>Ar_Reconcile\<close>, \<open>Ar_Safety\<close> (\<open>payments/ar_reconcile.go\<close>): reconciliation of credit orders to treasury's
    balance as a loop, and its refinement of a first-in-first-out allocation.

  Conventions. A database row is a record, a table a list or a partial map; a request is one function
  from the state to a result (a sum of an error type and the reply) and the new state. What the
  database or another service answers is an argument, so a failing statement is a case of the model and
  not an assumption. Operations that read a row and later write take the row they read as an argument;
  sequences of such steps with arbitrary rows cover concurrent sessions. Where an operation is
  one step that the code runs as a read and a later write without a lock (line changes, status updates,
  reservations of promotions), its laws are about requests that follow one another, and lemmas show what
  an overlap can do. Loops are structural
  recursions over the rows they visit, except the number generator and the category walk, which carry
  the retry count and the depth bound of the code as fuel; the theorems state what those bounds give.
  The shortest decimal text of a float is searched up to 40 decimals, enough for any amount or
  percentage. A Go map whose iteration order could show is an association list, and the theorems that
  matter are stated for every order. Time zones are functions from an instant to an offset.
  Laws about sums of money assume whole amounts below \<open>2 ^ 50\<close>, where float64 addition is exact; the
  definitions themselves round as the code does.

  Not modelled: generated database code (\<open>src/internal/ent\<close> apart from the schema fields the rows come
  from), HTTP decoding and rendering, reports and documents, printing, authentication and role
  administration, hotel, appointment, repair and loyalty handlers, sale edits
  and reversals, the audit entries of returns and the clawback of points and commission, the banner of a
  promotion, the clients of other services, event transport, and the fan-out after a sale (fiscal signing, publishing, commissions), which appears as
  the list of dispatched orders.
\<close>

end
